(* ===== verification/Prelude.thy ===== *)
theory Prelude
  imports Main "HOL-Library.Sublist" "HOL-Library.Char_ord"
begin

text \<open>
  The shared vocabulary of the development: Go errors as values, results of fallible
  calls, the named collections that the component theories fill, and the generic lemmas on
  lists and options used in several of them.

  A Go \<^verbatim>\<open>error\<close> is a value of \<open>goerr\<close>: a message made by \<^verbatim>\<open>errors.New\<close> or \<^verbatim>\<open>fmt.Errorf\<close>,
  a message wrapped around another error (\<^verbatim>\<open>%w\<close>), the joined errors of \<^verbatim>\<open>errors.Join\<close>, and
  the error values the code tells apart by type or identity. A call that returns
  \<^verbatim>\<open>(T, error)\<close> is a value of \<open>goerr + 'a\<close>, with \<open>Inl\<close> for the error.
\<close>

named_theorems go_simps \<open>rewrite rules for the modelled Go library calls\<close>
named_theorems trace_simps \<open>rewrite rules for emitted signal traces\<close>

section \<open>Errors as values\<close>

datatype goerr =
    Msg string
  | Wrap string goerr
  | Joined "goerr list"
  | HTTPError int string
  | Canceled
  | DeadlineExceeded
  | MissingNextToken
  | MissingTimestamp

type_synonym 'a result = "goerr + 'a"

text \<open>
  \<^verbatim>\<open>errors.As(err, &httpErr)\<close> and \<^verbatim>\<open>errors.Is\<close> walk the wrapped errors depth first, the
  joined ones from left to right.
\<close>

fun as_http_error :: "goerr \<Rightarrow> (int \<times> string) option"
  and as_http_errors :: "goerr list \<Rightarrow> (int \<times> string) option" where
  "as_http_error (HTTPError s b) = Some (s, b)"
| "as_http_error (Wrap m e) = as_http_error e"
| "as_http_error (Joined es) = as_http_errors es"
| "as_http_error e = None"
| "as_http_errors [] = None"
| "as_http_errors (e # es) =
     (case as_http_error e of Some h \<Rightarrow> Some h | None \<Rightarrow> as_http_errors es)"

fun is_error :: "goerr \<Rightarrow> goerr \<Rightarrow> bool"
  and is_error_any :: "goerr \<Rightarrow> goerr list \<Rightarrow> bool" where
  "is_error target (Wrap m e) = (Wrap m e = target \<or> is_error target e)"
| "is_error target (Joined es) = (Joined es = target \<or> is_error_any target es)"
| "is_error target e = (e = target)"
| "is_error_any target [] = False"
| "is_error_any target (e # es) = (is_error target e \<or> is_error_any target es)"

text \<open>
  \<^verbatim>\<open>errors.Join\<close> drops nil errors and is nil when every argument is; nil is \<open>None\<close>.
\<close>

definition join_errors :: "goerr option list \<Rightarrow> goerr option" where
  "join_errors es =
     (case [e. Some e \<leftarrow> es] of [] \<Rightarrow> None | xs \<Rightarrow> Some (Joined xs))"

lemma join_errors_None_iff: "join_errors es = None \<longleftrightarrow> (\<forall>e \<in> set es. e = None)"
  unfolding join_errors_def
  by (induction es) (auto split: option.splits list.splits)

lemma join_errors_replicate_None [simp]: "join_errors (replicate n None) = None"
  by (simp add: join_errors_None_iff)

section \<open>Results\<close>

definition bind_result :: "'a result \<Rightarrow> ('a \<Rightarrow> 'b result) \<Rightarrow> 'b result" where
  "bind_result r f = (case r of Inl e \<Rightarrow> Inl e | Inr a \<Rightarrow> f a)"

lemma bind_result_simps [simp]:
  "bind_result (Inl e) f = Inl e"
  "bind_result (Inr a) f = f a"
  by (simp_all add: bind_result_def)

lemma bind_result_Inr_iff:
  "bind_result r f = Inr b \<longleftrightarrow> (\<exists>a. r = Inr a \<and> f a = Inr b)"
  by (cases r) auto

definition isOK :: "'a result \<Rightarrow> bool" where
  "isOK r = (case r of Inl _ \<Rightarrow> False | Inr _ \<Rightarrow> True)"

lemma isOK_simps [simp]: "isOK (Inr a)" "\<not> isOK (Inl e)"
  by (simp_all add: isOK_def)

lemma isOK_iff: "isOK r \<longleftrightarrow> (\<exists>a. r = Inr a)"
  by (cases r) auto

section \<open>Integers\<close>

lemma mod_zero_iff_eq: "0 < x \<Longrightarrow> x \<le> n \<Longrightarrow> x mod n = 0 \<longleftrightarrow> x = (n::int)"
  by (cases "x = n") (auto simp: mod_pos_pos_trivial)

section \<open>Lists\<close>

lemma takeWhile_dropWhile_Cons:
  assumes "dropWhile P xs = y # ys"
  shows "xs = takeWhile P xs @ y # ys"
  using takeWhile_dropWhile_id [of P xs] assms by simp

lemma dropWhile_length_Cons:
  "dropWhile P xs = y # ys \<Longrightarrow> length ys < length xs"
  using length_dropWhile_le [of P xs] by (metis Suc_le_lessD length_Cons)

lemma filter_comm: "filter P (filter Q xs) = filter Q (filter P xs)"
  by (induction xs) auto

text \<open>
  Keeping the first element of each class of equal keys: the loop with a set of keys
  already seen that several components run.
\<close>

fun distinct_by :: "('a \<Rightarrow> 'k) \<Rightarrow> 'k set \<Rightarrow> 'a list \<Rightarrow> 'a list" where
  "distinct_by f seen [] = []"
| "distinct_by f seen (x # xs) =
     (if f x \<in> seen then distinct_by f seen xs
      else x # distinct_by f (insert (f x) seen) xs)"

lemma distinct_by_set_subset: "set (distinct_by f seen xs) \<subseteq> set xs"
  by (induction xs arbitrary: seen) auto

lemma distinct_by_keys_fresh: "x \<in> set (distinct_by f seen xs) \<Longrightarrow> f x \<notin> seen"
  by (induction xs arbitrary: seen) (auto split: if_splits)

lemma distinct_by_keys: "f ` set (distinct_by f seen xs) = f ` set xs - seen"
  by (induction xs arbitrary: seen) auto

lemma distinct_distinct_by: "distinct (map f (distinct_by f seen xs))"
  by (induction xs arbitrary: seen) (auto dest: distinct_by_keys_fresh)

lemma distinct_by_id: "distinct (map f xs) \<Longrightarrow> f ` set xs \<inter> seen = {} \<Longrightarrow> distinct_by f seen xs = xs"
  by (induction xs arbitrary: seen) auto

lemma distinct_by_idem: "distinct_by f seen (distinct_by f seen xs) = distinct_by f seen xs"
  by (rule distinct_by_id) (auto simp: distinct_distinct_by dest: distinct_by_keys_fresh)

lemma subseq_distinct_by: "subseq (distinct_by f seen xs) xs"
  by (induction xs arbitrary: seen) auto

lemma distinct_by_append:
  "distinct_by f seen (xs @ ys) = distinct_by f seen xs @ distinct_by f (seen \<union> f ` set (distinct_by f seen xs)) ys"
  by (induction xs arbitrary: seen) auto

section \<open>Steps that may stop with an error\<close>

text \<open>
  A Go statement that can return early: it changes the state and gives the error the function
  returns at once, or none, when the function goes on. \<open>and_then\<close> is the sequence of two of
  them and \<open>for_each\<close> the range loop over one.
\<close>

type_synonym 's fallible = "'s \<Rightarrow> goerr option \<times> 's"

definition and_then :: "'s fallible \<Rightarrow> 's fallible \<Rightarrow> 's fallible" where
  "and_then f g s = (case f s of (Some e, s') \<Rightarrow> (Some e, s') | (None, s') \<Rightarrow> g s')"

fun for_each :: "('a \<Rightarrow> 's fallible) \<Rightarrow> 'a list \<Rightarrow> 's fallible" where
  "for_each f [] s = (None, s)"
| "for_each f (x # xs) s = and_then (f x) (for_each f xs) s"

lemma and_then_None: "and_then f g s = (None, s'') \<longleftrightarrow> (\<exists>s'. f s = (None, s') \<and> g s' = (None, s''))"
  by (auto simp: and_then_def split: prod.splits option.splits)

lemma and_then_Some:
  "and_then f g s = (Some e, s'') \<longleftrightarrow> f s = (Some e, s'') \<or> (\<exists>s'. f s = (None, s') \<and> g s' = (Some e, s''))"
  by (auto simp: and_then_def split: prod.splits option.splits)

lemma and_then_inv:
  assumes "and_then f g s = (r, s'')" "I s" "\<And>r s s'. f s = (r, s') \<Longrightarrow> I s \<Longrightarrow> I s'" "\<And>r s s'. g s = (r, s') \<Longrightarrow> I s \<Longrightarrow> I s'"
  shows "I s''"
  using assms by (auto simp: and_then_def split: prod.splits option.splits)

lemma for_each_inv:
  assumes "for_each f xs s = (r, s'')" "I s" "\<And>x r s s'. x \<in> set xs \<Longrightarrow> f x s = (r, s') \<Longrightarrow> I s \<Longrightarrow> I s'"
  shows "I s''"
  using assms
proof (induction xs arbitrary: s r s'')
  case (Cons x xs)
  from Cons.prems(1) have e: "and_then (f x) (for_each f xs) s = (r, s'')" by simp
  show ?case
    by (rule and_then_inv [where I = I, OF e Cons.prems(2)])
      (use Cons.prems(3) Cons.IH in \<open>auto, metis\<close>)
qed simp

lemma for_each_all:
  "for_each f xs s = (None, s'') \<Longrightarrow> x \<in> set xs \<Longrightarrow> \<exists>s1 s2. f x s1 = (None, s2)"
  by (induction xs arbitrary: s) (auto simp: and_then_None)

text \<open>When no step fails, the loop runs all of them, and a function of the state that each step extends is extended by all.\<close>

lemma for_each_trace:
  assumes "for_each f xs s = (None, s'')" "\<And>x s s'. x \<in> set xs \<Longrightarrow> f x s = (None, s') \<Longrightarrow> t s' = t s @ d x"
  shows "t s'' = t s @ concat (map d xs)"
  using assms
proof (induction xs arbitrary: s)
  case (Cons x xs)
  from Cons.prems(1) obtain s' where "f x s = (None, s')" "for_each f xs s' = (None, s'')"
    by (auto simp: and_then_None)
  with Cons.IH [of s'] Cons.prems(2) show ?case by (auto simp: Cons.prems(2))
qed simp

end
