(* ===== verification/GoStrings.thy ===== *)
theory GoStrings
  imports Prelude "HOL-Library.Word"
begin

text \<open>
  The functions of Go's \<^verbatim>\<open>strings\<close>, \<^verbatim>\<open>strconv\<close> and \<^verbatim>\<open>encoding/hex\<close> packages that the
  program calls. A Go string is a sequence of bytes, and so is an Isabelle \<open>string\<close>: a
  \<open>char\<close> is a byte.

  White space is what \<^verbatim>\<open>unicode.IsSpace\<close> accepts, given by its UTF-8 encodings: no encoding
  is a prefix of another and a lead byte never occurs inside another character, so matching
  encodings on bytes finds exactly the white-space runes, also in strings that are not
  valid UTF-8.

  Case mapping maps the ASCII letters and the non-ASCII letters whose counterpart is an ASCII
  letter; every other non-ASCII byte is kept. The ASCII characters of the result are
  those of Go, which is all the program looks at: each result is compared with, searched for
  or used as an ASCII word.
\<close>

section \<open>Characters\<close>

definition code :: "char \<Rightarrow> nat" where
  "code c = of_char c"

definition is_digit :: "char \<Rightarrow> bool" where
  "is_digit c \<longleftrightarrow> 48 \<le> code c \<and> code c \<le> 57"

definition is_upper :: "char \<Rightarrow> bool" where
  "is_upper c \<longleftrightarrow> 65 \<le> code c \<and> code c \<le> 90"

definition is_lower :: "char \<Rightarrow> bool" where
  "is_lower c \<longleftrightarrow> 97 \<le> code c \<and> code c \<le> 122"

definition is_hex :: "char \<Rightarrow> bool" where
  "is_hex c \<longleftrightarrow> is_digit c \<or> (65 \<le> code c \<and> code c \<le> 70) \<or> (97 \<le> code c \<and> code c \<le> 102)"

definition is_ascii :: "char \<Rightarrow> bool" where
  "is_ascii c \<longleftrightarrow> code c < 128"

definition lower_char :: "char \<Rightarrow> char" where
  "lower_char c = (if is_upper c then char_of (code c + 32) else c)"

definition upper_char :: "char \<Rightarrow> char" where
  "upper_char c = (if is_lower c then char_of (code c - 32) else c)"

definition digit_val :: "char \<Rightarrow> nat" where
  "digit_val c = code c - 48"

definition digit_char :: "nat \<Rightarrow> char" where
  "digit_char n = char_of (48 + n mod 10)"

lemmas char_defs = code_def is_digit_def is_upper_def is_lower_def is_hex_def is_ascii_def
  lower_char_def upper_char_def digit_val_def digit_char_def

lemma code_char_of: "n < 256 \<Longrightarrow> code (char_of n) = n"
  by (simp add: code_def)

lemma code_less: "code c < 256"
  by (metis code_def mod_less_divisor of_char_mod_256 zero_less_numeral)

lemma code_inject: "code c = code d \<longleftrightarrow> c = d"
  by (simp add: code_def)

lemma digit_char_is_digit [simp]: "is_digit (digit_char n)"
proof -
  have "n mod 10 < 10" by simp
  then show ?thesis by (simp add: digit_char_def is_digit_def code_char_of)
qed

lemma digit_val_digit_char [simp]: "digit_val (digit_char n) = n mod 10"
proof -
  have "n mod 10 < 10" by simp
  then show ?thesis by (simp add: digit_char_def digit_val_def code_char_of)
qed

lemma digit_val_less: "is_digit c \<Longrightarrow> digit_val c < 10"
  by (auto simp: is_digit_def digit_val_def)

lemma digit_char_digit_val: "is_digit c \<Longrightarrow> digit_char (digit_val c) = c"
  using code_less [of c]
  by (auto simp: is_digit_def digit_val_def digit_char_def code_char_of simp flip: code_inject)

lemma lower_char_idem [simp]: "lower_char (lower_char c) = lower_char c"
  by (auto simp: lower_char_def is_upper_def code_char_of)

lemma upper_char_idem [simp]: "upper_char (upper_char c) = upper_char c"
  by (auto simp: upper_char_def is_lower_def code_char_of)

lemma lower_upper_char: "lower_char (upper_char c) = lower_char c"
  by (auto simp: upper_char_def lower_char_def is_lower_def is_upper_def code_char_of code_less
      simp flip: code_inject)

lemma upper_lower_char: "upper_char (lower_char c) = upper_char c"
  by (auto simp: upper_char_def lower_char_def is_lower_def is_upper_def code_char_of code_less
      simp flip: code_inject)

lemma is_hex_upper_char [simp]: "is_hex (upper_char c) = is_hex c"
  by (auto simp: upper_char_def is_hex_def is_digit_def is_lower_def code_char_of)

lemma is_hex_ascii: "is_hex c \<Longrightarrow> is_ascii c"
  by (auto simp: is_hex_def is_digit_def is_ascii_def)

section \<open>Case mapping\<close>

text \<open>
  \<^verbatim>\<open>strings.ToLower\<close> maps U+0130 to \<^verbatim>\<open>i\<close> and the Kelvin sign U+212A to \<^verbatim>\<open>k\<close>;
  \<^verbatim>\<open>strings.ToUpper\<close> maps U+0131 to \<^verbatim>\<open>I\<close> and U+017F to \<^verbatim>\<open>S\<close>. These are the non-ASCII letters
  with an ASCII counterpart.
\<close>

fun to_lower :: "string \<Rightarrow> string" where
  "to_lower [] = []"
| "to_lower (c # cs) =
     (if prefix [CHR 0xC4, CHR 0xB0] (c # cs) then CHR ''i'' # to_lower (drop 1 cs)
      else if prefix [CHR 0xE2, CHR 0x84, CHR 0xAA] (c # cs) then CHR ''k'' # to_lower (drop 2 cs)
      else lower_char c # to_lower cs)"

fun to_upper :: "string \<Rightarrow> string" where
  "to_upper [] = []"
| "to_upper (c # cs) =
     (if prefix [CHR 0xC4, CHR 0xB1] (c # cs) then CHR ''I'' # to_upper (drop 1 cs)
      else if prefix [CHR 0xC5, CHR 0xBF] (c # cs) then CHR ''S'' # to_upper (drop 1 cs)
      else upper_char c # to_upper cs)"

lemma to_lower_ascii: "list_all is_ascii s \<Longrightarrow> to_lower s = map lower_char s"
  by (induction s rule: to_lower.induct) (auto simp: is_ascii_def code_def)

lemma to_upper_ascii: "list_all is_ascii s \<Longrightarrow> to_upper s = map upper_char s"
  by (induction s rule: to_upper.induct) (auto simp: is_ascii_def code_def)

lemma is_ascii_lower_char: "is_ascii c \<Longrightarrow> is_ascii (lower_char c)"
  by (auto simp: is_ascii_def lower_char_def is_upper_def code_char_of)

lemma is_ascii_upper_char: "is_ascii c \<Longrightarrow> is_ascii (upper_char c)"
  by (auto simp: is_ascii_def upper_char_def is_lower_def code_char_of)

text \<open>
  \<^verbatim>\<open>strings.EqualFold\<close> compares under simple case folding. The foldings between an ASCII and a
  non-ASCII letter are \<^verbatim>\<open>s\<close> with U+017F and \<^verbatim>\<open>k\<close> with U+212A.
\<close>

fun fold_case :: "string \<Rightarrow> string" where
  "fold_case [] = []"
| "fold_case (c # cs) =
     (if prefix [CHR 0xC5, CHR 0xBF] (c # cs) then CHR ''s'' # fold_case (drop 1 cs)
      else if prefix [CHR 0xE2, CHR 0x84, CHR 0xAA] (c # cs) then CHR ''k'' # fold_case (drop 2 cs)
      else lower_char c # fold_case cs)"

definition equal_fold :: "string \<Rightarrow> string \<Rightarrow> bool" where
  "equal_fold s t \<longleftrightarrow> fold_case s = fold_case t"

section \<open>White space\<close>

definition space_codes :: "string list" where
  "space_codes =
     [[CHR 0x20], [CHR 0x09], [CHR 0x0A], [CHR 0x0B], [CHR 0x0C], [CHR 0x0D],
      [CHR 0xC2, CHR 0x85], [CHR 0xC2, CHR 0xA0], [CHR 0xE1, CHR 0x9A, CHR 0x80],
      [CHR 0xE2, CHR 0x80, CHR 0x80], [CHR 0xE2, CHR 0x80, CHR 0x81],
      [CHR 0xE2, CHR 0x80, CHR 0x82], [CHR 0xE2, CHR 0x80, CHR 0x83],
      [CHR 0xE2, CHR 0x80, CHR 0x84], [CHR 0xE2, CHR 0x80, CHR 0x85],
      [CHR 0xE2, CHR 0x80, CHR 0x86], [CHR 0xE2, CHR 0x80, CHR 0x87],
      [CHR 0xE2, CHR 0x80, CHR 0x88], [CHR 0xE2, CHR 0x80, CHR 0x89],
      [CHR 0xE2, CHR 0x80, CHR 0x8A], [CHR 0xE2, CHR 0x80, CHR 0xA8],
      [CHR 0xE2, CHR 0x80, CHR 0xA9], [CHR 0xE2, CHR 0x80, CHR 0xAF],
      [CHR 0xE2, CHR 0x81, CHR 0x9F], [CHR 0xE3, CHR 0x80, CHR 0x80]]"

definition code_at :: "string list \<Rightarrow> string \<Rightarrow> nat" where
  "code_at ws s = (case find (\<lambda>w. w \<noteq> [] \<and> prefix w s) ws of None \<Rightarrow> 0 | Some w \<Rightarrow> length w)"

lemma code_at_le: "code_at ws s \<le> length s"
  by (auto simp: code_at_def find_Some_iff prefix_def split: option.splits)

lemma code_at_Nil [simp]: "code_at ws [] = 0"
  using code_at_le [of ws "[]"] by simp

function strip_codes :: "string list \<Rightarrow> string \<Rightarrow> string" where
  "strip_codes ws s = (if code_at ws s = 0 then s else strip_codes ws (drop (code_at ws s) s))"
  by pat_completeness auto
termination
proof (relation "measure (\<lambda>(ws, s). length s)", goal_cases)
  case (2 ws s)
  then have "0 < code_at ws s" by simp
  moreover have "0 < length s" using 2 code_at_le [of ws s] by (cases s) auto
  ultimately show ?case by simp
qed simp

declare strip_codes.simps [simp del]

definition trim_space :: "string \<Rightarrow> string" where
  "trim_space s = rev (strip_codes (map rev space_codes) (rev (strip_codes space_codes s)))"

lemma strip_codes_none: "code_at ws s = 0 \<Longrightarrow> strip_codes ws s = s"
  by (simp add: strip_codes.simps [of ws s])

lemma strip_codes_suffix: "suffix (strip_codes ws s) s"
proof (induction ws s rule: strip_codes.induct)
  case (1 ws s)
  then show ?case
    by (metis strip_codes.simps suffix_drop suffix_order.dual_order.refl suffix_order.trans)
qed

lemma strip_codes_done: "code_at ws (strip_codes ws s) = 0"
proof (induction ws s rule: strip_codes.induct)
  case (1 ws s)
  then show ?case by (cases "code_at ws s = 0") (simp_all add: strip_codes.simps [of ws s])
qed

lemma length_strip_codes: "length (strip_codes ws s) \<le> length s"
  using strip_codes_suffix [of ws s] by (auto dest: suffix_length_le)

lemma length_trim_space: "length (trim_space s) \<le> length s"
  unfolding trim_space_def using length_strip_codes
  by (metis length_rev order_trans)

lemma sublist_trim_space: "sublist (trim_space s) s"
proof -
  let ?l = "strip_codes space_codes s"
  have "suffix (strip_codes (map rev space_codes) (rev ?l)) (rev ?l)"
    by (rule strip_codes_suffix)
  then have "prefix (trim_space s) ?l"
    unfolding trim_space_def by (simp add: suffix_to_prefix)
  then have "sublist (trim_space s) ?l" by (rule prefix_imp_sublist)
  also have "sublist ?l s" by (rule suffix_imp_sublist) (rule strip_codes_suffix)
  finally show ?thesis .
qed

lemma code_at_zero_iff:
  "code_at ws s = 0 \<longleftrightarrow> (\<forall>w \<in> set ws. w \<noteq> [] \<longrightarrow> \<not> prefix w s)"
proof
  show "\<forall>w \<in> set ws. w \<noteq> [] \<longrightarrow> \<not> prefix w s \<Longrightarrow> code_at ws s = 0"
    by (auto simp: code_at_def find_Some_iff split: option.splits)
next
  show "code_at ws s = 0 \<Longrightarrow> \<forall>w \<in> set ws. w \<noteq> [] \<longrightarrow> \<not> prefix w s"
    by (auto simp: code_at_def find_None_iff find_Some_iff split: option.splits)
qed

lemma code_at_prefix: "prefix t s \<Longrightarrow> code_at ws s = 0 \<Longrightarrow> code_at ws t = 0"
  unfolding code_at_zero_iff using prefix_order.trans by blast

lemma trim_space_no_lead: "code_at space_codes (trim_space s) = 0"
proof (rule code_at_prefix)
  show "code_at space_codes (strip_codes space_codes s) = 0" by (rule strip_codes_done)
  have "suffix (strip_codes (map rev space_codes) (rev (strip_codes space_codes s)))
     (rev (strip_codes space_codes s))" by (rule strip_codes_suffix)
  then show "prefix (trim_space s) (strip_codes space_codes s)"
    unfolding trim_space_def by (simp add: suffix_to_prefix)
qed

lemma trim_space_idem: "trim_space (trim_space s) = trim_space s"
proof -
  have lead: "strip_codes space_codes (trim_space s) = trim_space s"
    by (rule strip_codes_none) (rule trim_space_no_lead)
  have "code_at (map rev space_codes) (rev (trim_space s)) = 0"
    by (simp add: trim_space_def strip_codes_done)
  then have "strip_codes (map rev space_codes) (rev (trim_space s)) = rev (trim_space s)"
    by (rule strip_codes_none)
  with lead show ?thesis by (simp add: trim_space_def [of "trim_space s"])
qed

text \<open>A string with no white-space byte at either end is left alone.\<close>

definition plain_char :: "char \<Rightarrow> bool" where
  "plain_char c \<longleftrightarrow> 32 < code c \<and> code c < 128"

lemma code_at_plain: "plain_char c \<Longrightarrow> code_at space_codes (c # s) = 0"
  by (auto simp: code_at_zero_iff space_codes_def plain_char_def code_def)

lemma code_at_rev_plain: "plain_char c \<Longrightarrow> code_at (map rev space_codes) (c # s) = 0"
  by (auto simp: code_at_zero_iff space_codes_def plain_char_def code_def)

lemma trim_space_Nil [simp, go_simps]: "trim_space [] = []"
  by (simp add: trim_space_def strip_codes_none)

lemma trim_space_plain:
  assumes "s \<noteq> []" "plain_char (hd s)" "plain_char (last s)"
  shows "trim_space s = s"
proof -
  from assms obtain c t where s: "s = c # t" by (cases s) auto
  from assms obtain d u where r: "rev s = d # u" and d: "d = last s"
    by (cases "rev s") (auto simp: hd_rev [symmetric])
  have "strip_codes space_codes s = s"
    using assms by (intro strip_codes_none) (simp add: s code_at_plain)
  moreover have "strip_codes (map rev space_codes) (rev s) = rev s"
    using assms by (intro strip_codes_none) (simp only: r d code_at_rev_plain)
  ultimately show ?thesis by (simp add: trim_space_def)
qed

text \<open>\<^verbatim>\<open>strings.Fields\<close>: the maximal runs of non-space characters.\<close>

function fields_from :: "string \<Rightarrow> string \<Rightarrow> string list" where
  "fields_from cur s =
     (if s = [] then (if cur = [] then [] else [cur])
      else if code_at space_codes s = 0 then fields_from (cur @ [hd s]) (tl s)
      else (if cur = [] then [] else [cur]) @ fields_from [] (drop (code_at space_codes s) s))"
  by pat_completeness auto
termination
proof (relation "measure (\<lambda>(cur, s). length s)", goal_cases)
  case (3 cur s)
  then have "0 < code_at space_codes s" "0 < length s" by auto
  then show ?case by simp
qed auto

declare fields_from.simps [simp del]

definition str_fields :: "string \<Rightarrow> string list" where
  "str_fields s = fields_from [] s"

lemma fields_from_plain:
  "list_all plain_char s \<Longrightarrow> fields_from cur (s @ t) = fields_from (cur @ s) t"
proof (induction s arbitrary: cur)
  case (Cons c s)
  then show ?case using code_at_plain [of c "s @ t"] by (simp add: fields_from.simps [of cur])
qed simp

lemma code_at_blank: "code_at space_codes (CHR '' '' # s) = 1"
  by (simp add: code_at_def space_codes_def)

definition token :: "string \<Rightarrow> bool" where
  "token s \<longleftrightarrow> s \<noteq> [] \<and> list_all plain_char s"

lemma str_fields_token: "token s \<Longrightarrow> str_fields (s @ CHR '' '' # t) = s # str_fields t"
  using fields_from_plain [of s "[]" "CHR '' '' # t"]
  by (simp add: str_fields_def token_def fields_from.simps [of s] code_at_blank)

lemma str_fields_last: "token s \<Longrightarrow> str_fields s = [s]"
  using fields_from_plain [of s "[]" "[]"] by (simp add: str_fields_def token_def fields_from.simps [of s "[]"])

section \<open>Splitting, searching and replacing\<close>

text \<open>\<^verbatim>\<open>strings.Split\<close> with a one-byte separator.\<close>

fun split_on :: "char \<Rightarrow> string \<Rightarrow> string list" where
  "split_on sep [] = [[]]"
| "split_on sep (c # cs) =
     (if c = sep then [] # split_on sep cs
      else (case split_on sep cs of [] \<Rightarrow> [[c]] | x # xs \<Rightarrow> (c # x) # xs))"

lemma split_on_not_Nil [simp]: "split_on sep s \<noteq> []"
  by (induction s) (auto split: list.splits)

fun join :: "string \<Rightarrow> string list \<Rightarrow> string" where
  "join sep [] = []"
| "join sep [x] = x"
| "join sep (x # xs) = x @ sep @ join sep xs"

lemma join_Cons: "xs \<noteq> [] \<Longrightarrow> join sep (x # xs) = x @ sep @ join sep xs"
  by (cases xs) auto

lemma join_split_on: "join [sep] (split_on sep s) = s"
proof (induction s)
  case (Cons c cs)
  show ?case
  proof (cases "split_on sep cs")
    case (Cons x xs)
    with \<open>join [sep] (split_on sep cs) = cs\<close> show ?thesis
      by (cases xs) auto
  qed simp
qed simp

lemma split_on_no_sep: "\<forall>p \<in> set (split_on sep s). sep \<notin> set p"
  by (induction s) (auto split: list.splits)

lemma split_on_append: "sep \<notin> set p \<Longrightarrow> split_on sep (p @ sep # s) = p # split_on sep s"
  by (induction p) auto

lemma split_on_none: "sep \<notin> set p \<Longrightarrow> split_on sep p = [p]"
  by (induction p) auto

text \<open>\<^verbatim>\<open>strings.IndexByte\<close>, with \<open>None\<close> for -1.\<close>

definition index_byte :: "string \<Rightarrow> char \<Rightarrow> nat option" where
  "index_byte s c =
     (let n = length (takeWhile (\<lambda>x. x \<noteq> c) s) in if n < length s then Some n else None)"

lemma index_byte_Some_iff:
  "index_byte s c = Some n \<longleftrightarrow> n < length s \<and> s ! n = c \<and> c \<notin> set (take n s)"
proof
  assume "index_byte s c = Some n"
  then have n: "n = length (takeWhile (\<lambda>x. x \<noteq> c) s)" "n < length s"
    by (auto simp: index_byte_def Let_def split: if_splits)
  then have "s ! n = c" using nth_length_takeWhile [of "\<lambda>x. x \<noteq> c" s] by simp
  moreover have "take n s = takeWhile (\<lambda>x. x \<noteq> c) s" by (simp add: n takeWhile_eq_take [symmetric])
  ultimately show "n < length s \<and> s ! n = c \<and> c \<notin> set (take n s)"
    using n by (auto dest: set_takeWhileD)
next
  assume h: "n < length s \<and> s ! n = c \<and> c \<notin> set (take n s)"
  have "takeWhile (\<lambda>x. x \<noteq> c) s = take n s"
    using h by (intro takeWhile_eq_take_P_nth) (auto simp: in_set_conv_nth)
  with h show "index_byte s c = Some n" by (simp add: index_byte_def Let_def)
qed

lemma index_byte_None_iff: "index_byte s c = None \<longleftrightarrow> c \<notin> set s"
proof -
  let ?t = "takeWhile (\<lambda>x. x \<noteq> c) s"
  have "index_byte s c = None \<longleftrightarrow> length s \<le> length ?t"
    by (simp add: index_byte_def Let_def not_less)
  also have "\<dots> \<longleftrightarrow> ?t = s"
    by (metis length_takeWhile_le order_refl takeWhile_eq_take take_all)
  also have "\<dots> \<longleftrightarrow> c \<notin> set s" by (auto simp: takeWhile_eq_all_conv)
  finally show ?thesis .
qed

definition contains :: "string \<Rightarrow> string \<Rightarrow> bool" where
  "contains s sub \<longleftrightarrow> list_ex (prefix sub) (suffixes s)"

lemma contains_iff_sublist: "contains s sub \<longleftrightarrow> sublist sub s"
  by (auto simp: contains_def list_ex_iff sublist_altdef')

text \<open>\<^verbatim>\<open>strings.ReplaceAll\<close> with a non-empty old string: leftmost, non-overlapping.\<close>

function replace_all :: "string \<Rightarrow> string \<Rightarrow> string \<Rightarrow> string" where
  "replace_all old new s =
     (if s = [] \<or> old = [] then s
      else if prefix old s then new @ replace_all old new (drop (length old) s)
      else hd s # replace_all old new (tl s))"
  by pat_completeness auto
termination
  by (relation "measure (\<lambda>(old, new, s). length s)") auto

declare replace_all.simps [simp del]

lemma replace_all_Nil [simp, go_simps]: "replace_all old new [] = []"
  by (simp add: replace_all.simps)

lemma replace_all_Cons:
  "old \<noteq> [] \<Longrightarrow> replace_all old new (c # s) =
     (if prefix old (c # s) then new @ replace_all old new (drop (length old) (c # s))
      else c # replace_all old new s)"
  by (simp add: replace_all.simps [of old new "c # s"])

section \<open>Numbers and hexadecimal\<close>

definition digits_val :: "string \<Rightarrow> int" where
  "digits_val s = foldl (\<lambda>n c. 10 * n + int (digit_val c)) 0 s"

definition digit_of :: "int \<Rightarrow> char" where
  "digit_of n = digit_char (nat (n mod 10))"

lemma digit_of_is_digit [simp]: "is_digit (digit_of n)"
  by (simp add: digit_of_def)

lemma digit_val_digit_of [simp]: "int (digit_val (digit_of n)) = n mod 10"
  by (simp add: digit_of_def nat_mod_distrib)

lemma digits_val_append_digit: "digits_val (s @ [c]) = 10 * digits_val s + int (digit_val c)"
  by (simp add: digits_val_def)

lemma digits_val_Nil [simp]: "digits_val [] = 0"
  by (simp add: digits_val_def)

lemma digits_val_nonneg: "0 \<le> digits_val s"
  by (induction s rule: rev_induct) (simp_all add: digits_val_append_digit)

lemma digits_val_bound: "list_all is_digit s \<Longrightarrow> digits_val s < 10 ^ length s"
proof (induction s rule: rev_induct)
  case (snoc c s)
  then have "digits_val s < 10 ^ length s" "digit_val c < 10" by (auto intro: digit_val_less)
  then show ?case by (simp add: digits_val_append_digit)
qed simp

text \<open>
  \<^verbatim>\<open>strconv.ParseUint(s, 10, 64)\<close>: one or more decimal digits, no sign, no separator; a
  value of \<open>2 ^ 64\<close> or more is a range error.
\<close>

definition parse_uint :: "string \<Rightarrow> 64 word option" where
  "parse_uint s =
     (if s = [] \<or> \<not> list_all is_digit s then None
      else if digits_val s < 2 ^ 64 then Some (of_int (digits_val s)) else None)"

lemma parse_uint_Some:
  "parse_uint s = Some w \<Longrightarrow> list_all is_digit s \<and> s \<noteq> [] \<and> uint w = digits_val s"
  using digits_val_nonneg [of s]
  by (auto simp: parse_uint_def uint_word_of_int split: if_splits)

text \<open>\<^verbatim>\<open>strconv.FormatUint(n, 10)\<close>.\<close>

function int_digits :: "int \<Rightarrow> string" where
  "int_digits n = (if n < 10 then [digit_of n] else int_digits (n div 10) @ [digit_of n])"
  by pat_completeness auto
termination
  by (relation "measure nat") auto

declare int_digits.simps [simp del]

definition format_uint :: "64 word \<Rightarrow> string" where
  "format_uint w = int_digits (uint w)"

lemma int_digits_digits: "list_all is_digit (int_digits n)"
proof (induction n rule: int_digits.induct)
  case (1 n)
  then show ?case by (cases "n < 10") (simp_all add: int_digits.simps [of n])
qed

lemma int_digits_not_Nil [simp]: "int_digits n \<noteq> []"
  by (simp add: int_digits.simps [of n])

lemma digits_val_int_digits: "0 \<le> n \<Longrightarrow> digits_val (int_digits n) = n"
proof (induction n rule: int_digits.induct)
  case (1 n)
  then show ?case
    by (cases "n < 10")
      (simp_all add: int_digits.simps [of n] digits_val_append_digit, simp add: digits_val_def)
qed

lemma parse_format_uint: "parse_uint (format_uint w) = Some w"
  using uint_lt2p [of w]
  by (simp add: parse_uint_def format_uint_def int_digits_digits digits_val_int_digits)

text \<open>\<^verbatim>\<open>hex.DecodeString\<close> succeeds on an even number of hexadecimal digits.\<close>

definition hex_ok :: "string \<Rightarrow> bool" where
  "hex_ok s \<longleftrightarrow> even (length s) \<and> list_all is_hex s"

definition hex_digit :: "nat \<Rightarrow> char" where
  "hex_digit n = (if n < 10 then char_of (48 + n) else char_of (87 + n))"

definition hex_encode :: "string \<Rightarrow> string" where
  "hex_encode s = concat (map (\<lambda>c. [hex_digit (code c div 16), hex_digit (code c mod 16)]) s)"

lemma hex_digit_is_hex: "n < 16 \<Longrightarrow> is_hex (hex_digit n)"
  by (auto simp: hex_digit_def is_hex_def is_digit_def code_char_of)

lemma hex_encode_hex: "list_all is_hex (hex_encode s)"
  using code_less by (auto simp: hex_encode_def list_all_iff intro!: hex_digit_is_hex
      simp: less_mult_imp_div_less)

lemma length_hex_encode: "length (hex_encode s) = 2 * length s"
  by (induction s) (auto simp: hex_encode_def)


section \<open>Quoting\<close>

text \<open>
  The verb \<^verbatim>\<open>%q\<close>: a string in double quotes, with Go's escapes for quotes, backslashes, control characters and bytes that
  are not UTF-8. Characters outside ASCII are kept, as Go keeps those it counts as printable.
\<close>

definition rune_len :: "string \<Rightarrow> nat" where
  "rune_len s =
     (case map code s of
        [] \<Rightarrow> 0
      | b # bs \<Rightarrow>
          if b < 128 then 1
          else if 194 \<le> b \<and> b \<le> 223 then
            (case bs of c # _ \<Rightarrow> if 128 \<le> c \<and> c \<le> 191 then 2 else 0 | _ \<Rightarrow> 0)
          else if 224 \<le> b \<and> b \<le> 239 then
            (case bs of
               c # d # _ \<Rightarrow>
                 if (if b = 224 then 160 else 128) \<le> c \<and> c \<le> (if b = 237 then 159 else 191) \<and> 128 \<le> d \<and> d \<le> 191 then 3 else 0
             | _ \<Rightarrow> 0)
          else if 240 \<le> b \<and> b \<le> 244 then
            (case bs of
               c # d # e # _ \<Rightarrow>
                 if (if b = 240 then 144 else 128) \<le> c \<and> c \<le> (if b = 244 then 143 else 191) \<and> 128 \<le> d \<and> d \<le> 191 \<and> 128 \<le> e \<and> e \<le> 191
                 then 4 else 0
             | _ \<Rightarrow> 0)
          else 0)"

definition byte_escape :: "char \<Rightarrow> string" where
  "byte_escape c = CHR 0x5C # ''x'' @ hex_encode [c]"

definition quote_char :: "char \<Rightarrow> string" where
  "quote_char c =
     (if c = CHR 0x22 \<or> c = CHR 0x5C then [CHR 0x5C, c]
      else if code c = 7 then CHR 0x5C # ''a'' else if code c = 8 then CHR 0x5C # ''b'' else if code c = 12 then CHR 0x5C # ''f''
      else if code c = 10 then CHR 0x5C # ''n'' else if code c = 13 then CHR 0x5C # ''r'' else if code c = 9 then CHR 0x5C # ''t''
      else if code c = 11 then CHR 0x5C # ''v''
      else if code c < 32 \<or> code c = 127 then byte_escape c
      else [c])"

function quote_from :: "string \<Rightarrow> string" where
  "quote_from [] = []"
| "quote_from (c # cs) =
     (if is_ascii c then quote_char c @ quote_from cs
      else let n = rune_len (c # cs) in
        if n = 0 then byte_escape c @ quote_from cs else c # take (n - 1) cs @ quote_from (drop (n - 1) cs))"
  by pat_completeness auto
termination
  by (relation "measure length") auto

definition go_quote :: "string \<Rightarrow> string" where
  "go_quote s = CHR 0x22 # quote_from s @ [CHR 0x22]"

lemma go_quote_examples:
  "go_quote ''a'' = [CHR 0x22, CHR ''a'', CHR 0x22]" "quote_from [CHR 0x22, CHR 0x0A] = [CHR 0x5C, CHR 0x22, CHR 0x5C, CHR ''n'']"
  "quote_from [CHR 0xC3, CHR 0xA4] = [CHR 0xC3, CHR 0xA4]" "quote_from [CHR 0xFF] = CHR 0x5C # ''xff''"
  by code_simp+

end
