(* ===== verification/GoTime.thy ===== *)
theory GoTime
  imports GoStrings "HOL-Library.Monad_Syntax"
begin

text \<open>
  The part of Go's \<^verbatim>\<open>time\<close> package the program relies on: instants, comparison,
  \<^verbatim>\<open>time.Parse(time.RFC3339Nano, s)\<close>, \<^verbatim>\<open>t.Format(time.RFC3339Nano)\<close>,
  \<^verbatim>\<open>time.ParseInLocation("2006-01-02T15:04:05", s, loc)\<close>, \<^verbatim>\<open>time.Date\<close> and \<^verbatim>\<open>t.Sub\<close>.

  A \<^verbatim>\<open>time.Time\<close> is its second since the Unix epoch, its nanosecond and the offset from
  UTC in force in its location at that instant, which is all that \<^verbatim>\<open>Format\<close> reads of the
  location. A \<^verbatim>\<open>*time.Location\<close> is the function from an instant to the offset in force: the
  time-zone database is data, a parameter of the model.
\<close>

record gotime =
  t_unix :: int
  t_nsec :: int
  t_off :: int

type_synonym location = "int \<Rightarrow> int"

definition utc :: location where
  "utc = (\<lambda>_. 0)"

section \<open>Instants\<close>

definition instant :: "gotime \<Rightarrow> int" where
  "instant t = t_unix t * 1000000000 + t_nsec t"

definition time_before :: "gotime \<Rightarrow> gotime \<Rightarrow> bool" where
  "time_before t u \<longleftrightarrow> instant t < instant u"

definition time_after :: "gotime \<Rightarrow> gotime \<Rightarrow> bool" where
  "time_after t u \<longleftrightarrow> instant t > instant u"

definition time_equal :: "gotime \<Rightarrow> gotime \<Rightarrow> bool" where
  "time_equal t u \<longleftrightarrow> instant t = instant u"

lemmas time_cmp_defs = time_before_def time_after_def time_equal_def

text \<open>\<^verbatim>\<open>t.IsZero()\<close>: January 1, year 1, 00:00:00 UTC.\<close>

definition is_zero :: "gotime \<Rightarrow> bool" where
  "is_zero t \<longleftrightarrow> t_unix t = -62135596800 \<and> t_nsec t = 0"

text \<open>\<^verbatim>\<open>t.Sub(u)\<close>: a signed 64-bit number of nanoseconds, saturated.\<close>

definition clamp64 :: "int \<Rightarrow> int" where
  "clamp64 x = max (- (2 ^ 63)) (min (2 ^ 63 - 1) x)"

definition time_sub :: "gotime \<Rightarrow> gotime \<Rightarrow> int" where
  "time_sub t u = clamp64 (instant t - instant u)"

section \<open>The calendar\<close>

definition is_leap :: "int \<Rightarrow> bool" where
  "is_leap y \<longleftrightarrow> y mod 4 = 0 \<and> (y mod 100 \<noteq> 0 \<or> y mod 400 = 0)"

definition days_in :: "int \<Rightarrow> int \<Rightarrow> int" where
  "days_in y m =
     (if m = 2 then (if is_leap y then 29 else 28)
      else if m = 4 \<or> m = 6 \<or> m = 9 \<or> m = 11 then 30 else 31)"

text \<open>Days from January 1 of year 1 to January 1 of year \<open>y\<close>.\<close>

definition days_before_year :: "int \<Rightarrow> int" where
  "days_before_year y = 365 * (y - 1) + (y - 1) div 4 - (y - 1) div 100 + (y - 1) div 400"

function days_before_month :: "int \<Rightarrow> int \<Rightarrow> int" where
  "days_before_month y m = (if m \<le> 1 then 0 else days_before_month y (m - 1) + days_in y (m - 1))"
  by pat_completeness auto
termination
  by (relation "measure (\<lambda>(y, m). nat m)") auto

declare days_before_month.simps [simp del]

text \<open>Days from the Unix epoch: 719162 days lie between year 1 and 1970.\<close>

definition days_from_civil :: "int \<Rightarrow> int \<Rightarrow> int \<Rightarrow> int" where
  "days_from_civil y m d = days_before_year y + days_before_month y m + (d - 1) - 719162"

function month_day :: "int \<Rightarrow> int \<Rightarrow> int \<Rightarrow> int \<times> int" where
  "month_day y m yd =
     (if m \<ge> 12 \<or> yd < days_in y m then (m, yd + 1) else month_day y (m + 1) (yd - days_in y m))"
  by pat_completeness auto
termination
  by (relation "measure (\<lambda>(y, m, yd). nat (12 - m))") auto

declare month_day.simps [simp del]

definition year_of_days :: "int \<Rightarrow> int \<times> int" where
  "year_of_days n =
     (let n400 = n div 146097; d1 = n mod 146097;
          n100 = min 3 (d1 div 36524); d2 = d1 - n100 * 36524;
          n4 = d2 div 1461; d3 = d2 mod 1461;
          n1 = min 3 (d3 div 365)
      in (400 * n400 + 100 * n100 + 4 * n4 + n1 + 1, d3 - n1 * 365))"

definition civil_from_days :: "int \<Rightarrow> int \<times> int \<times> int" where
  "civil_from_days n = (let (y, yd) = year_of_days (n + 719162); (m, d) = month_day y 1 yd in (y, m, d))"

definition year_length :: "int \<Rightarrow> int" where
  "year_length y = (if is_leap y then 366 else 365)"

lemma year_of_days_inverse:
  assumes "0 \<le> yd" "yd < year_length y"
  shows "year_of_days (days_before_year y + yd) = (y, yd)"
proof -
  define Y where "Y = y - 1"
  define a where "a = Y div 400"
  define b where "b = (Y mod 400) div 100"
  define c where "c = (Y mod 100) div 4"
  define e where "e = Y mod 4"
  have Y: "Y = 400 * a + 100 * b + 4 * c + e"
  proof -
    have "Y mod 400 mod 100 = Y mod 100" "Y mod 100 mod 4 = Y mod 4"
      by (simp_all add: mod_mod_cancel)
    moreover have "Y = 400 * a + Y mod 400" unfolding a_def by simp
    moreover have "Y mod 400 = 100 * b + Y mod 400 mod 100" unfolding b_def by simp
    moreover have "Y mod 100 = 4 * c + Y mod 100 mod 4" unfolding c_def by simp
    ultimately show ?thesis unfolding e_def by linarith
  qed
  have bnd: "0 \<le> b" "b \<le> 3" "0 \<le> c" "c \<le> 24" "0 \<le> e" "e \<le> 3"
  proof -
    have "0 \<le> Y mod 400" "Y mod 400 < 400" "0 \<le> Y mod 100" "Y mod 100 < 100" "0 \<le> Y mod 4" "Y mod 4 < 4"
      by simp_all
    then show "0 \<le> b" "b \<le> 3" "0 \<le> c" "c \<le> 24" "0 \<le> e" "e \<le> 3"
      unfolding b_def c_def e_def by linarith+
  qed
  have divs: "Y div 4 = 100 * a + 25 * b + c" "Y div 100 = 4 * a + b" "Y div 400 = a"
    using Y bnd by linarith+
  have n: "days_before_year y = 146097 * a + 36524 * b + 1461 * c + 365 * e"
    unfolding days_before_year_def Y_def [symmetric] divs using Y by linarith
  have leap: "is_leap y \<longleftrightarrow> e = 3 \<and> (c < 24 \<or> b = 3)"
  proof -
    have y: "y = 400 * a + 100 * b + 4 * c + e + 1" using Y Y_def by simp
    have "y = (e + 1) + 4 * (100 * a + 25 * b + c)" using y by simp
    then have "y mod 4 = (e + 1) mod 4" by (metis mod_mult_self2)
    moreover have "e = 0 \<or> e = 1 \<or> e = 2 \<or> e = 3" using bnd by linarith
    ultimately have m4: "y mod 4 = 0 \<longleftrightarrow> e = 3" by auto
    have "y = (4 * c + e + 1) + 100 * (4 * a + b)" using y by simp
    then have "y mod 100 = (4 * c + e + 1) mod 100" by (metis mod_mult_self2)
    then have m100: "y mod 100 = 0 \<longleftrightarrow> 4 * c + e + 1 = 100"
      using bnd by (simp add: mod_zero_iff_eq)
    have "y = (100 * b + 4 * c + e + 1) + 400 * a" using y by simp
    then have "y mod 400 = (100 * b + 4 * c + e + 1) mod 400" by (metis mod_mult_self2)
    then have m400: "y mod 400 = 0 \<longleftrightarrow> 100 * b + 4 * c + e + 1 = 400"
      using bnd by (simp add: mod_zero_iff_eq)
    show ?thesis unfolding is_leap_def m4 m100 m400 using bnd by linarith
  qed
  have yd: "yd \<le> 364 + (if e = 3 \<and> (c < 24 \<or> b = 3) then 1 else 0)"
    using assms leap by (auto simp: year_length_def split: if_splits)
  define d1 where "d1 = 36524 * b + 1461 * c + 365 * e + yd"
  have d1: "0 \<le> d1" "d1 < 146097" using bnd yd assms(1) unfolding d1_def by (auto split: if_splits)
  have "days_before_year y + yd = 146097 * a + d1" using n d1_def by simp
  then have q1: "(days_before_year y + yd) div 146097 = a"
    and r1: "(days_before_year y + yd) mod 146097 = d1"
    using d1 by (simp_all add: int_div_pos_eq int_mod_pos_eq)
  have q2: "min 3 (d1 div 36524) = b"
    using bnd yd assms(1) unfolding d1_def by (auto split: if_splits)
  define d2 where "d2 = 1461 * c + 365 * e + yd"
  have e4: "0 \<le> 365 * e + yd" "365 * e + yd < 1461" using bnd yd assms(1) by (auto split: if_splits)
  have q3: "d2 div 1461 = c" and r3: "d2 mod 1461 = 365 * e + yd"
    using e4 unfolding d2_def by (simp_all add: int_div_pos_eq int_mod_pos_eq)
  have q4: "min 3 ((365 * e + yd) div 365) = e"
    using bnd yd assms(1) by (auto split: if_splits)
  have "d1 - b * 36524 = d2" unfolding d1_def d2_def by simp
  then show ?thesis
    unfolding year_of_days_def Let_def q1 r1 q2
    using q3 r3 q4 Y Y_def by simp
qed

lemma days_in_bounds: "28 \<le> days_in y m" "days_in y m \<le> 31"
  by (auto simp: days_in_def)

lemma month_range_cases:
  "1 \<le> m \<Longrightarrow> m \<le> 12 \<Longrightarrow>
     m = 1 \<or> m = 2 \<or> m = 3 \<or> m = 4 \<or> m = 5 \<or> m = 6 \<or> m = 7 \<or> m = 8 \<or> m = 9 \<or> m = 10 \<or> m = 11 \<or> m = (12::int)"
  by presburger

lemma month_day_step:
  assumes "k + 1 \<le> m" "m \<le> 12" "1 \<le> k" "0 \<le> r"
    and "yd = days_before_month y m - days_before_month y k + r"
  shows "month_day y k yd = month_day y (k + 1) (yd - days_in y k)"
proof -
  have mono: "days_before_month y (k + 1) \<le> days_before_month y m"
    using assms(1)
  proof (induction "nat (m - (k + 1))" arbitrary: m)
    case 0
    then show ?case by simp
  next
    case (Suc n)
    then have "days_before_month y (k + 1) \<le> days_before_month y (m - 1)"
      by (intro Suc.hyps) auto
    then show ?case
      using days_in_bounds [of y "m - 1"] Suc.prems assms(3)
      by (simp add: days_before_month.simps [of y m])
  qed
  moreover have "days_before_month y (k + 1) = days_before_month y k + days_in y k"
    using assms(3) by (simp add: days_before_month.simps [of y "k + 1"])
  ultimately have "days_in y k \<le> yd" using assms by simp
  moreover have "k < 12" using assms by simp
  ultimately show ?thesis by (simp add: month_day.simps [of y k])
qed

lemma month_day_from:
  assumes "1 \<le> k" "k \<le> m" "m \<le> 12" "1 \<le> d" "d \<le> days_in y m"
  shows "month_day y k (days_before_month y m - days_before_month y k + (d - 1)) = (m, d)"
  using assms(1,2)
proof (induction "nat (m - k)" arbitrary: k)
  case 0
  then have "k = m" by simp
  then show ?case using assms by (simp add: month_day.simps [of y m])
next
  case (Suc n)
  let ?yd = "days_before_month y m - days_before_month y k + (d - 1)"
  have "month_day y k ?yd = month_day y (k + 1) (?yd - days_in y k)"
    using Suc assms by (intro month_day_step [where m = m and r = "d - 1"]) auto
  also have "?yd - days_in y k = days_before_month y m - days_before_month y (k + 1) + (d - 1)"
    using Suc.prems by (simp add: days_before_month.simps [of y "k + 1"])
  also have "month_day y (k + 1) \<dots> = (m, d)"
    using Suc by (intro Suc.hyps) auto
  finally show ?case .
qed

lemma days_before_month_1 [simp]: "days_before_month y 1 = 0"
  by (simp add: days_before_month.simps [of y 1])

lemma days_before_month_13: "days_before_month y 13 = year_length y"
  by (simp add: days_before_month.simps days_in_def year_length_def)

lemma days_before_month_mono:
  assumes "1 \<le> m" "m \<le> n" shows "days_before_month y m \<le> days_before_month y n"
  using assms
proof (induction "nat (n - m)" arbitrary: n)
  case (Suc k)
  then have "days_before_month y m \<le> days_before_month y (n - 1)" by (intro Suc.hyps) auto
  moreover have "1 < n" using Suc by simp
  ultimately show ?case
    using days_in_bounds [of y "n - 1"] by (simp add: days_before_month.simps [of y n])
qed simp

definition valid_date :: "int \<Rightarrow> int \<Rightarrow> int \<Rightarrow> bool" where
  "valid_date y m d \<longleftrightarrow> 1 \<le> m \<and> m \<le> 12 \<and> 1 \<le> d \<and> d \<le> days_in y m"

lemma yday_in_year:
  assumes "valid_date y m d"
  shows "0 \<le> days_before_month y m + (d - 1)" "days_before_month y m + (d - 1) < year_length y"
proof -
  from assms have m: "1 \<le> m" "m \<le> 12" and d: "1 \<le> d" "d \<le> days_in y m"
    by (auto simp: valid_date_def)
  show "0 \<le> days_before_month y m + (d - 1)"
    using days_before_month_mono [of 1 m y] m d by simp
  have "days_before_month y (m + 1) = days_before_month y m + days_in y m"
    using m by (simp add: days_before_month.simps [of y "m + 1"])
  then show "days_before_month y m + (d - 1) < year_length y"
    using days_before_month_mono [of "m + 1" 13 y] m d days_before_month_13 [of y] by simp
qed

lemma civil_from_days_from_civil:
  assumes "valid_date y m d"
  shows "civil_from_days (days_from_civil y m d) = (y, m, d)"
proof -
  have "year_of_days (days_before_year y + (days_before_month y m + (d - 1))) =
     (y, days_before_month y m + (d - 1))"
    using yday_in_year [OF assms] by (rule year_of_days_inverse)
  moreover have "month_day y 1 (days_before_month y m - days_before_month y 1 + (d - 1)) = (m, d)"
    using assms by (intro month_day_from) (auto simp: valid_date_def)
  ultimately show ?thesis
    by (simp add: civil_from_days_def days_from_civil_def algebra_simps)
qed

section \<open>Reading and writing times\<close>

text \<open>The scanner of \<^verbatim>\<open>time.Parse\<close>: one or two digits, an expected byte, a fraction.\<close>

definition getnum :: "bool \<Rightarrow> string \<Rightarrow> (int \<times> string) option" where
  "getnum fixed s =
     (case s of
        [] \<Rightarrow> None
      | c # cs \<Rightarrow>
          if \<not> is_digit c then None
          else (case cs of
              d # ds \<Rightarrow> if is_digit d then Some (10 * int (digit_val c) + int (digit_val d), ds)
                        else if fixed then None else Some (int (digit_val c), cs)
            | [] \<Rightarrow> if fixed then None else Some (int (digit_val c), [])))"

definition skip :: "char \<Rightarrow> string \<Rightarrow> string option" where
  "skip c s = (case s of x # xs \<Rightarrow> if x = c then Some xs else None | [] \<Rightarrow> None)"

definition parse_year :: "string \<Rightarrow> (int \<times> string) option" where
  "parse_year s =
     (if length s \<ge> 4 \<and> list_all is_digit (take 4 s)
      then Some (digits_val (take 4 s), drop 4 s) else None)"

definition guard_range :: "int \<Rightarrow> int \<Rightarrow> int \<times> string \<Rightarrow> (int \<times> string) option" where
  "guard_range lo hi p = (if lo \<le> fst p \<and> fst p \<le> hi then Some p else None)"

definition frac_val :: "string \<Rightarrow> int" where
  "frac_val s = (let ds = take 9 (takeWhile is_digit s) in digits_val ds * 10 ^ (9 - length ds))"

definition parse_frac :: "string \<Rightarrow> int \<times> string" where
  "parse_frac s =
     (case s of
        c # d # r \<Rightarrow>
          if (c = CHR ''.'' \<or> c = CHR '','') \<and> is_digit d
          then (frac_val (d # r), dropWhile is_digit (d # r))
          else (0, s)
      | _ \<Rightarrow> (0, s))"

text \<open>
  The layout \<^verbatim>\<open>2006-01-02T15:04:05\<close> with an optional fraction: the days since the epoch, the
  second of the day, the nanosecond, and the text that follows.
\<close>

definition parse_civil :: "string \<Rightarrow> (int \<times> int \<times> int \<times> string) option" where
  "parse_civil s = do {
     (y, s) \<leftarrow> parse_year s;
     s \<leftarrow> skip (CHR ''-'') s;
     (mo, s) \<leftarrow> Option.bind (getnum True s) (guard_range 1 12);
     s \<leftarrow> skip (CHR ''-'') s;
     (d, s) \<leftarrow> getnum True s;
     s \<leftarrow> skip (CHR ''T'') s;
     (h, s) \<leftarrow> Option.bind (getnum False s) (guard_range 0 23);
     s \<leftarrow> skip (CHR '':'') s;
     (mi, s) \<leftarrow> Option.bind (getnum True s) (guard_range 0 59);
     s \<leftarrow> skip (CHR '':'') s;
     (sec, s) \<leftarrow> Option.bind (getnum True s) (guard_range 0 59);
     let (ns, s) = parse_frac s;
     (if valid_date y mo d
      then Some (days_from_civil y mo d, h * 3600 + mi * 60 + sec, ns, s) else None)
   }"

text \<open>\<^verbatim>\<open>Z07:00\<close>: the offset in seconds; up to 24 hours and 60 minutes are accepted.\<close>

definition parse_zone :: "string \<Rightarrow> (int \<times> string) option" where
  "parse_zone s =
     (if s \<noteq> [] \<and> hd s = CHR ''Z'' then Some (0, tl s)
      else if length s < 6 \<or> s ! 3 \<noteq> CHR '':'' then None
      else do {
        (hr, _) \<leftarrow> getnum True (take 2 (drop 1 s));
        (mm, _) \<leftarrow> getnum True (take 2 (drop 4 s));
        (if hr > 24 \<or> mm > 60 then None
         else if hd s = CHR ''+'' then Some ((hr * 60 + mm) * 60, drop 6 s)
         else if hd s = CHR ''-'' then Some (- ((hr * 60 + mm) * 60), drop 6 s)
         else None)
      })"

definition parse_rfc3339 :: "string \<Rightarrow> gotime option" where
  "parse_rfc3339 s = do {
     (days, sod, ns, s) \<leftarrow> parse_civil s;
     (off, s) \<leftarrow> parse_zone s;
     (if s = [] then Some \<lparr>t_unix = days * 86400 + sod - off, t_nsec = ns, t_off = off\<rparr> else None)
   }"

text \<open>
  \<^verbatim>\<open>time.Date\<close> in a location: the offset in force at the wall-clock reading taken as UTC, and,
  when it is not zero, the one in force at the instant this offset gives.
\<close>

definition date_in :: "location \<Rightarrow> int \<Rightarrow> int \<Rightarrow> gotime" where
  "date_in loc wall ns =
     (let off1 = loc wall;
          u = (if off1 = 0 then wall else wall - loc (wall - off1))
      in \<lparr>t_unix = u, t_nsec = ns, t_off = loc u\<rparr>)"

definition parse_in_location :: "location \<Rightarrow> string \<Rightarrow> gotime option" where
  "parse_in_location loc s = do {
     (days, sod, ns, s) \<leftarrow> parse_civil s;
     (if s = [] then Some (date_in loc (days * 86400 + sod) ns) else None)
   }"

definition pad2 :: "int \<Rightarrow> string" where
  "pad2 n = [digit_of (n div 10), digit_of n]"

definition pad4 :: "int \<Rightarrow> string" where
  "pad4 n = [digit_of (n div 1000), digit_of (n div 100), digit_of (n div 10), digit_of n]"

definition trim_zeros :: "string \<Rightarrow> string" where
  "trim_zeros s = rev (dropWhile (\<lambda>c. c = CHR ''0'') (rev s))"

fun pad_digits :: "nat \<Rightarrow> int \<Rightarrow> string" where
  "pad_digits 0 n = []"
| "pad_digits (Suc k) n = pad_digits k (n div 10) @ [digit_of n]"

definition format_frac :: "int \<Rightarrow> string" where
  "format_frac ns = (if ns = 0 then [] else CHR ''.'' # trim_zeros (pad_digits 9 ns))"

definition format_zone :: "int \<Rightarrow> string" where
  "format_zone off =
     (if off = 0 then ''Z''
      else (let z = \<bar>off\<bar> div 60 in (if off < 0 then ''-'' else ''+'') @ pad2 (z div 60) @ '':'' @ pad2 (z mod 60)))"

text \<open>\<^verbatim>\<open>t.Format(time.RFC3339Nano)\<close> for a year of four digits.\<close>

definition format_rfc3339 :: "gotime \<Rightarrow> string" where
  "format_rfc3339 t =
     (let wall = t_unix t + t_off t;
          sod = wall mod 86400;
          (y, mo, d) = civil_from_days (wall div 86400)
      in pad4 y @ ''-'' @ pad2 mo @ ''-'' @ pad2 d @ ''T'' @ pad2 (sod div 3600) @ '':'' @
         pad2 (sod mod 3600 div 60) @ '':'' @ pad2 (sod mod 60) @ format_frac (t_nsec t) @ format_zone (t_off t))"

subsection \<open>Printing and reading back\<close>

lemma div10_mod10: "10 * (x div 10) + x mod 10 = (x::int)"
  by simp

lemma getnum_pad2 [go_simps]:
  assumes "0 \<le> n" "n < 100"
  shows "getnum fixed (pad2 n @ r) = Some (n, r)"
proof -
  have "n div 10 mod 10 = n div 10" using assms by (intro mod_pos_pos_trivial) auto
  then have "10 * (n div 10 mod 10) + n mod 10 = n" using div10_mod10 [of n] by (simp only:)
  moreover have "getnum fixed (pad2 n @ r) = Some (10 * (n div 10 mod 10) + n mod 10, r)"
    by (simp add: getnum_def pad2_def del: mult_div_mod_eq)
  ultimately show ?thesis by (simp only:)
qed

lemma getnum_pad2_end: "0 \<le> n \<Longrightarrow> n < 100 \<Longrightarrow> getnum fixed (pad2 n) = Some (n, [])"
  using getnum_pad2 [of n fixed "[]"] by simp

lemma parse_year_pad4 [go_simps]:
  assumes "0 \<le> n" "n < 10000"
  shows "parse_year (pad4 n @ r) = Some (n, r)"
proof -
  have d3: "n div 1000 = n div 100 div 10" and d2: "n div 100 = n div 10 div 10"
    by (simp_all add: zdiv_zmult2_eq [symmetric])
  have "n div 1000 mod 10 = n div 1000" using assms by (intro mod_pos_pos_trivial) auto
  then have "10 * (n div 1000 mod 10) + n div 100 mod 10 = n div 100"
    using div10_mod10 [of "n div 100"] d3 by (simp only:)
  then have "10 * (10 * (n div 1000 mod 10) + n div 100 mod 10) + n div 10 mod 10 = n div 10"
    using div10_mod10 [of "n div 10"] d2 by (simp only:)
  then have "10 * (10 * (10 * (n div 1000 mod 10) + n div 100 mod 10) + n div 10 mod 10) + n mod 10 = n"
    using div10_mod10 [of n] by (simp only:)
  moreover have "parse_year (pad4 n @ r) =
     Some (10 * (10 * (10 * (n div 1000 mod 10) + n div 100 mod 10) + n div 10 mod 10) + n mod 10, r)"
    by (simp add: parse_year_def pad4_def digits_val_def del: mult_div_mod_eq)
  ultimately show ?thesis by (simp only:)
qed

lemma skip_Cons [go_simps]: "skip c (c # s) = Some s"
  by (simp add: skip_def)

lemma length_pad_digits [simp]: "length (pad_digits k n) = k"
  by (induction k arbitrary: n) auto

lemma pad_digits_digits: "list_all is_digit (pad_digits k n)"
  by (induction k arbitrary: n) auto

lemma digits_val_pad_digits: "0 \<le> n \<Longrightarrow> n < 10 ^ k \<Longrightarrow> digits_val (pad_digits k n) = n"
proof (induction k arbitrary: n)
  case (Suc k)
  then have "n div 10 < 10 ^ k" by (simp add: div_less_iff_less_mult)
  with Suc show ?case by (simp add: digits_val_append_digit)
qed simp

text \<open>Trailing zeros of a fraction carry no value.\<close>

lemma trim_zeros_snoc:
  "trim_zeros (s @ [c]) = (if c = CHR ''0'' then trim_zeros s else s @ [c])"
  by (simp add: trim_zeros_def)

lemma trim_zeros_val:
  "length s \<le> k \<Longrightarrow> digits_val (trim_zeros s) * 10 ^ (k - length (trim_zeros s)) = digits_val s * 10 ^ (k - length s)"
proof (induction s rule: rev_induct)
  case (snoc c s)
  show ?case
  proof (cases "c = CHR ''0''")
    case True
    have "digit_val (CHR ''0'') = 0" by (simp add: char_defs)
    moreover have "k - length s = Suc (k - Suc (length s))" using snoc.prems by simp
    ultimately show ?thesis
      using snoc True by (simp add: trim_zeros_snoc digits_val_append_digit)
  qed (simp add: trim_zeros_snoc)
qed (simp add: trim_zeros_def)

lemma trim_zeros_prefix: "prefix (trim_zeros s) s"
  unfolding trim_zeros_def by (metis prefix_def rev_append rev_rev_ident takeWhile_dropWhile_id)

lemma trim_zeros_Nil: "trim_zeros s = [] \<Longrightarrow> digits_val s = 0"
proof (induction s rule: rev_induct)
  case (snoc c s)
  then show ?case
    by (auto simp: trim_zeros_snoc digits_val_append_digit char_defs split: if_splits)
qed simp

lemma takeWhile_digits_append:
  assumes "list_all is_digit s" "r = [] \<or> \<not> is_digit (hd r)"
  shows "takeWhile is_digit (s @ r) = s" "dropWhile is_digit (s @ r) = r"
  using assms by (induction s) (auto simp: takeWhile_eq_Nil_iff dropWhile_eq_self_iff)

lemma parse_frac_format [go_simps]:
  assumes ns: "0 \<le> ns" "ns < 1000000000"
    and r: "r \<noteq> []" "\<not> is_digit (hd r)" "hd r \<noteq> CHR ''.''" "hd r \<noteq> CHR '',''"
  shows "parse_frac (format_frac ns @ r) = (ns, r)"
proof (cases "ns = 0")
  case True
  then show ?thesis using r
    by (auto simp: format_frac_def parse_frac_def split: list.splits)
next
  case False
  let ?p = "pad_digits 9 ns" and ?t = "trim_zeros (pad_digits 9 ns)"
  have val: "digits_val ?p = ns" using ns by (simp add: digits_val_pad_digits)
  have t: "list_all is_digit ?t" "length ?t \<le> 9"
    using trim_zeros_prefix [of ?p] pad_digits_digits [of 9 ns] prefix_length_le [OF trim_zeros_prefix [of ?p]]
    by (auto simp: list_all_iff dest: set_mono_prefix)
  have "?t \<noteq> []" using val False trim_zeros_Nil by metis
  then obtain d u where du: "?t = d # u" by (cases ?t) auto
  have tw: "takeWhile is_digit (?t @ r) = ?t" "dropWhile is_digit (?t @ r) = r"
    using t r by (auto intro!: takeWhile_digits_append)
  have "digits_val ?t * 10 ^ (9 - length ?t) = ns"
    using trim_zeros_val [of ?p 9] val by simp
  then have "frac_val (?t @ r) = ns" using t tw by (simp add: frac_val_def Let_def)
  with False t tw du show ?thesis
    by (simp add: format_frac_def parse_frac_def del: takeWhile.simps dropWhile.simps)
qed

lemma parse_zone_signed:
  assumes "0 \<le> h" "h \<le> 24" "0 \<le> m" "m \<le> 60" "sg = CHR ''+'' \<or> sg = CHR ''-''"
  shows "parse_zone (sg # pad2 h @ CHR '':'' # pad2 m) =
    Some (if sg = CHR ''-'' then - ((h * 60 + m) * 60) else (h * 60 + m) * 60, [])"
proof -
  obtain a b c d where p: "pad2 h = [a, b]" "pad2 m = [c, d]" by (simp add: pad2_def)
  have "getnum True [a, b] = Some (h, [])" "getnum True [c, d] = Some (m, [])"
    using assms by (simp_all add: getnum_pad2_end flip: p)
  with assms show ?thesis by (auto simp: parse_zone_def p)
qed

lemma parse_zone_format:
  assumes "off mod 60 = 0" "\<bar>off\<bar> < 90000"
  shows "parse_zone (format_zone off) = Some (off, [])"
proof (cases "off = 0")
  case True
  then show ?thesis by (simp add: format_zone_def parse_zone_def)
next
  case False
  define zh where "zh = \<bar>off\<bar> div 60 div 60"
  define zm where "zm = \<bar>off\<bar> div 60 mod 60"
  define sg where "sg = (if off < 0 then CHR ''-'' else CHR ''+'')"
  have fmt: "format_zone off = sg # pad2 zh @ CHR '':'' # pad2 zm"
    using False by (simp add: format_zone_def Let_def zh_def zm_def sg_def)
  have "60 dvd \<bar>off\<bar>" using assms(1) by (simp add: mod_eq_0_iff_dvd)
  then have v: "(zh * 60 + zm) * 60 = \<bar>off\<bar>" unfolding zh_def zm_def by simp
  have b: "0 \<le> zh" "zh \<le> 24" "0 \<le> zm" "zm \<le> 60"
    using assms(2) unfolding zh_def zm_def by simp_all
  have "parse_zone (format_zone off) =
      Some (if sg = CHR ''-'' then - ((zh * 60 + zm) * 60) else (zh * 60 + zm) * 60, [])"
    unfolding fmt by (rule parse_zone_signed [OF b]) (simp add: sg_def)
  then show ?thesis unfolding v by (simp add: sg_def)
qed

lemma parse_civil_format:
  assumes "0 \<le> y" "y \<le> 9999" "valid_date y mo d" "0 \<le> h" "h \<le> 23" "0 \<le> mi" "mi \<le> 59"
    and "0 \<le> sec" "sec \<le> 59" "0 \<le> ns" "ns < 1000000000"
    and "r \<noteq> []" "\<not> is_digit (hd r)" "hd r \<noteq> CHR ''.''" "hd r \<noteq> CHR '',''"
  shows "parse_civil (pad4 y @ ''-'' @ pad2 mo @ ''-'' @ pad2 d @ ''T'' @ pad2 h @ '':'' @ pad2 mi @ '':'' @
      pad2 sec @ format_frac ns @ r) = Some (days_from_civil y mo d, h * 3600 + mi * 60 + sec, ns, r)"
proof -
  have "1 \<le> mo" "mo \<le> 12" "0 \<le> d" "d < 100"
    using assms(3) days_in_bounds [of y mo] by (auto simp: valid_date_def)
  with assms show ?thesis by (simp add: parse_civil_def go_simps guard_range_def)
qed

lemma format_zone_head:
  "format_zone off \<noteq> []" "\<not> is_digit (hd (format_zone off))"
  "hd (format_zone off) \<noteq> CHR ''.''" "hd (format_zone off) \<noteq> CHR '',''"
  by (auto simp: format_zone_def Let_def char_defs)

text \<open>
  The times whose printed form has a four-digit year and an offset the reader accepts. An
  offset of 25 hours, which \<^verbatim>\<open>+24:60\<close> denotes, is read but not printed readably.
\<close>

definition printable :: "gotime \<Rightarrow> bool" where
  "printable t \<longleftrightarrow>
     0 \<le> t_nsec t \<and> t_nsec t < 1000000000 \<and> t_off t mod 60 = 0 \<and> \<bar>t_off t\<bar> < 90000 \<and>
     (\<exists>y m d sod. 0 \<le> y \<and> y \<le> 9999 \<and> valid_date y m d \<and> 0 \<le> sod \<and> sod < 86400 \<and>
        t_unix t + t_off t = days_from_civil y m d * 86400 + sod)"

lemma day_split:
  assumes "0 \<le> sod" "sod < 86400"
  shows "(n * 86400 + sod) div 86400 = n" "(n * 86400 + sod) mod 86400 = (sod::int)"
  using assms by (simp_all add: int_div_pos_eq int_mod_pos_eq)

lemma sod_split: "sod div 3600 * 3600 + sod mod 3600 div 60 * 60 + sod mod 60 = (sod::int)"
proof -
  have "sod mod 60 = sod mod 3600 mod 60" by (simp add: mod_mod_cancel)
  then show ?thesis
    using div_mult_mod_eq [of "sod mod 3600" 60] div_mult_mod_eq [of sod 3600] by linarith
qed

theorem parse_format_rfc3339:
  assumes "printable t"
  shows "parse_rfc3339 (format_rfc3339 t) = Some t"
proof -
  from assms obtain y m d sod where y: "0 \<le> y" "y \<le> 9999" and date: "valid_date y m d"
    and sod: "0 \<le> sod" "sod < 86400"
    and wall: "t_unix t + t_off t = days_from_civil y m d * 86400 + sod"
    and ns: "0 \<le> t_nsec t" "t_nsec t < 1000000000"
    and off: "t_off t mod 60 = 0" "\<bar>t_off t\<bar> < 90000"
    by (auto simp: printable_def)
  have hms: "0 \<le> sod div 3600" "sod div 3600 \<le> 23" "0 \<le> sod mod 3600 div 60" "sod mod 3600 div 60 \<le> 59"
    "0 \<le> sod mod 60" "sod mod 60 \<le> 59"
    using sod by auto
  have unix: "days_from_civil y m d * 86400 + (sod div 3600 * 3600 + sod mod 3600 div 60 * 60 + sod mod 60) -
      t_off t = t_unix t"
    using wall sod_split [of sod] by linarith
  have fmt: "format_rfc3339 t = pad4 y @ ''-'' @ pad2 m @ ''-'' @ pad2 d @ ''T'' @ pad2 (sod div 3600) @ '':'' @
      pad2 (sod mod 3600 div 60) @ '':'' @ pad2 (sod mod 60) @ format_frac (t_nsec t) @ format_zone (t_off t)"
    using sod by (simp add: format_rfc3339_def Let_def wall day_split civil_from_days_from_civil [OF date])
  have "parse_civil (format_rfc3339 t) = Some (days_from_civil y m d,
      sod div 3600 * 3600 + sod mod 3600 div 60 * 60 + sod mod 60, t_nsec t, format_zone (t_off t))"
    unfolding fmt by (rule parse_civil_format [OF y date hms ns format_zone_head])
  with off unix show ?thesis
    by (simp add: parse_rfc3339_def parse_zone_format)
qed

subsection \<open>What the reader accepts\<close>

lemma getnum_bounds:
  assumes "getnum fixed s = Some (n, r)"
  shows "0 \<le> n" "n < 100"
proof -
  have "is_digit c \<Longrightarrow> is_digit d \<Longrightarrow> 10 * int (digit_val c) + int (digit_val d) < 100" for c d
    using digit_val_less [of c] digit_val_less [of d] by linarith
  moreover have "is_digit c \<Longrightarrow> int (digit_val c) < 100" for c
    using digit_val_less [of c] by linarith
  ultimately show "0 \<le> n" "n < 100"
    using assms by (auto simp: getnum_def split: list.splits if_splits)
qed

lemma parse_year_bounds:
  assumes "parse_year s = Some (y, r)" shows "0 \<le> y" "y \<le> 9999"
  using assms digits_val_bound [of "take 4 s"] digits_val_nonneg [of "take 4 s"]
  by (auto simp: parse_year_def min_def split: if_splits)

lemma frac_val_bounds: "0 \<le> frac_val s" "frac_val s < 1000000000"
proof -
  define ds where "ds = take 9 (takeWhile is_digit s)"
  have ds: "list_all is_digit ds" "length ds \<le> 9"
    by (auto simp: ds_def list_all_iff dest!: in_set_takeD set_takeWhileD)
  have "digits_val ds * 10 ^ (9 - length ds) < 10 ^ length ds * 10 ^ (9 - length ds)"
    using digits_val_bound [OF ds(1)] by simp
  also have "\<dots> = (1000000000::int)" using ds(2) by (simp flip: power_add)
  finally show "frac_val s < 1000000000" by (simp add: frac_val_def Let_def ds_def)
  show "0 \<le> frac_val s" using digits_val_nonneg by (simp add: frac_val_def Let_def)
qed

lemma parse_frac_bounds: "parse_frac s = (ns, r) \<Longrightarrow> 0 \<le> ns \<and> ns < 1000000000"
  using frac_val_bounds by (auto simp: parse_frac_def split: list.splits if_splits)

lemma parse_civil_Some:
  assumes "parse_civil s = Some (days, sod, ns, r)"
  shows "\<exists>y m d. 0 \<le> y \<and> y \<le> 9999 \<and> valid_date y m d \<and> days = days_from_civil y m d"
    "0 \<le> sod" "sod < 86400" "0 \<le> ns" "ns < 1000000000"
proof -
  from assms obtain y s1 mo d h mi sec s2 where
    y: "parse_year s = Some (y, s1)" and date: "valid_date y mo d" and days: "days = days_from_civil y mo d"
    and sod: "sod = h * 3600 + mi * 60 + sec"
    and b: "0 \<le> h" "h \<le> 23" "0 \<le> mi" "mi \<le> 59" "0 \<le> sec" "sec \<le> 59"
    and ns: "parse_frac s2 = (ns, r)"
    by (auto simp: parse_civil_def guard_range_def bind_eq_Some_conv Let_def split: if_splits prod.splits)
  from y date days show "\<exists>y m d. 0 \<le> y \<and> y \<le> 9999 \<and> valid_date y m d \<and> days = days_from_civil y m d"
    using parse_year_bounds [OF y] by blast
  from sod b show "0 \<le> sod" "sod < 86400" by auto
  from ns show "0 \<le> ns" "ns < 1000000000" using parse_frac_bounds by auto
qed

lemma parse_zone_Some: "parse_zone s = Some (off, r) \<Longrightarrow> off mod 60 = 0"
  by (auto simp: parse_zone_def bind_eq_Some_conv split: if_splits)

lemma parse_rfc3339_printable:
  assumes "parse_rfc3339 s = Some t" "\<bar>t_off t\<bar> < 90000"
  shows "printable t"
proof -
  from assms(1) obtain days sod ns r off where
    c: "parse_civil s = Some (days, sod, ns, r)" and z: "parse_zone r = Some (off, [])"
    and t: "t = \<lparr>t_unix = days * 86400 + sod - off, t_nsec = ns, t_off = off\<rparr>"
    by (auto simp: parse_rfc3339_def bind_eq_Some_conv split: if_splits)
  show ?thesis
    using parse_civil_Some [OF c] parse_zone_Some [OF z] assms(2) by (auto simp: printable_def t)
qed

corollary parse_format_parse_rfc3339:
  "parse_rfc3339 s = Some t \<Longrightarrow> \<bar>t_off t\<bar> < 90000 \<Longrightarrow> parse_rfc3339 (format_rfc3339 t) = Some t"
  by (blast intro: parse_format_rfc3339 parse_rfc3339_printable)

lemma format_rfc3339_not_Nil [simp]: "format_rfc3339 t \<noteq> []"
  by (auto simp: format_rfc3339_def Let_def pad4_def split: prod.splits)

end
