(* ===== verification/Semconv.thy ===== *)
theory Semconv
  imports Main
begin

text \<open>
  The attribute keys, metric names and event names of \<^verbatim>\<open>internal/semconv/semconv.go\<close>, one
  abbreviation per constant.
\<close>

abbreviation AttrDeviceID :: string where "AttrDeviceID \<equiv> ''device.id''"
abbreviation AttrDeviceName :: string where "AttrDeviceName \<equiv> ''device.name''"
abbreviation AttrDeviceMAC :: string where "AttrDeviceMAC \<equiv> ''device.mac''"
abbreviation AttrDeviceModel :: string where "AttrDeviceModel \<equiv> ''device.model''"
abbreviation AttrSiteName :: string where "AttrSiteName \<equiv> ''site.name''"
abbreviation AttrTenantID :: string where "AttrTenantID \<equiv> ''tenant.id''"
abbreviation AttrNetHostIP :: string where "AttrNetHostIP \<equiv> ''net.host.ip''"
abbreviation AttrVersion :: string where "AttrVersion \<equiv> ''version''"
abbreviation AttrCommit :: string where "AttrCommit \<equiv> ''commit''"
abbreviation AttrDate :: string where "AttrDate \<equiv> ''date''"
abbreviation AttrBuild :: string where "AttrBuild \<equiv> ''build''"
abbreviation AttrBuildDate :: string where "AttrBuildDate \<equiv> ''build.date''"
abbreviation AttrState :: string where "AttrState \<equiv> ''state''"
abbreviation AttrLine :: string where "AttrLine \<equiv> ''line''"
abbreviation AttrLabel :: string where "AttrLabel \<equiv> ''label''"
abbreviation AttrSIPAddress :: string where "AttrSIPAddress \<equiv> ''sip_address''"
abbreviation AttrDirection :: string where "AttrDirection \<equiv> ''direction''"
abbreviation AttrDHCPEnabled :: string where "AttrDHCPEnabled \<equiv> ''dhcp_enabled''"
abbreviation AttrDHCPServer :: string where "AttrDHCPServer \<equiv> ''dhcp_server''"
abbreviation AttrDefaultGateway :: string where "AttrDefaultGateway \<equiv> ''default_gateway''"
abbreviation AttrSubnetMask :: string where "AttrSubnetMask \<equiv> ''subnet_mask''"
abbreviation AttrBootServerOption :: string where "AttrBootServerOption \<equiv> ''boot_server_option''"
abbreviation AttrRemoteParty :: string where "AttrRemoteParty \<equiv> ''remote_party''"
abbreviation AttrDisposition :: string where "AttrDisposition \<equiv> ''disposition''"
abbreviation AttrStartedAt :: string where "AttrStartedAt \<equiv> ''started_at''"
abbreviation AttrParam :: string where "AttrParam \<equiv> ''param''"
abbreviation AttrSource :: string where "AttrSource \<equiv> ''source''"
abbreviation AttrCollectorID :: string where "AttrCollectorID \<equiv> ''collector.id''"
abbreviation AttrEventName :: string where "AttrEventName \<equiv> ''event.name''"
abbreviation AttrServiceName :: string where "AttrServiceName \<equiv> ''service.name''"
abbreviation AttrDurationSeconds :: string where "AttrDurationSeconds \<equiv> ''duration_seconds''"
abbreviation MetricLensDeviceConnected :: string where "MetricLensDeviceConnected \<equiv> ''polylens.device.connected''"
abbreviation MetricLensDeviceLastDetectedSeconds :: string where "MetricLensDeviceLastDetectedSeconds \<equiv> ''polylens.device.last_detected_seconds''"
abbreviation MetricLensDeviceLastConfigRequestSeconds :: string where "MetricLensDeviceLastConfigRequestSeconds \<equiv> ''polylens.device.last_config_request_seconds''"
abbreviation MetricLensDeviceFirmwareInfo :: string where "MetricLensDeviceFirmwareInfo \<equiv> ''polylens.device.firmware_info''"
abbreviation MetricLensDeviceFirmwareCurrent :: string where "MetricLensDeviceFirmwareCurrent \<equiv> ''polylens.device.firmware_current''"
abbreviation MetricLensDeviceActiveCalls :: string where "MetricLensDeviceActiveCalls \<equiv> ''polylens.device.active_calls''"
abbreviation MetricLensStreamConnected :: string where "MetricLensStreamConnected \<equiv> ''polylens.stream.connected''"
abbreviation MetricPhoneUptimeSeconds :: string where "MetricPhoneUptimeSeconds \<equiv> ''polyphone.uptime_seconds''"
abbreviation MetricPhoneNetworkPackets :: string where "MetricPhoneNetworkPackets \<equiv> ''polyphone.network.packets''"
abbreviation MetricPhoneLineRegistered :: string where "MetricPhoneLineRegistered \<equiv> ''polyphone.line.registered''"
abbreviation MetricPhoneLinesTotal :: string where "MetricPhoneLinesTotal \<equiv> ''polyphone.lines_total''"
abbreviation MetricPhoneConfigParamSource :: string where "MetricPhoneConfigParamSource \<equiv> ''polyphone.config_param_source''"
abbreviation MetricPhoneAPIState :: string where "MetricPhoneAPIState \<equiv> ''polyphone.api_state''"
abbreviation MetricPhoneNetworkInfo :: string where "MetricPhoneNetworkInfo \<equiv> ''polyphone.network.info''"
abbreviation MetricPhoneCallsTotal :: string where "MetricPhoneCallsTotal \<equiv> ''polyphone.calls''"
abbreviation MetricBuildInfo :: string where "MetricBuildInfo \<equiv> ''polylens2otel.build_info''"
abbreviation MetricCollectorDuration :: string where "MetricCollectorDuration \<equiv> ''polylens2otel.collector.duration''"
abbreviation MetricCollectorAvailability :: string where "MetricCollectorAvailability \<equiv> ''polylens2otel.collector.availability''"
abbreviation MetricCollectorExpectedInterval :: string where "MetricCollectorExpectedInterval \<equiv> ''polylens2otel.collector.expected_interval''"
abbreviation MetricHTTPClientRequestDuration :: string where "MetricHTTPClientRequestDuration \<equiv> ''polylens2otel.http.client.request.duration''"
abbreviation MetricHTTP4xx :: string where "MetricHTTP4xx \<equiv> ''polylens2otel.http_4xx''"
abbreviation MetricHTTP5xx :: string where "MetricHTTP5xx \<equiv> ''polylens2otel.http_5xx''"
abbreviation MetricAPIUnexpected :: string where "MetricAPIUnexpected \<equiv> ''polylens2otel.api.unexpected''"
abbreviation MetricAuthTokenRefresh :: string where "MetricAuthTokenRefresh \<equiv> ''polylens2otel.auth.token.refresh''"
abbreviation MetricAuthTokenExpiresSeconds :: string where "MetricAuthTokenExpiresSeconds \<equiv> ''polylens2otel.auth.token.expires_seconds''"
abbreviation MetricStreamReconnects :: string where "MetricStreamReconnects \<equiv> ''polylens2otel.stream.reconnects''"
abbreviation MetricStreamMessages :: string where "MetricStreamMessages \<equiv> ''polylens2otel.stream.messages''"
abbreviation MetricStreamLastMessageSeconds :: string where "MetricStreamLastMessageSeconds \<equiv> ''polylens2otel.stream.last_message_seconds''"
abbreviation MetricIngestEmittedPoints :: string where "MetricIngestEmittedPoints \<equiv> ''polylens2otel.ingest.emitted_points''"
abbreviation MetricIngestSourceRecords :: string where "MetricIngestSourceRecords \<equiv> ''polylens2otel.ingest.source_records''"
abbreviation MetricCheckpointPersistErrors :: string where "MetricCheckpointPersistErrors \<equiv> ''polylens2otel.checkpoint.persist.errors''"
abbreviation EventLensCDR :: string where "EventLensCDR \<equiv> ''polylens.cdr''"
abbreviation LogPhoneCallRecord :: string where "LogPhoneCallRecord \<equiv> ''polyphone.call_record''"
abbreviation EventExporterStartup :: string where "EventExporterStartup \<equiv> ''polylens2otel.startup''"

end
