(* ===== verification/Telemetry.thy ===== *)
theory Telemetry
  imports GoTime Semconv
begin

text \<open>
  \<^verbatim>\<open>internal/telemetry\<close>: attributes, device descriptions, the emitter over the OpenTelemetry
  SDK with its shared instrument cache, and the instrumented HTTP transport; and
  \<^verbatim>\<open>cmd/polylens2otel/tenant_emitter.go\<close>: the emitter that fans an event out over tenants.

  The SDK is not part of the repository. What it is given is the list \<open>out\<close> of signals in
  the state below; whether it can make an instrument is the parameter \<open>meter\<close>. Metric
  values are \<^verbatim>\<open>float64\<close>: \<open>FNum n\<close> is the conversion of the integer \<open>n\<close>, \<open>FSeconds d\<close> is
  \<^verbatim>\<open>time.Duration(d).Seconds()\<close>; the binary rounding of both is left symbolic.
\<close>

section \<open>Attributes, devices and signals\<close>

datatype attr = Attr (attr_key: string) (attr_value: string)

record device =
  dev_ID :: string
  dev_Name :: string
  dev_MAC :: string
  dev_Model :: string
  dev_Site :: string
  dev_IP :: string

datatype metric_value = FNum int | FSeconds int

datatype signal =
    GaugeRecord string metric_value "attr list"
  | CounterAdd string metric_value "attr list"
  | LogRecord string gotime "attr list"
  | SpanStart string "attr list"
  | SpanEnd string "attr list" "goerr option"

fun signal_attrs :: "signal \<Rightarrow> attr list" where
  "signal_attrs (GaugeRecord n v as) = as"
| "signal_attrs (CounterAdd n v as) = as"
| "signal_attrs (LogRecord b t as) = as"
| "signal_attrs (SpanStart n as) = as"
| "signal_attrs (SpanEnd n as e) = as"

definition is_log :: "signal \<Rightarrow> bool" where
  "is_log s = (case s of LogRecord _ _ _ \<Rightarrow> True | _ \<Rightarrow> False)"

section \<open>The OpenTelemetry emitter\<close>

text \<open>\<open>gauges\<close> and \<open>counters\<close> are the keys of the caches of \<^verbatim>\<open>instruments\<close>.\<close>

record instruments =
  gauges :: "string list"
  counters :: "string list"
  out :: "signal list"

definition new_instruments :: instruments where
  "new_instruments = \<lparr>gauges = [], counters = [], out = []\<rparr>"

record meter =
  Float64Gauge :: "instruments \<Rightarrow> string \<Rightarrow> goerr option"
  Float64Counter :: "instruments \<Rightarrow> string \<Rightarrow> goerr option"

definition otel_attrs :: "attr list \<Rightarrow> attr list \<Rightarrow> attr list" where
  "otel_attrs base extra = filter (\<lambda>a. attr_key a \<noteq> []) (base @ extra)"

definition send :: "signal \<Rightarrow> instruments \<Rightarrow> instruments" where
  "send s st = st\<lparr>out := out st @ [s]\<rparr>"

definition otel_gauge ::
    "meter \<Rightarrow> attr list \<Rightarrow> string \<Rightarrow> metric_value \<Rightarrow> attr list \<Rightarrow> instruments \<Rightarrow> goerr option \<times> instruments" where
  "otel_gauge m base name value attrs st =
     (if name \<in> set (gauges st) then (None, send (GaugeRecord name value (otel_attrs base attrs)) st)
      else (case Float64Gauge m st name of
          Some e \<Rightarrow> (Some e, st)
        | None \<Rightarrow> (None, send (GaugeRecord name value (otel_attrs base attrs)) (st\<lparr>gauges := name # gauges st\<rparr>))))"

definition otel_counter ::
    "meter \<Rightarrow> attr list \<Rightarrow> string \<Rightarrow> metric_value \<Rightarrow> attr list \<Rightarrow> instruments \<Rightarrow> goerr option \<times> instruments" where
  "otel_counter m base name value attrs st =
     (if name \<in> set (counters st) then (None, send (CounterAdd name value (otel_attrs base attrs)) st)
      else (case Float64Counter m st name of
          Some e \<Rightarrow> (Some e, st)
        | None \<Rightarrow> (None, send (CounterAdd name value (otel_attrs base attrs)) (st\<lparr>counters := name # counters st\<rparr>))))"

definition otel_log_event ::
    "attr list \<Rightarrow> string \<Rightarrow> string \<Rightarrow> gotime \<Rightarrow> attr list \<Rightarrow> instruments \<Rightarrow> goerr option \<times> instruments" where
  "otel_log_event base event body ts attrs st =
     (if is_zero ts then (Some MissingTimestamp, st)
      else (None, send (LogRecord body ts (Attr AttrEventName event # base @ attrs)) st))"

definition otel_with_tenant :: "string \<Rightarrow> attr list \<Rightarrow> attr list" where
  "otel_with_tenant tid base = base @ [Attr AttrTenantID tid]"

definition otel_with_device :: "device \<Rightarrow> attr list \<Rightarrow> attr list" where
  "otel_with_device d base =
     base @ filter (\<lambda>a. attr_value a \<noteq> [])
       [Attr AttrDeviceID (dev_ID d), Attr AttrDeviceName (dev_Name d), Attr AttrDeviceMAC (dev_MAC d),
        Attr AttrDeviceModel (dev_Model d), Attr AttrSiteName (dev_Site d)]"

section \<open>The tenant emitter\<close>

text \<open>
  An emitter is the SDK emitter with its base attributes, or the tenant emitter over it with
  the tenants of its scope. The scope of a tenant emitter is shared and set by
  \<^verbatim>\<open>SetTenants\<close>; the value here is its content when the emitter is used.
\<close>

datatype emitter = Otel "attr list" | TenantEmitter "attr list" "string list"

definition discoveryTenantID :: string where
  "discoveryTenantID = ''_discovery''"

fun clean_tenants :: "string set \<Rightarrow> string list \<Rightarrow> string list" where
  "clean_tenants seen [] = []"
| "clean_tenants seen (t # ts) =
     (let t' = trim_space t in
      if t' = [] then clean_tenants seen ts
      else if t' \<in> seen then clean_tenants seen ts
      else t' # clean_tenants (insert t' seen) ts)"

definition set_tenants :: "string list \<Rightarrow> emitter \<Rightarrow> emitter" where
  "set_tenants ts e = (case e of TenantEmitter base _ \<Rightarrow> TenantEmitter base (clean_tenants {} ts) | Otel b \<Rightarrow> Otel b)"

definition new_tenant_emitter :: "attr list \<Rightarrow> string list \<Rightarrow> emitter" where
  "new_tenant_emitter base ts = set_tenants ts (TenantEmitter base [])"

text \<open>The base attributes of the emitters an event goes to.\<close>

fun scoped :: "emitter \<Rightarrow> attr list list" where
  "scoped (Otel base) = [base]"
| "scoped (TenantEmitter base ts) =
     map (\<lambda>t. otel_with_tenant t base) (if ts = [] then [discoveryTenantID] else ts)"

fun with_tenant :: "string \<Rightarrow> emitter \<Rightarrow> emitter" where
  "with_tenant tid (Otel base) = Otel (otel_with_tenant tid base)"
| "with_tenant tid (TenantEmitter base ts) =
     (if trim_space tid = [] then TenantEmitter base ts else Otel (otel_with_tenant tid base))"

fun with_device :: "device \<Rightarrow> emitter \<Rightarrow> emitter" where
  "with_device d (Otel base) = Otel (otel_with_device d base)"
| "with_device d (TenantEmitter base ts) = TenantEmitter (otel_with_device d base) ts"

text \<open>Every scoped emitter is called, and the errors are joined.\<close>

fun fan_out :: "(attr list \<Rightarrow> instruments \<Rightarrow> goerr option \<times> instruments) \<Rightarrow> attr list list \<Rightarrow>
    instruments \<Rightarrow> goerr option list \<times> instruments" where
  "fan_out f [] st = ([], st)"
| "fan_out f (b # bs) st =
     (let (e, st1) = f b st; (es, st2) = fan_out f bs st1 in (e # es, st2))"

definition emit_via :: "(attr list \<Rightarrow> instruments \<Rightarrow> goerr option \<times> instruments) \<Rightarrow> emitter \<Rightarrow>
    instruments \<Rightarrow> goerr option \<times> instruments" where
  "emit_via f e st =
     (case e of
        Otel base \<Rightarrow> f base st
      | TenantEmitter _ _ \<Rightarrow> (let (es, st') = fan_out f (scoped e) st in (join_errors es, st')))"

definition gauge :: "meter \<Rightarrow> emitter \<Rightarrow> string \<Rightarrow> metric_value \<Rightarrow> attr list \<Rightarrow> instruments \<Rightarrow> goerr option \<times> instruments" where
  "gauge m e name value attrs = emit_via (\<lambda>base. otel_gauge m base name value attrs) e"

definition counter :: "meter \<Rightarrow> emitter \<Rightarrow> string \<Rightarrow> metric_value \<Rightarrow> attr list \<Rightarrow> instruments \<Rightarrow> goerr option \<times> instruments" where
  "counter m e name value attrs = emit_via (\<lambda>base. otel_counter m base name value attrs) e"

definition log_event :: "emitter \<Rightarrow> string \<Rightarrow> string \<Rightarrow> gotime \<Rightarrow> attr list \<Rightarrow> instruments \<Rightarrow> goerr option \<times> instruments" where
  "log_event e event body ts attrs = emit_via (\<lambda>base. otel_log_event base event body ts attrs) e"

text \<open>\<^verbatim>\<open>StartSpan\<close> opens a span per scoped emitter; the function it returns ends them all.\<close>

abbreviation otel_start_span :: "attr list \<Rightarrow> string \<Rightarrow> attr list \<Rightarrow> instruments \<Rightarrow> instruments" where
  "otel_start_span base name attrs \<equiv> send (SpanStart name (otel_attrs base attrs))"

abbreviation otel_end_span :: "attr list \<Rightarrow> string \<Rightarrow> attr list \<Rightarrow> goerr option \<Rightarrow> instruments \<Rightarrow> instruments" where
  "otel_end_span base name attrs err \<equiv> send (SpanEnd name (otel_attrs base attrs) err)"

definition start_span :: "emitter \<Rightarrow> string \<Rightarrow> attr list \<Rightarrow> instruments \<Rightarrow> instruments" where
  "start_span e name attrs st = fold (\<lambda>b. otel_start_span b name attrs) (scoped e) st"

definition end_span :: "emitter \<Rightarrow> string \<Rightarrow> attr list \<Rightarrow> goerr option \<Rightarrow> instruments \<Rightarrow> instruments" where
  "end_span e name attrs err st = fold (\<lambda>b. otel_end_span b name attrs err) (scoped e) st"

section \<open>The emitter contract\<close>

text \<open>
  What every emission promises its callers: a call that returns no error has handed exactly
  one signal to the SDK for each scoped emitter, in order; a failing call has handed over some
  of them; nothing already handed over changes. The laws are stated for the SDK
  emitter's operation and lifted to both emitters once.
\<close>

locale emitter_op =
  fixes op :: "attr list \<Rightarrow> instruments \<Rightarrow> goerr option \<times> instruments"
    and sig :: "attr list \<Rightarrow> signal"
  assumes op_ok: "op b st = (None, st') \<Longrightarrow> out st' = out st @ [sig b]"
    and op_err: "op b st = (Some e, st') \<Longrightarrow> out st' = out st"
begin

lemma fan_out_sub: "fan_out op bs st = (es, st') \<Longrightarrow> \<exists>cs. subseq cs bs \<and> out st' = out st @ map sig cs"
proof (induction bs arbitrary: st es)
  case (Cons b bs)
  obtain e st1 where e: "op b st = (e, st1)" by fastforce
  obtain es' where r: "fan_out op bs st1 = (es', st')" using Cons.prems e by (auto split: prod.splits)
  from Cons.IH [OF r] obtain cs where cs: "subseq cs bs" "out st' = out st1 @ map sig cs" by blast
  show ?case
  proof (cases e)
    case None
    with e have "out st1 = out st @ [sig b]" by (auto dest: op_ok)
    with cs have "subseq (b # cs) (b # bs)" "out st' = out st @ map sig (b # cs)" by auto
    then show ?thesis by blast
  next
    case (Some x)
    with e have "out st1 = out st" by (auto dest: op_err)
    with cs show ?thesis by auto
  qed
qed simp

lemma fan_out_ok:
  "fan_out op bs st = (es, st') \<Longrightarrow> \<forall>e \<in> set es. e = None \<Longrightarrow> out st' = out st @ map sig bs"
proof (induction bs arbitrary: st es)
  case (Cons b bs)
  obtain e st1 where e: "op b st = (e, st1)" by fastforce
  obtain es' where r: "fan_out op bs st1 = (es', st')" and es: "es = e # es'"
    using Cons.prems(1) e by (auto split: prod.splits)
  with Cons.prems(2) have "e = None" "\<forall>x \<in> set es'. x = None" by auto
  with Cons.IH [OF r] e show ?case by (auto dest: op_ok)
qed simp

lemma emit_ok: "emit_via op e st = (None, st') \<Longrightarrow> out st' = out st @ map sig (scoped e)"
  by (cases e)
    (auto simp: emit_via_def join_errors_None_iff dest!: op_ok fan_out_ok split: prod.splits)

lemma emit_sub: "emit_via op e st = (r, st') \<Longrightarrow> \<exists>cs. subseq cs (scoped e) \<and> out st' = out st @ map sig cs"
proof (cases e)
  case (Otel base)
  assume "emit_via op e st = (r, st')"
  then have o: "op base st = (r, st')" by (simp add: emit_via_def Otel)
  show ?thesis
  proof (cases r)
    case None
    with o op_ok have "out st' = out st @ map sig [base]" by simp
    then show ?thesis unfolding Otel scoped.simps by (metis subseq_order.order_refl)
  next
    case (Some x)
    with o op_err have "out st' = out st @ map sig []" by simp
    then show ?thesis by (metis list_emb_Nil)
  qed
next
  case (TenantEmitter base ts)
  assume "emit_via op e st = (r, st')"
  then obtain es where "fan_out op (scoped e) st = (es, st')"
    by (auto simp: emit_via_def TenantEmitter split: prod.splits)
  then show ?thesis by (rule fan_out_sub)
qed

lemma emit_prefix: "prefix (out st) (out (snd (emit_via op e st)))"
  using emit_sub [of e st] by (metis prefixI prod.collapse)

end

lemma send_out [simp, trace_simps]: "out (send s st) = out st @ [s]"
  by (simp add: send_def)

interpretation gauge_op: emitter_op
    "\<lambda>base. otel_gauge m base name v attrs" "\<lambda>base. GaugeRecord name v (otel_attrs base attrs)"
  for m name v attrs
  by unfold_locales (auto simp: otel_gauge_def split: if_splits option.splits)

interpretation counter_op: emitter_op
    "\<lambda>base. otel_counter m base name v attrs" "\<lambda>base. CounterAdd name v (otel_attrs base attrs)"
  for m name v attrs
  by unfold_locales (auto simp: otel_counter_def split: if_splits option.splits)

interpretation log_op: emitter_op
    "\<lambda>base. otel_log_event base event body ts attrs"
    "\<lambda>base. LogRecord body ts (Attr AttrEventName event # base @ attrs)"
  for event body ts attrs
  by unfold_locales (auto simp: otel_log_event_def split: if_splits)

lemmas gauge_out = gauge_op.emit_ok [folded gauge_def]
lemmas gauge_sub = gauge_op.emit_sub [folded gauge_def]
lemmas counter_out = counter_op.emit_ok [folded counter_def]
lemmas counter_sub = counter_op.emit_sub [folded counter_def]
lemmas log_event_out = log_op.emit_ok [folded log_event_def]
lemmas log_event_sub = log_op.emit_sub [folded log_event_def]

text \<open>A log event fails only for a zero timestamp.\<close>

lemma fan_out_log_None:
  "\<not> is_zero ts \<Longrightarrow> fst (fan_out (\<lambda>base. otel_log_event base event body ts attrs) bs st) = map (\<lambda>_. None) bs"
proof (induction bs arbitrary: st)
  case (Cons b bs)
  then show ?case
    by (simp add: otel_log_event_def case_prod_unfold Let_def)
qed simp

lemma log_event_succeeds: "\<not> is_zero ts \<Longrightarrow> fst (log_event e event body ts attrs st) = None"
  using fan_out_log_None [of ts event body attrs "scoped e" st]
  by (cases e) (auto simp: log_event_def emit_via_def otel_log_event_def join_errors_None_iff split: prod.splits)

lemma log_event_zero:
  "is_zero ts \<Longrightarrow> \<exists>x. fst (log_event (Otel b) event body ts attrs st) = Some x"
  by (simp add: log_event_def emit_via_def otel_log_event_def)

section \<open>Tenant scoping\<close>

lemma clean_tenants_eq:
  "clean_tenants seen ts = distinct_by id seen (filter (\<lambda>t. t \<noteq> []) (map trim_space ts))"
  by (induction ts arbitrary: seen) (auto simp: Let_def)

lemma clean_tenants_distinct: "distinct (clean_tenants seen ts)"
  using distinct_distinct_by [of id] by (simp add: clean_tenants_eq)

lemma clean_tenants_set: "set (clean_tenants {} ts) = trim_space ` set ts - {[]}"
  using distinct_by_keys [of id "{}" "filter (\<lambda>t. t \<noteq> []) (map trim_space ts)"]
  by (auto simp: clean_tenants_eq)

definition tenant_attr :: "attr \<Rightarrow> bool" where
  "tenant_attr a \<longleftrightarrow> attr_key a = AttrTenantID \<and> attr_value a \<noteq> []"

definition tenant_tagged :: "signal \<Rightarrow> bool" where
  "tenant_tagged s \<longleftrightarrow> list_ex tenant_attr (signal_attrs s)"

definition tenant_bound :: "emitter \<Rightarrow> bool" where
  "tenant_bound e \<longleftrightarrow> list_all (list_ex tenant_attr) (scoped e)"

text \<open>The emitters the program derives from the one made at start-up.\<close>

inductive derived :: "emitter \<Rightarrow> bool" where
  derived_new: "derived (new_tenant_emitter base ts)"
| derived_set: "derived e \<Longrightarrow> derived (set_tenants ts e)"
| derived_tenant: "derived e \<Longrightarrow> derived (with_tenant tid e)"
| derived_device: "derived e \<Longrightarrow> derived (with_device d e)"

lemma clean_tenants_not_Nil: "t \<in> set (clean_tenants seen ts) \<Longrightarrow> t \<noteq> []"
  using distinct_by_set_subset [of id seen "filter (\<lambda>t. t \<noteq> []) (map trim_space ts)"]
  by (auto simp: clean_tenants_eq)

definition scope_ok :: "emitter \<Rightarrow> bool" where
  "scope_ok e = (case e of Otel b \<Rightarrow> list_ex tenant_attr b | TenantEmitter _ ts \<Rightarrow> list_all (\<lambda>t. t \<noteq> []) ts)"

lemma derived_scope_ok: "derived e \<Longrightarrow> scope_ok e"
proof (induction rule: derived.induct)
  case (derived_new base ts)
  then show ?case
    by (auto simp: new_tenant_emitter_def set_tenants_def scope_ok_def list_all_iff clean_tenants_not_Nil)
next
  case (derived_set e ts)
  then show ?case
    by (cases e rule: emitter.exhaust) (auto simp: set_tenants_def scope_ok_def list_all_iff clean_tenants_not_Nil)
next
  case (derived_tenant e tid)
  then show ?case
    by (cases e rule: emitter.exhaust) (auto simp: scope_ok_def otel_with_tenant_def tenant_attr_def)
next
  case (derived_device e d)
  then show ?case
    by (cases e rule: emitter.exhaust) (auto simp: scope_ok_def otel_with_device_def)
qed

lemma derived_tenant_bound: "derived e \<Longrightarrow> tenant_bound e"
  using derived_scope_ok [of e]
  by (cases e)
    (auto simp: tenant_bound_def scope_ok_def otel_with_tenant_def tenant_attr_def discoveryTenantID_def list_all_iff)

lemma tenant_attr_otel_attrs: "list_ex tenant_attr base \<Longrightarrow> list_ex tenant_attr (otel_attrs base extra)"
  by (auto simp: otel_attrs_def list_ex_iff tenant_attr_def)

lemma scoped_subset_tagged:
  assumes "tenant_bound e" "subseq cs (scoped e)" "\<And>b. list_ex tenant_attr b \<Longrightarrow> tenant_tagged (sig b)"
  shows "list_all tenant_tagged (map sig cs)"
  using assms by (auto simp: list_all_iff tenant_bound_def dest: list_emb_set)

section \<open>Logs\<close>

definition logs :: "instruments \<Rightarrow> signal list" where
  "logs tel = filter is_log (out tel)"

lemma logs_counter [trace_simps]: "logs (snd (counter m em name v attrs tel)) = logs tel"
proof -
  obtain r tel' where c: "counter m em name v attrs tel = (r, tel')" by fastforce
  from counter_sub [OF c] show ?thesis by (auto simp: logs_def c is_log_def filter_empty_conv)
qed

lemma logs_log_event:
  assumes "log_event em event body ts attrs tel = (None, tel')"
  shows "logs tel' = logs tel @ map (\<lambda>base. LogRecord body ts (Attr AttrEventName event # base @ attrs)) (scoped em)"
  using log_event_out [OF assms] by (auto simp: logs_def is_log_def filter_id_conv)

text \<open>With a meter that makes every instrument, a counter call fails never.\<close>

lemma fan_out_counter_None:
  "(\<And>st n. Float64Counter m st n = None) \<Longrightarrow>
     fst (fan_out (\<lambda>base. otel_counter m base name value attrs) bs st) = map (\<lambda>_. None) bs"
  by (induction bs arbitrary: st) (auto simp: otel_counter_def case_prod_unfold Let_def)

lemma counter_succeeds:
  assumes "\<And>st n. Float64Counter m st n = None"
  shows "fst (counter m e name v attrs st) = None"
  using fan_out_counter_None [of m name v attrs "scoped e" st] assms
  by (cases e) (auto simp: counter_def emit_via_def otel_counter_def join_errors_None_iff split: prod.splits)

lemma fan_out_gauge_None:
  "(\<And>st. Float64Gauge m st name = None) \<Longrightarrow>
     fst (fan_out (\<lambda>base. otel_gauge m base name value attrs) bs st) = map (\<lambda>_. None) bs"
  by (induction bs arbitrary: st) (auto simp: otel_gauge_def case_prod_unfold Let_def)

lemma gauge_succeeds:
  assumes "\<And>st. Float64Gauge m st name = None"
  shows "fst (gauge m e name v attrs st) = None"
  using fan_out_gauge_None [of m name v attrs "scoped e" st] assms
  by (cases e) (auto simp: gauge_def emit_via_def otel_gauge_def join_errors_None_iff split: prod.splits)

section \<open>The records of one gauge\<close>

definition gauge_trace :: "string \<Rightarrow> instruments \<Rightarrow> signal list" where
  "gauge_trace n tel = filter (\<lambda>s. case s of GaugeRecord n' _ _ \<Rightarrow> n' = n | _ \<Rightarrow> False) (out tel)"

lemma gauge_trace_counter [trace_simps]: "counter m em name v attrs tel = (r, tel') \<Longrightarrow> gauge_trace n tel' = gauge_trace n tel"
  using counter_sub [of m em name v attrs tel r tel'] by (auto simp: gauge_trace_def filter_empty_conv)

lemma gauge_trace_other: "gauge m em name v attrs tel = (r, tel') \<Longrightarrow> name \<noteq> n \<Longrightarrow> gauge_trace n tel' = gauge_trace n tel"
  using gauge_sub [of m em name v attrs tel r tel'] by (auto simp: gauge_trace_def filter_empty_conv)

lemma gauge_trace_gauge:
  assumes "gauge m em n v attrs tel = (None, tel')"
  shows "gauge_trace n tel' = gauge_trace n tel @ map (\<lambda>b. GaugeRecord n v (otel_attrs b attrs)) (scoped em)"
  using gauge_out [OF assms] by (auto simp: gauge_trace_def filter_id_conv)

section \<open>Example values\<close>

definition ex_meter :: meter where
  "ex_meter = \<lparr>Float64Gauge = (\<lambda>_ _. None), Float64Counter = (\<lambda>_ _. None)\<rparr>"

definition ex_tel :: instruments where
  "ex_tel = \<lparr>gauges = [], counters = [], out = []\<rparr>"

definition ex_emitter :: emitter where
  "ex_emitter = new_tenant_emitter [] [''t'', ''u'']"

end
