(* ===== verification/GoJson.thy ===== *)
theory GoJson
  imports GoStrings
begin

text \<open>
  JSON documents and the rules by which \<^verbatim>\<open>encoding/json\<close> fills Go values from them. The
  model starts at the parsed document: a body or a file is given with the document its
  bytes denote, and the lexical syntax is left out.

  A decoder takes the value already in the destination and a document; \<open>None\<close> is the
  type error \<^verbatim>\<open>json.Unmarshal\<close> reports. A struct is filled member by member in the order of the
  document; a member fills the field of the same name or, failing that, the field whose
  name agrees up to case; unknown members are ignored and \<^verbatim>\<open>null\<close> leaves a field as it is.
\<close>

datatype json =
    JNull
  | JBool bool
  | JNum string
  | JStr string
  | JArr "json list"
  | JObj "(string \<times> json) list"

type_synonym 'a decoder = "'a \<Rightarrow> json \<Rightarrow> 'a option"

definition dec_string :: "string decoder" where
  "dec_string cur j = (case j of JStr s \<Rightarrow> Some s | JNull \<Rightarrow> Some cur | _ \<Rightarrow> None)"

definition dec_bool :: "bool decoder" where
  "dec_bool cur j = (case j of JBool b \<Rightarrow> Some b | JNull \<Rightarrow> Some cur | _ \<Rightarrow> None)"

text \<open>A 64-bit integer field takes an integer literal in range.\<close>

definition int_literal :: "string \<Rightarrow> int option" where
  "int_literal s =
     (let (neg, ds) = (case s of c # cs \<Rightarrow> if c = CHR ''-'' then (True, cs) else (False, s) | [] \<Rightarrow> (False, []));
          n = (if neg then - digits_val ds else digits_val ds)
      in if ds \<noteq> [] \<and> list_all is_digit ds \<and> - (2 ^ 63) \<le> n \<and> n < 2 ^ 63 then Some n else None)"

definition dec_int :: "int decoder" where
  "dec_int cur j = (case j of JNum s \<Rightarrow> int_literal s | JNull \<Rightarrow> Some cur | _ \<Rightarrow> None)"

text \<open>A pointer field is nil for \<^verbatim>\<open>null\<close> and otherwise points to a decoded value.\<close>

definition dec_ptr :: "'a \<Rightarrow> 'a decoder \<Rightarrow> 'a option decoder" where
  "dec_ptr zero dec cur j =
     (case j of JNull \<Rightarrow> Some None
      | _ \<Rightarrow> map_option Some (dec (case cur of None \<Rightarrow> zero | Some a \<Rightarrow> a) j))"

fun dec_elems :: "'a \<Rightarrow> 'a decoder \<Rightarrow> json list \<Rightarrow> 'a list option" where
  "dec_elems zero dec [] = Some []"
| "dec_elems zero dec (j # js) =
     (case dec zero j of None \<Rightarrow> None
      | Some a \<Rightarrow> (case dec_elems zero dec js of None \<Rightarrow> None | Some as \<Rightarrow> Some (a # as)))"

definition dec_list :: "'a \<Rightarrow> 'a decoder \<Rightarrow> 'a list decoder" where
  "dec_list zero dec cur j =
     (case j of JArr js \<Rightarrow> dec_elems zero dec js | JNull \<Rightarrow> Some [] | _ \<Rightarrow> None)"

definition dec_raw :: "json decoder" where
  "dec_raw cur j = Some j"

type_synonym 'a fields = "(string \<times> 'a decoder) list"

definition field_of :: "'a fields \<Rightarrow> string \<Rightarrow> 'a decoder option" where
  "field_of fs k =
     (case find (\<lambda>f. fst f = k) fs of
        Some f \<Rightarrow> Some (snd f)
      | None \<Rightarrow> (case find (\<lambda>f. equal_fold (fst f) k) fs of Some f \<Rightarrow> Some (snd f) | None \<Rightarrow> None))"

fun dec_members :: "'a fields \<Rightarrow> 'a \<Rightarrow> (string \<times> json) list \<Rightarrow> 'a option" where
  "dec_members fs cur [] = Some cur"
| "dec_members fs cur ((k, j) # kvs) =
     (case field_of fs k of
        None \<Rightarrow> dec_members fs cur kvs
      | Some dec \<Rightarrow> (case dec cur j of None \<Rightarrow> None | Some cur' \<Rightarrow> dec_members fs cur' kvs))"

definition dec_struct :: "'a fields \<Rightarrow> 'a decoder" where
  "dec_struct fs cur j =
     (case j of JObj kvs \<Rightarrow> dec_members fs cur kvs | JNull \<Rightarrow> Some cur | _ \<Rightarrow> None)"

text \<open>A field given by its name, its decoder, and how it is read from and put into the struct.\<close>

definition fld :: "string \<Rightarrow> 'f decoder \<Rightarrow> ('a \<Rightarrow> 'f) \<Rightarrow> ('f \<Rightarrow> 'a \<Rightarrow> 'a) \<Rightarrow> string \<times> 'a decoder" where
  "fld name dec get put = (name, \<lambda>a j. map_option (\<lambda>v. put v a) (dec (get a) j))"

text \<open>
  A map with string values: each member sets its key, and a member that is \<^verbatim>\<open>null\<close> sets the
  zero value.
\<close>

fun dec_map :: "'a \<Rightarrow> 'a decoder \<Rightarrow> (string \<times> json) list \<Rightarrow> (string \<rightharpoonup> 'a) \<Rightarrow> (string \<rightharpoonup> 'a) option" where
  "dec_map zero dec [] m = Some m"
| "dec_map zero dec ((k, j) # kvs) m =
     (case dec zero j of None \<Rightarrow> None | Some a \<Rightarrow> dec_map zero dec kvs (m(k \<mapsto> a)))"

definition dec_dict :: "'a \<Rightarrow> 'a decoder \<Rightarrow> (string \<rightharpoonup> 'a) decoder" where
  "dec_dict zero dec cur j =
     (case j of JObj kvs \<Rightarrow> dec_map zero dec kvs cur | JNull \<Rightarrow> Some (\<lambda>_. None) | _ \<Rightarrow> None)"

text \<open>A map is written with its keys in byte order; a key set again has its new value.\<close>

fun str_less :: "string \<Rightarrow> string \<Rightarrow> bool" where
  "str_less [] [] = False"
| "str_less [] (d # ds) = True"
| "str_less (c # cs) [] = False"
| "str_less (c # cs) (d # ds) = (code c < code d \<or> c = d \<and> str_less cs ds)"

fun put_member :: "string \<Rightarrow> json \<Rightarrow> (string \<times> json) list \<Rightarrow> (string \<times> json) list" where
  "put_member k v [] = [(k, v)]"
| "put_member k v ((k', v') # ms) =
     (if k = k' then (k, v) # ms
      else if str_less k k' then (k, v) # (k', v') # ms
      else (k', v') # put_member k v ms)"

definition json_map :: "(string \<times> json) list \<Rightarrow> json" where
  "json_map ms = JObj (fold (\<lambda>(k, v). put_member k v) ms [])"

lemma dec_string_JStr [go_simps]: "dec_string cur (JStr s) = Some s"
  by (simp add: dec_string_def)

lemma dec_elems_map_JStr [go_simps]: "dec_elems zero dec_string (map JStr xs) = Some xs"
  by (induction xs) (simp_all add: go_simps)

lemma dec_list_JStr [go_simps]: "dec_list zero dec_string cur (JArr (map JStr xs)) = Some xs"
  by (simp add: dec_list_def go_simps)

lemma dec_elems_length: "dec_elems zero dec js = Some as \<Longrightarrow> length as = length js"
  by (induction js arbitrary: as) (auto split: option.splits)

lemma dec_members_unknown: "field_of fs k = None \<Longrightarrow> dec_members fs cur ((k, j) # kvs) = dec_members fs cur kvs"
  by simp

end
