(* ===== verification/PhoneApi.thy ===== *)
theory PhoneApi
  imports Telemetry GoJson
begin

text \<open>
  The read-only phone interface of \<^verbatim>\<open>internal/collectors/phone/collectors.go\<close> (\<^verbatim>\<open>API\<close>,
  \<^verbatim>\<open>Target\<close>) and the data types of \<^verbatim>\<open>internal/phoneclient/client.go\<close> it carries. A call on the
  interface takes and returns the state \<open>'w\<close> of everything behind it.
\<close>

section \<open>Data\<close>

type_synonym state = string

definition StateOK :: state where "StateOK = ''ok''"
definition StateAPIDisabled :: state where "StateAPIDisabled = ''api_disabled''"
definition StateAuthFailed :: state where "StateAuthFailed = ''auth_failed''"
definition StateUnreachable :: state where "StateUnreachable = ''unreachable''"

lemmas state_defs = StateOK_def StateAPIDisabled_def StateAuthFailed_def StateUnreachable_def

record device_info =
  ModelNumber :: string
  FirmwareRelease :: string
  DeviceType :: string
  DeviceVendor :: string
  UpTimeSinceLastReboot :: string
  di_IPV4Address :: string
  IPV6Address :: string
  MACAddress :: string

record line =
  LineNumber :: string
  RegistrationStatus :: string
  LineType :: string
  SIPAddress :: string
  Label :: string
  ln_UserID :: string

record network_stats =
  UpTime :: string
  RxPackets :: string
  TxPackets :: string

record network_info =
  DHCP :: string
  DHCPServer :: string
  DHCPBootServerOption :: string
  IPV4Address :: string
  DefaultGateway :: string
  SubnetMask :: string
  DNSServer :: string
  AlternateDNSServer :: string
  DNSDomain :: string
  SNTPAddress :: string
  LANPortStatus :: string
  LANSpeed :: string

record call_logs =
  Missed :: "json list"
  Received :: "json list"
  Placed :: "json list"

record config_param =
  cp_Value :: string
  cp_Source :: string

section \<open>The interface\<close>

record 'w phone_api =
  Probe :: "'w \<Rightarrow> (state \<times> goerr option) \<times> 'w"
  NetworkStats :: "'w \<Rightarrow> network_stats result \<times> 'w"
  NetworkInfo :: "'w \<Rightarrow> network_info result \<times> 'w"
  CallLogs :: "'w \<Rightarrow> call_logs result \<times> 'w"
  LineInfo :: "'w \<Rightarrow> line list result \<times> 'w"
  ConfigGet :: "string list \<Rightarrow> 'w \<Rightarrow> ((string \<rightharpoonup> config_param) \<times> string list) result \<times> 'w"

record 'w target =
  TenantID :: string
  tgt_Device :: device
  tgt_API :: "'w phone_api"
  StateDir :: string
  CallLogsInterval :: int
  NetworkInfoInterval :: int

definition targetEmitter :: "emitter \<Rightarrow> 'w target \<Rightarrow> emitter" where
  "targetEmitter em tgt =
     with_device (tgt_Device tgt) (if TenantID tgt \<noteq> [] then with_tenant (TenantID tgt) em else em)"

definition device_id :: "'w target \<Rightarrow> string" where
  "device_id tgt = dev_ID (tgt_Device tgt)"

text \<open>The emitter of a target keeps the tenant boundary of the emitter it is made from.\<close>

lemma derived_targetEmitter: "derived em \<Longrightarrow> derived (targetEmitter em tgt)"
  by (simp add: targetEmitter_def derived_device derived_tenant)

section \<open>Emissions as steps\<close>

text \<open>The state a phone collector works on: the telemetry and what is behind the interface.\<close>

type_synonym 'w phone_run = "instruments \<times> 'w"

definition emitGauge :: "meter \<Rightarrow> emitter \<Rightarrow> string \<Rightarrow> metric_value \<Rightarrow> attr list \<Rightarrow> 'w phone_run fallible" where
  "emitGauge m em name value attrs s =
     (let (r, tel) = gauge m em name value attrs (fst s) in (r, (tel, snd s)))"

definition emitCounter :: "meter \<Rightarrow> emitter \<Rightarrow> string \<Rightarrow> metric_value \<Rightarrow> attr list \<Rightarrow> 'w phone_run fallible" where
  "emitCounter m em name value attrs s =
     (let (r, tel) = counter m em name value attrs (fst s) in (r, (tel, snd s)))"

definition gauge_sigs :: "emitter \<Rightarrow> string \<Rightarrow> metric_value \<Rightarrow> attr list \<Rightarrow> signal list" where
  "gauge_sigs em name value attrs = map (\<lambda>base. GaugeRecord name value (otel_attrs base attrs)) (scoped em)"

definition counter_sigs :: "emitter \<Rightarrow> string \<Rightarrow> metric_value \<Rightarrow> attr list \<Rightarrow> signal list" where
  "counter_sigs em name value attrs = map (\<lambda>base. CounterAdd name value (otel_attrs base attrs)) (scoped em)"

lemma emitGauge_ok:
  "emitGauge m em name value attrs s = (None, s') \<Longrightarrow>
     out (fst s') = out (fst s) @ gauge_sigs em name value attrs \<and> snd s' = snd s"
  by (auto simp: emitGauge_def gauge_sigs_def dest!: gauge_out split: prod.splits)

lemma emitCounter_ok:
  "emitCounter m em name value attrs s = (None, s') \<Longrightarrow>
     out (fst s') = out (fst s) @ counter_sigs em name value attrs \<and> snd s' = snd s"
  by (auto simp: emitCounter_def counter_sigs_def dest!: counter_out split: prod.splits)

text \<open>Every signal a step hands over is tagged with a tenant.\<close>

definition adds_tagged :: "instruments \<Rightarrow> instruments \<Rightarrow> bool" where
  "adds_tagged t t' \<longleftrightarrow> (\<exists>sigs. out t' = out t @ sigs \<and> list_all tenant_tagged sigs)"

lemma adds_tagged_refl [simp]: "adds_tagged t t"
  by (simp add: adds_tagged_def)

lemma adds_tagged_trans: "adds_tagged t t' \<Longrightarrow> adds_tagged t' t'' \<Longrightarrow> adds_tagged t t''"
  by (auto simp: adds_tagged_def)

lemma gauge_tagged:
  assumes "derived em" "gauge m em name value attrs t = (r, t')" shows "adds_tagged t t'"
  using gauge_sub [OF assms(2)] scoped_subset_tagged [OF derived_tenant_bound [OF assms(1)]]
  by (fastforce simp: adds_tagged_def tenant_tagged_def tenant_attr_otel_attrs)

lemma counter_tagged:
  assumes "derived em" "counter m em name value attrs t = (r, t')" shows "adds_tagged t t'"
  using counter_sub [OF assms(2)] scoped_subset_tagged [OF derived_tenant_bound [OF assms(1)]]
  by (fastforce simp: adds_tagged_def tenant_tagged_def tenant_attr_otel_attrs)

lemma log_event_tagged:
  assumes "derived em" "log_event em event body ts attrs t = (r, t')" shows "adds_tagged t t'"
  using log_event_sub [OF assms(2)] scoped_subset_tagged [OF derived_tenant_bound [OF assms(1)]]
  by (fastforce simp: adds_tagged_def tenant_tagged_def)

lemma emitGauge_tagged:
  "derived em \<Longrightarrow> emitGauge m em name value attrs s = (r, s') \<Longrightarrow> adds_tagged (fst s) (fst s')"
  by (auto simp: emitGauge_def split: prod.splits intro: gauge_tagged)

lemma emitCounter_tagged:
  "derived em \<Longrightarrow> emitCounter m em name value attrs s = (r, s') \<Longrightarrow> adds_tagged (fst s) (fst s')"
  by (auto simp: emitCounter_def split: prod.splits intro: counter_tagged)

end
