(* ===== verification/Transport.thy ===== *)
theory Transport
  imports PhoneApi
begin

text \<open>
  \<^verbatim>\<open>internal/telemetry/instrument.go\<close>: the HTTP transport that records its own requests. The transport it wraps is a
  parameter: from a request and the world to a response, if any, an error, if any, and the world. The clock is one too.
\<close>

type_synonym ('q, 'a, 'w) round_tripper = "'q \<Rightarrow> 'w \<Rightarrow> ('a option \<times> goerr option) \<times> 'w"

record ('q, 'a, 'w) instrumentedTransport =
  tr_base :: "('q, 'a, 'w) round_tripper"
  tr_emitter :: "emitter option"
  tr_source :: string

definition InstrumentHTTPTransport :: "('q, 'a, 'w) round_tripper \<Rightarrow> ('q, 'a, 'w) round_tripper option \<Rightarrow> emitter option \<Rightarrow> string \<Rightarrow>
    ('q, 'a, 'w) instrumentedTransport" where
  "InstrumentHTTPTransport DefaultTransport base em source =
     \<lparr>tr_base = (case base of None \<Rightarrow> DefaultTransport | Some b \<Rightarrow> b), tr_emitter = em, tr_source = source\<rparr>"

definition status_counter :: "int \<Rightarrow> string option" where
  "status_counter st = (if 400 \<le> st \<and> st < 500 then Some MetricHTTP4xx else if st \<ge> 500 then Some MetricHTTP5xx else None)"

definition http_span :: string where
  "http_span = ''http.client.request''"

definition RoundTrip :: "meter \<Rightarrow> ('w \<Rightarrow> gotime \<times> 'w) \<Rightarrow> ('a \<Rightarrow> int) \<Rightarrow> ('q, 'a, 'w) instrumentedTransport \<Rightarrow> 'q \<Rightarrow> 'w phone_run \<Rightarrow>
    ('a option \<times> goerr option) \<times> 'w phone_run" where
  "RoundTrip m now status t request s =
     (case tr_emitter t of
        None \<Rightarrow> (let (r, w) = tr_base t request (snd s) in (r, (fst s, w)))
      | Some em \<Rightarrow>
          (let attrs = [Attr AttrSource (tr_source t)];
               tel1 = start_span em http_span attrs (fst s);
               (started, w1) = now (snd s);
               ((response, err), w2) = tr_base t request w1;
               (ended, w3) = now w2;
               tel2 = snd (gauge m em MetricHTTPClientRequestDuration (FSeconds (time_sub ended started)) attrs tel1);
               tel3 = (case response of
                   None \<Rightarrow> tel2
                 | Some resp \<Rightarrow>
                     (case status_counter (status resp) of
                        None \<Rightarrow> tel2
                      | Some name \<Rightarrow> snd (counter m em name (FNum 1) attrs tel2))) in
           ((response, err), (end_span em http_span attrs err tel3, w3))))"

section \<open>What a request records\<close>

lemma fold_send_out: "out (fold (\<lambda>b. send (f b)) bs tel) = out tel @ map f bs"
  by (induction bs arbitrary: tel) auto

lemma counter_all:
  assumes "\<And>st n. Float64Counter m st n = None"
  shows "out (snd (counter m em n v attrs tel)) = out tel @ counter_sigs em n v attrs"
  using counter_succeeds [of m em n v attrs tel] counter_out [of m em n v attrs tel] assms
  by (cases "counter m em n v attrs tel") (auto simp: counter_sigs_def)

lemma gauge_always:
  assumes "\<And>st n. Float64Gauge m st n = None"
  shows "out (snd (gauge m em n v attrs tel)) = out tel @ gauge_sigs em n v attrs"
  using gauge_succeeds [of m n em v attrs tel] gauge_out [of m em n v attrs tel] assms
  by (cases "gauge m em n v attrs tel") (auto simp: gauge_sigs_def)

text \<open>
  C38 (instrumented requests). With an SDK that makes every instrument, a request through the instrumented transport is
  made once, and its response and error are returned as they are; what is recorded is a span and one duration per
  tenant, and one 4xx or 5xx count per tenant exactly when there is a response with such a status.
\<close>

theorem round_trip_signals:
  assumes "\<And>st n. Float64Gauge m st n = None" "\<And>st n. Float64Counter m st n = None" "tr_emitter t = Some em"
    and "now w = (started, w1)" "tr_base t request w1 = ((response, err), w2)"
  shows "\<exists>s' d. RoundTrip m now status t request (tel, w) = ((response, err), s') \<and> snd s' = snd (now w2) \<and>
    (let attrs = [Attr AttrSource (tr_source t)] in
     out (fst s') = out tel @ map (\<lambda>b. SpanStart http_span (otel_attrs b attrs)) (scoped em) @
       gauge_sigs em MetricHTTPClientRequestDuration (FSeconds d) attrs @
       (case response of
          None \<Rightarrow> []
        | Some resp \<Rightarrow>
            if 400 \<le> status resp \<and> status resp < 500 then counter_sigs em MetricHTTP4xx (FNum 1) attrs
            else if 500 \<le> status resp then counter_sigs em MetricHTTP5xx (FNum 1) attrs else []) @
       map (\<lambda>b. SpanEnd http_span (otel_attrs b attrs) err) (scoped em))"
proof -
  obtain ended w3 where n: "now w2 = (ended, w3)" by (rule prod.exhaust)
  show ?thesis
    using assms(3-5) n
    by (intro exI [of _ "snd (RoundTrip m now status t request (tel, w))"] exI [of _ "time_sub ended started"])
      (auto simp: RoundTrip_def Let_def start_span_def end_span_def fold_send_out gauge_always [OF assms(1)] counter_all [OF assms(2)]
        status_counter_def split: option.splits)
qed

section \<open>Example values\<close>

definition ex_transport :: "(string, int, nat) instrumentedTransport" where
  "ex_transport = \<lparr>tr_base = (\<lambda>q w. ((Some 404, None), w + 1)), tr_emitter = Some ex_emitter, tr_source = ''phone''\<rparr>"

lemma round_trip_signals_witness:
  "\<exists>s' d. RoundTrip ex_meter (\<lambda>w. (\<lparr>t_unix = int w, t_nsec = 0, t_off = 0\<rparr>, w + 1)) id ex_transport ''GET'' (ex_tel, 0) = ((Some 404, None), s') \<and>
    out (fst s') = map (\<lambda>b. SpanStart http_span (otel_attrs b [Attr AttrSource ''phone''])) (scoped ex_emitter) @
       gauge_sigs ex_emitter MetricHTTPClientRequestDuration (FSeconds d) [Attr AttrSource ''phone''] @
       counter_sigs ex_emitter MetricHTTP4xx (FNum 1) [Attr AttrSource ''phone''] @
       map (\<lambda>b. SpanEnd http_span (otel_attrs b [Attr AttrSource ''phone'']) None) (scoped ex_emitter)"
proof -
  have e: "Float64Gauge ex_meter st n = None" "Float64Counter ex_meter st n = None" for st n by (simp_all add: ex_meter_def)
  have t: "tr_emitter ex_transport = Some ex_emitter" "tr_source ex_transport = ''phone''"
    "tr_base ex_transport ''GET'' 1 = ((Some 404, None), 2)" by (simp_all add: ex_transport_def)
  define now where "now = (\<lambda>w::nat. (\<lparr>t_unix = int w, t_nsec = 0, t_off = 0\<rparr>, w + 1))"
  have n: "now 0 = (\<lparr>t_unix = 0, t_nsec = 0, t_off = 0\<rparr>, 1)" by (simp add: now_def)
  have o: "out ex_tel = []" by (simp add: ex_tel_def)
  from round_trip_signals [where status = id and tel = ex_tel and now = now and w = 0, OF e t(1) n t(3)]
  obtain s' d where r: "RoundTrip ex_meter now id ex_transport ''GET'' (ex_tel, 0) = ((Some 404, None), s')"
    "let attrs = [Attr AttrSource (tr_source ex_transport)] in
     out (fst s') = out ex_tel @ map (\<lambda>b. SpanStart http_span (otel_attrs b attrs)) (scoped ex_emitter) @
       gauge_sigs ex_emitter MetricHTTPClientRequestDuration (FSeconds d) attrs @
       (case Some (404 :: int) of
          None \<Rightarrow> []
        | Some resp \<Rightarrow>
            if 400 \<le> id resp \<and> id resp < 500 then counter_sigs ex_emitter MetricHTTP4xx (FNum 1) attrs
            else if 500 \<le> id resp then counter_sigs ex_emitter MetricHTTP5xx (FNum 1) attrs else []) @
       map (\<lambda>b. SpanEnd http_span (otel_attrs b attrs) None) (scoped ex_emitter)"
    by blast
  show ?thesis
    by (rule exI [of _ s'], rule exI [of _ d]) (use r in \<open>simp add: o t(2) now_def Let_def\<close>)
qed

end
