(* ===== verification/Scheduler.thy ===== *)
theory Scheduler
  imports Transport
begin

text \<open>
  \<^verbatim>\<open>internal/collector\<close>: the collector interface, the registry, one scheduled run with its self-observability
  signals, and the scheduler that runs every collector in a goroutine of its own.

  A run of a collector may return an error, panic, or not return at all (\<open>None\<close>). The goroutines are a step
  relation: each has a phase of its loop, and a step moves one of them, in any order. The telemetry and the outside
  world are shared between them; the body of a \<^verbatim>\<open>Collect\<close> is one step. The clock reads the monotonic time
  \<^verbatim>\<open>time.Since\<close> uses.
\<close>

section \<open>Collectors and their registry\<close>

datatype outcome = Finished "goerr option" | Panicked string

record 'w collector =
  ID :: string
  Interval :: int
  Collect :: "emitter \<Rightarrow> 'w phone_run \<Rightarrow> (outcome \<times> 'w phone_run) option"

type_synonym 'w registry = "'w collector list"

definition NewRegistry :: "'w registry" where
  "NewRegistry = []"

definition Register :: "'w collector option \<Rightarrow> 'w registry \<Rightarrow> 'w registry" where
  "Register c r = (case c of None \<Rightarrow> r | Some c' \<Rightarrow> r @ [c'])"

definition Entries :: "'w registry \<Rightarrow> 'w collector list" where
  "Entries r = r"

section \<open>One run\<close>

definition run_attrs :: "'w collector \<Rightarrow> attr list" where
  "run_attrs c = [Attr AttrCollectorID (ID c)]"

definition span_name :: "'w collector \<Rightarrow> string" where
  "span_name c = ''collector.'' @ ID c"

definition run_begin :: "('w \<Rightarrow> gotime \<times> 'w) \<Rightarrow> emitter \<Rightarrow> 'w collector \<Rightarrow> 'w phone_run \<Rightarrow> gotime \<times> 'w phone_run" where
  "run_begin now em c s =
     (let (started, w) = now (snd s) in (started, (start_span em (span_name c) (run_attrs c) (fst s), w)))"

definition run_error :: "'w collector \<Rightarrow> outcome \<Rightarrow> goerr option" where
  "run_error c res =
     (case res of Finished e \<Rightarrow> e | Panicked v \<Rightarrow> Some (Msg (''collector '' @ ID c @ '' panic: '' @ v)))"

text \<open>The deferred function: the errors of the three gauges are dropped.\<close>

definition run_report :: "meter \<Rightarrow> ('w \<Rightarrow> gotime \<times> 'w) \<Rightarrow> emitter \<Rightarrow> 'w collector \<Rightarrow> gotime \<Rightarrow> outcome \<Rightarrow> 'w phone_run \<Rightarrow>
    goerr option \<times> 'w phone_run" where
  "run_report m now em c started res s =
     (let err = run_error c res;
          success = (if err = None then 1 else 0);
          (t, w) = now (snd s);
          tel1 = snd (gauge m em MetricCollectorDuration (FSeconds (time_sub t started)) (run_attrs c) (fst s));
          tel2 = snd (gauge m em MetricCollectorAvailability (FNum success) (run_attrs c) tel1);
          tel3 = snd (gauge m em MetricCollectorExpectedInterval (FSeconds (Interval c)) (run_attrs c) tel2) in
      (err, (end_span em (span_name c) (run_attrs c) err tel3, w)))"

definition RunOnce :: "meter \<Rightarrow> ('w \<Rightarrow> gotime \<times> 'w) \<Rightarrow> emitter \<Rightarrow> 'w collector \<Rightarrow> 'w phone_run \<Rightarrow>
    (goerr option \<times> 'w phone_run) option" where
  "RunOnce m now em c s =
     (let (started, s1) = run_begin now em c s in
      (case Collect c em s1 of
         None \<Rightarrow> None
       | Some (res, s2) \<Rightarrow> Some (run_report m now em c started res s2)))"

section \<open>The scheduler\<close>

text \<open>
  The phases of a goroutine of \<^verbatim>\<open>loop\<close>; the flag says whether its ticker exists. \<^verbatim>\<open>time.NewTicker\<close> panics for an
  interval that is not positive, outside the \<^verbatim>\<open>recover\<close> of \<^verbatim>\<open>RunOnce\<close>, and a panic that leaves a
  goroutine ends the process (\<open>Crashed\<close>).
\<close>

datatype phase =
    Starting
  | Collecting bool gotime
  | Reporting bool gotime outcome
  | MakingTicker
  | Ticking
  | Stopped
  | Crashed

record 'w sched =
  sc_phases :: "phase list"
  sc_run :: "'w phone_run"
  sc_cancelled :: bool
  sc_finished :: "(nat \<times> outcome) list"

definition sched_init :: "'w collector list \<Rightarrow> 'w phone_run \<Rightarrow> 'w sched" where
  "sched_init cs s = \<lparr>sc_phases = map (\<lambda>_. Starting) cs, sc_run = s, sc_cancelled = False, sc_finished = []\<rparr>"

text \<open>One step of one goroutine: the phase and the shared state before and after, and the run it has finished, if any.\<close>

inductive loop_step :: "meter \<Rightarrow> ('w \<Rightarrow> gotime \<times> 'w) \<Rightarrow> emitter \<Rightarrow> 'w collector \<Rightarrow> bool \<Rightarrow> phase \<Rightarrow> 'w phone_run \<Rightarrow>
    phase \<Rightarrow> 'w phone_run \<Rightarrow> outcome list \<Rightarrow> bool"
  for m now em c cancelled where
  first_run: "run_begin now em c s = (t, s') \<Longrightarrow> loop_step m now em c cancelled Starting s (Collecting False t) s' []"
| collect_run: "Collect c em s = Some (res, s') \<Longrightarrow>
    loop_step m now em c cancelled (Collecting b t) s (Reporting b t res) s' []"
| report_run: "run_report m now em c t res s = (err, s') \<Longrightarrow>
    loop_step m now em c cancelled (Reporting b t res) s (if b then Ticking else MakingTicker) s' [res]"
| make_ticker: "Interval c > 0 \<Longrightarrow> loop_step m now em c cancelled MakingTicker s Ticking s []"
| ticker_panic: "Interval c \<le> 0 \<Longrightarrow> loop_step m now em c cancelled MakingTicker s Crashed s []"
| tick: "run_begin now em c s = (t, s') \<Longrightarrow> loop_step m now em c cancelled Ticking s (Collecting True t) s' []"
| done_received: "cancelled \<Longrightarrow> loop_step m now em c cancelled Ticking s Stopped s []"

inductive_simps loop_step_Ticking: "loop_step m now em c cancelled Ticking s ph s' h"
inductive_cases loop_step_cases: "loop_step m now em c cancelled ph s ph' s' h"

inductive sched_step :: "meter \<Rightarrow> ('w \<Rightarrow> gotime \<times> 'w) \<Rightarrow> emitter \<Rightarrow> 'w collector list \<Rightarrow> 'w sched \<Rightarrow> 'w sched \<Rightarrow> bool"
  for m now em cs where
  goroutine: "i < length cs \<Longrightarrow> Crashed \<notin> set (sc_phases st) \<Longrightarrow>
    loop_step m now em (cs ! i) (sc_cancelled st) (sc_phases st ! i) (sc_run st) ph s' h \<Longrightarrow>
    sched_step m now em cs st
      (st\<lparr>sc_phases := (sc_phases st)[i := ph], sc_run := s', sc_finished := sc_finished st @ map (Pair i) h\<rparr>)"
| cancel: "sched_step m now em cs st (st\<lparr>sc_cancelled := True\<rparr>)"

abbreviation sched_reach :: "meter \<Rightarrow> ('w \<Rightarrow> gotime \<times> 'w) \<Rightarrow> emitter \<Rightarrow> 'w collector list \<Rightarrow> 'w phone_run \<Rightarrow> 'w sched \<Rightarrow> bool" where
  "sched_reach m now em cs s \<equiv> (sched_step m now em cs)\<^sup>*\<^sup>* (sched_init (Entries cs) s)"

text \<open>\<^verbatim>\<open>Run\<close> returns when every goroutine has, with the error of the context.\<close>

definition run_returns :: "'w sched \<Rightarrow> goerr option option" where
  "run_returns st =
     (if list_all (\<lambda>p. p = Stopped) (sc_phases st)
      then Some (if sc_cancelled st then Some (Msg ''context canceled'') else None) else None)"

section \<open>The signals of one run\<close>

definition span_starts :: "emitter \<Rightarrow> 'w collector \<Rightarrow> signal list" where
  "span_starts em c = map (\<lambda>b. SpanStart (span_name c) (otel_attrs b (run_attrs c))) (scoped em)"

definition span_ends :: "emitter \<Rightarrow> 'w collector \<Rightarrow> goerr option \<Rightarrow> signal list" where
  "span_ends em c err = map (\<lambda>b. SpanEnd (span_name c) (otel_attrs b (run_attrs c)) err) (scoped em)"

lemma start_span_out: "out (start_span em (span_name c) (run_attrs c) tel) = out tel @ span_starts em c"
  by (simp add: start_span_def span_starts_def fold_send_out)

lemma end_span_out: "out (end_span em (span_name c) (run_attrs c) err tel) = out tel @ span_ends em c err"
  by (simp add: end_span_def span_ends_def fold_send_out)

definition all_gauges :: "meter \<Rightarrow> bool" where
  "all_gauges m \<longleftrightarrow> (\<forall>st n. Float64Gauge m st n = None)"

lemma gauge_all: "all_gauges m \<Longrightarrow> out (snd (gauge m em n v attrs tel)) = out tel @ gauge_sigs em n v attrs"
  by (simp add: all_gauges_def gauge_always)

definition succeeded :: "outcome \<Rightarrow> bool" where
  "succeeded res \<longleftrightarrow> (case res of Finished None \<Rightarrow> True | _ \<Rightarrow> False)"

lemma run_error_None: "run_error c res = None \<longleftrightarrow> succeeded res"
  by (auto simp: run_error_def succeeded_def split: outcome.splits option.splits)

definition availability_sigs :: "emitter \<Rightarrow> 'w collector \<Rightarrow> outcome \<Rightarrow> signal list" where
  "availability_sigs em c res = gauge_sigs em MetricCollectorAvailability (FNum (if succeeded res then 1 else 0)) (run_attrs c)"

lemma run_report_out:
  assumes "all_gauges m" "run_report m now em c started res s = (err, s')"
  shows "\<exists>d. err = run_error c res \<and> out (fst s') = out (fst s) @ gauge_sigs em MetricCollectorDuration (FSeconds d) (run_attrs c) @
    availability_sigs em c res @ gauge_sigs em MetricCollectorExpectedInterval (FSeconds (Interval c)) (run_attrs c) @ span_ends em c err"
proof -
  obtain t w where t: "now (snd s) = (t, w)" by (rule prod.exhaust)
  show ?thesis
    using assms(2) by (intro exI [of _ "time_sub t started"])
      (auto simp: run_report_def Let_def t end_span_out gauge_all [OF assms(1)] availability_sigs_def run_error_None)
qed

text \<open>
  C19 (one scheduled run). With an SDK that makes every gauge, a run of a collector opens a span per tenant, hands over what the
  collector emits, then one duration, one availability and one expected-interval record per tenant, and closes
  the spans; availability is 1 exactly when the collector returned without error, and a panic has become the error
  the run returns.
\<close>

theorem run_once_signals:
  assumes "\<And>st n. Float64Gauge m st n = None"
    and "run_begin now em c s = (started, s1)" "Collect c em s1 = Some (res, s2)" "out (fst s2) = out (fst s1) @ mid"
  shows "\<exists>s' d. RunOnce m now em c s = Some (run_error c res, s') \<and>
    out (fst s') = out (fst s) @ span_starts em c @ mid @ gauge_sigs em MetricCollectorDuration (FSeconds d) (run_attrs c) @
      gauge_sigs em MetricCollectorAvailability (FNum (if res = Finished None then 1 else 0)) (run_attrs c) @
      gauge_sigs em MetricCollectorExpectedInterval (FSeconds (Interval c)) (run_attrs c) @ span_ends em c (run_error c res)"
proof -
  obtain err s' where r: "run_report m now em c started res s2 = (err, s')" by (rule prod.exhaust)
  have a: "all_gauges m" using assms(1) by (simp add: all_gauges_def)
  have o: "out (fst s1) = out (fst s) @ span_starts em c"
    using assms(2) by (auto simp: run_begin_def start_span_out split: prod.splits)
  have su: "succeeded res \<longleftrightarrow> res = Finished None"
    by (auto simp: succeeded_def split: outcome.splits option.splits)
  from run_report_out [OF a r] obtain d where "err = run_error c res"
    "out (fst s') = out (fst s2) @ gauge_sigs em MetricCollectorDuration (FSeconds d) (run_attrs c) @
      availability_sigs em c res @ gauge_sigs em MetricCollectorExpectedInterval (FSeconds (Interval c)) (run_attrs c) @ span_ends em c err"
    by blast
  with assms(2-4) o r su show ?thesis
    by (intro exI [of _ s'] exI [of _ d]) (simp add: RunOnce_def availability_sigs_def)
qed

section \<open>Isolation\<close>

text \<open>A collector that leaves the availability records to the scheduler, as all of them do.\<close>

definition leaves_availability :: "emitter \<Rightarrow> 'w collector \<Rightarrow> bool" where
  "leaves_availability em c \<longleftrightarrow> (\<forall>s res s'. Collect c em s = Some (res, s') \<longrightarrow>
     gauge_trace MetricCollectorAvailability (fst s') = gauge_trace MetricCollectorAvailability (fst s))"

lemma gauge_trace_spans:
  "gauge_trace n (start_span em sn attrs tel) = gauge_trace n tel"
  "gauge_trace n (end_span em sn attrs err tel) = gauge_trace n tel"
  by (auto simp: gauge_trace_def start_span_def end_span_def fold_send_out filter_empty_conv)

lemma gauge_trace_snd:
  "n \<noteq> n' \<Longrightarrow> gauge_trace n' (snd (gauge m em n v attrs tel)) = gauge_trace n' tel"
  "all_gauges m \<Longrightarrow> gauge_trace n (snd (gauge m em n v attrs tel)) = gauge_trace n tel @ gauge_sigs em n v attrs"
proof -
  show "n \<noteq> n' \<Longrightarrow> gauge_trace n' (snd (gauge m em n v attrs tel)) = gauge_trace n' tel"
    using gauge_trace_other [of m em n v attrs tel] by (cases "gauge m em n v attrs tel") auto
  show "all_gauges m \<Longrightarrow> gauge_trace n (snd (gauge m em n v attrs tel)) = gauge_trace n tel @ gauge_sigs em n v attrs"
    using gauge_trace_gauge [of m em n v attrs tel] gauge_succeeds [of m n em v attrs tel]
    by (cases "gauge m em n v attrs tel") (auto simp: all_gauges_def gauge_sigs_def)
qed

lemma run_begin_trace: "run_begin now em c s = (t, s') \<Longrightarrow> gauge_trace n (fst s') = gauge_trace n (fst s)"
  by (auto simp: run_begin_def gauge_trace_spans split: prod.splits)

lemma run_report_trace:
  assumes "all_gauges m" "run_report m now em c t res s = (err, s')"
  shows "gauge_trace MetricCollectorAvailability (fst s') = gauge_trace MetricCollectorAvailability (fst s) @ availability_sigs em c res"
proof -
  have n: "MetricCollectorDuration \<noteq> MetricCollectorAvailability" "MetricCollectorExpectedInterval \<noteq> MetricCollectorAvailability"
    by simp_all
  show ?thesis
    using assms(2) n
    by (auto simp: run_report_def Let_def gauge_trace_spans gauge_trace_snd(1) gauge_trace_snd(2) [OF assms(1)]
        availability_sigs_def run_error_None split: prod.splits)
qed

definition finished_sigs :: "emitter \<Rightarrow> 'w collector list \<Rightarrow> (nat \<times> outcome) list \<Rightarrow> signal list" where
  "finished_sigs em cs h = concat (map (\<lambda>(i, res). availability_sigs em (cs ! i) res) h)"

text \<open>The invariant of the scheduler, for the collectors \<open>cs\<close> and the records before it started.\<close>

definition sched_inv :: "emitter \<Rightarrow> 'w collector list \<Rightarrow> signal list \<Rightarrow> 'w sched \<Rightarrow> bool" where
  "sched_inv em cs before st \<longleftrightarrow>
     length (sc_phases st) = length cs \<and>
     (\<forall>i < length cs. (sc_phases st ! i = Stopped \<longrightarrow> sc_cancelled st) \<and> (sc_phases st ! i = Crashed \<longrightarrow> Interval (cs ! i) \<le> 0)) \<and>
     gauge_trace MetricCollectorAvailability (fst (sc_run st)) = before @ finished_sigs em cs (sc_finished st)"

lemma loop_step_trace:
  assumes "all_gauges m" "leaves_availability em c" "loop_step m now em c cancelled ph s ph' s' h"
  shows "gauge_trace MetricCollectorAvailability (fst s') =
    gauge_trace MetricCollectorAvailability (fst s) @ concat (map (availability_sigs em c) h)"
  using assms(3)
proof cases
  case (collect_run res b t)
  then have "gauge_trace MetricCollectorAvailability (fst s') = gauge_trace MetricCollectorAvailability (fst s)"
    using assms(2) unfolding leaves_availability_def by blast
  with collect_run show ?thesis by simp
next
  case (report_run t res err b)
  from run_report_trace [OF assms(1) report_run(4)] report_run show ?thesis by simp
qed (auto dest: run_begin_trace)

lemma loop_step_phase:
  assumes "loop_step m now em c cancelled ph s ph' s' h"
  shows "ph' = Stopped \<Longrightarrow> cancelled" "ph' = Crashed \<Longrightarrow> Interval c \<le> 0"
  using assms by (cases, auto split: if_splits)+

lemma sched_step_inv:
  assumes "sched_step m now em cs st st'" "all_gauges m" "list_all (leaves_availability em) cs" "sched_inv em cs before st"
  shows "sched_inv em cs before st'"
  using assms(1)
proof cases
  case (goroutine i ph s' h)
  have a: "leaves_availability em (cs ! i)" using assms(3) goroutine(2) by (simp add: list_all_length)
  have "finished_sigs em cs (sc_finished st @ map (Pair i) h) =
      finished_sigs em cs (sc_finished st) @ concat (map (availability_sigs em (cs ! i)) h)"
    by (simp add: finished_sigs_def comp_def)
  then show ?thesis
    using assms(4) goroutine loop_step_trace [OF assms(2) a goroutine(4)] loop_step_phase [OF goroutine(4)]
    by (auto simp: sched_inv_def nth_list_update)
next
  case cancel
  with assms(4) show ?thesis by (auto simp: sched_inv_def)
qed

lemma sched_reach_inv:
  assumes "sched_reach m now em cs s st" "all_gauges m" "list_all (leaves_availability em) cs"
  shows "sched_inv em cs (gauge_trace MetricCollectorAvailability (fst s)) st"
  using assms(1)
proof (induction rule: rtranclp_induct)
  case base
  show ?case by (auto simp: sched_inv_def sched_init_def Entries_def finished_sigs_def)
next
  case (step y z)
  from sched_step_inv [OF step(2) assms(2,3) step(3)] show ?case .
qed

text \<open>
  Scheduler isolation. In every interleaving of the collectors: a collector's goroutine ends only after the context
  is cancelled, whatever its runs and those of the others returned, including panics; the process dies of a ticker only
  when some collector has an interval that is not positive; and the availability records are exactly one per
  finished run and tenant, in the order the runs finished, each 1 exactly when that run succeeded.
\<close>

theorem scheduler_isolation:
  assumes "\<And>st n. Float64Gauge m st n = None" "\<And>c. c \<in> set cs \<Longrightarrow> leaves_availability em c"
    and "sched_reach m now em cs s st"
  shows "(\<forall>i < length cs. sc_phases st ! i = Stopped \<longrightarrow> sc_cancelled st) \<and>
    ((\<forall>c \<in> set cs. Interval c > 0) \<longrightarrow> Crashed \<notin> set (sc_phases st)) \<and>
    gauge_trace MetricCollectorAvailability (fst (sc_run st)) =
      gauge_trace MetricCollectorAvailability (fst s) @ finished_sigs em cs (sc_finished st)"
proof -
  have "all_gauges m" "list_all (leaves_availability em) cs"
    using assms(1,2) by (auto simp: all_gauges_def list_all_iff)
  from sched_reach_inv [OF assms(3) this] show ?thesis
    by (auto simp: sched_inv_def in_set_conv_nth) (metis nth_mem not_less)
qed

section \<open>Shutdown\<close>

lemma set_phase: "i < length cs \<Longrightarrow> Crashed \<notin> set (sc_phases st) \<Longrightarrow> sc_phases st ! i = p \<Longrightarrow>
    loop_step m now em (cs ! i) (sc_cancelled st) p (sc_run st) ph s' h \<Longrightarrow>
    sched_step m now em cs st (st\<lparr>sc_phases := (sc_phases st)[i := ph], sc_run := s', sc_finished := sc_finished st @ map (Pair i) h\<rparr>)"
  by (auto intro: sched_step.goroutine)

text \<open>One goroutine of a cancelled scheduler can reach its end with the others where they are.\<close>

definition advances :: "meter \<Rightarrow> ('w \<Rightarrow> gotime \<times> 'w) \<Rightarrow> emitter \<Rightarrow> 'w collector list \<Rightarrow> nat \<Rightarrow> phase \<Rightarrow> phase \<Rightarrow> bool" where
  "advances m now em cs i p q \<longleftrightarrow> (\<forall>st. sc_cancelled st \<longrightarrow> Crashed \<notin> set (sc_phases st) \<longrightarrow> i < length (sc_phases st) \<longrightarrow>
     sc_phases st ! i = p \<longrightarrow> (\<exists>st'. (sched_step m now em cs)\<^sup>*\<^sup>* st st' \<and> sc_cancelled st' \<and> sc_phases st' = (sc_phases st)[i := q]))"

lemma advances_refl: "advances m now em cs i p p"
  unfolding advances_def by (metis list_update_id rtranclp.rtrancl_refl)

lemma advances_via:
  assumes i: "i < length cs"
    and via: "\<And>s. \<exists>q s' h. loop_step m now em (cs ! i) True p s q s' h \<and> q \<noteq> Crashed \<and> advances m now em cs i q r"
  shows "advances m now em cs i p r"
  unfolding advances_def
proof (intro allI impI)
  fix st :: "'a sched"
  assume st: "sc_cancelled st" "Crashed \<notin> set (sc_phases st)" "i < length (sc_phases st)" "sc_phases st ! i = p"
  from via [of "sc_run st"] obtain q s' h where q: "loop_step m now em (cs ! i) (sc_cancelled st) p (sc_run st) q s' h" "q \<noteq> Crashed"
    "advances m now em cs i q r" using st(1) by auto
  let ?st = "st\<lparr>sc_phases := (sc_phases st)[i := q], sc_run := s', sc_finished := sc_finished st @ map (Pair i) h\<rparr>"
  have s: "sched_step m now em cs st ?st" by (rule set_phase [OF i st(2,4) q(1)])
  have "Crashed \<notin> set (sc_phases ?st)"
    using st(2) q(2) set_update_subset_insert [of "sc_phases st" i q] by auto
  with q(3) [unfolded advances_def, rule_format, of ?st] st
  obtain st' where "(sched_step m now em cs)\<^sup>*\<^sup>* ?st st'" "sc_cancelled st'" "sc_phases st' = (sc_phases ?st)[i := r]"
    by auto
  with s show "\<exists>st'. (sched_step m now em cs)\<^sup>*\<^sup>* st st' \<and> sc_cancelled st' \<and> sc_phases st' = (sc_phases st)[i := r]"
    by (intro exI [of _ st']) (auto intro: converse_rtranclp_into_rtranclp)
qed

lemma advances_stop:
  assumes i: "i < length cs" and pos: "Interval (cs ! i) > 0" and ret: "\<And>s. Collect (cs ! i) em s \<noteq> None" and p: "p \<noteq> Crashed"
  shows "advances m now em cs i p Stopped"
proof -
  let ?a = "advances m now em cs i"
  have 1: "?a Ticking Stopped"
    by (rule advances_via [OF i]) (blast intro: done_received advances_refl)
  have 2: "?a MakingTicker Stopped"
    by (rule advances_via [OF i]) (blast intro: make_ticker [OF pos] 1)
  have 3: "?a (Reporting b t res) Stopped" for b t res
  proof (rule advances_via [OF i])
    fix s
    obtain err s' where "run_report m now em (cs ! i) t res s = (err, s')" by (rule prod.exhaust)
    from report_run [OF this, of True b]
    show "\<exists>q s' h. loop_step m now em (cs ! i) True (Reporting b t res) s q s' h \<and> q \<noteq> Crashed \<and> ?a q Stopped"
      using 1 2 by (intro exI [of _ "if b then Ticking else MakingTicker"] exI [of _ s'] exI [of _ "[res]"]) simp
  qed
  have 4: "?a (Collecting b t) Stopped" for b t
  proof (rule advances_via [OF i])
    fix s
    obtain res s' where "Collect (cs ! i) em s = Some (res, s')" using ret by (metis not_None_eq prod.collapse)
    from collect_run [OF this] 3
    show "\<exists>q s' h. loop_step m now em (cs ! i) True (Collecting b t) s q s' h \<and> q \<noteq> Crashed \<and> ?a q Stopped" by blast
  qed
  have 5: "?a Starting Stopped"
  proof (rule advances_via [OF i])
    fix s
    obtain t s' where "run_begin now em (cs ! i) s = (t, s')" by (rule prod.exhaust)
    from first_run [OF this] 4
    show "\<exists>q s' h. loop_step m now em (cs ! i) True Starting s q s' h \<and> q \<noteq> Crashed \<and> ?a q Stopped" by blast
  qed
  show ?thesis using p 1 2 3 4 5 advances_refl by (cases p) auto
qed

lemma stop_first:
  assumes "\<And>i. i < length cs \<Longrightarrow> Interval (cs ! i) > 0" "\<And>i s. i < length cs \<Longrightarrow> Collect (cs ! i) em s \<noteq> None"
    and "sc_cancelled st" "Crashed \<notin> set (sc_phases st)" "length (sc_phases st) = length cs" "n \<le> length cs"
  shows "\<exists>st'. (sched_step m now em cs)\<^sup>*\<^sup>* st st' \<and> sc_cancelled st' \<and>
    sc_phases st' = replicate n Stopped @ drop n (sc_phases st)"
  using assms(6)
proof (induction n)
  case 0
  then show ?case using assms(3) by auto
next
  case (Suc n)
  then obtain st1 where st1: "(sched_step m now em cs)\<^sup>*\<^sup>* st st1" "sc_cancelled st1" "sc_phases st1 = replicate n Stopped @ drop n (sc_phases st)"
    by auto
  have c: "Crashed \<notin> set (sc_phases st1)" using assms(4) st1(3) by (auto dest: in_set_dropD)
  have n: "n < length cs" "n < length (sc_phases st1)" using Suc.prems st1(3) assms(5) by auto
  then have "sc_phases st1 ! n \<noteq> Crashed" using c by (metis nth_mem)
  from advances_stop [OF n(1) assms(1) [OF n(1)] assms(2) [OF n(1)] this, of m now, unfolded advances_def, rule_format, OF st1(2) c n(2)]
  obtain st2 where st2: "(sched_step m now em cs)\<^sup>*\<^sup>* st1 st2" "sc_cancelled st2" "sc_phases st2 = (sc_phases st1)[n := Stopped]"
    by auto
  have "sc_phases st2 = replicate (Suc n) Stopped @ drop (Suc n) (sc_phases st)"
    using st2(3) st1(3) n assms(5) by (simp add: list_update_append Cons_nth_drop_Suc [symmetric] replicate_append_same)
  with st2 st1 show ?case by (intro exI [of _ st2]) (auto intro: rtranclp_trans)
qed

text \<open>
  C26 (shutdown). With positive intervals and collectors whose runs return, the scheduler can stop from every state it can be
  in once the context is cancelled: there are steps after which every goroutine has ended and \<^verbatim>\<open>Run\<close> returns the
  cancellation; and \<^verbatim>\<open>Run\<close> never returns before that.
\<close>

theorem scheduler_stops:
  assumes "\<And>st n. Float64Gauge m st n = None" "\<And>c. c \<in> set cs \<Longrightarrow> leaves_availability em c"
    and "\<And>c. c \<in> set cs \<Longrightarrow> Interval c > 0" "\<And>c s. c \<in> set cs \<Longrightarrow> Collect c em s \<noteq> None"
    and "cs \<noteq> []" "sched_reach m now em cs s st"
  shows "(\<exists>st'. (sched_step m now em cs)\<^sup>*\<^sup>* st st' \<and> run_returns st' = Some (Some (Msg ''context canceled''))) \<and>
    (sc_cancelled st \<or> run_returns st = None)"
proof -
  have a: "all_gauges m" "list_all (leaves_availability em) cs"
    using assms(1,2) by (auto simp: all_gauges_def list_all_iff)
  have inv: "sched_inv em cs (gauge_trace MetricCollectorAvailability (fst s)) st" by (rule sched_reach_inv [OF assms(6) a])
  have i: "Interval (cs ! i) > 0" "Collect (cs ! i) em s' \<noteq> None" if "i < length cs" for i s'
    using assms(3,4) nth_mem [OF that] by auto
  let ?st = "st\<lparr>sc_cancelled := True\<rparr>"
  have "Crashed \<notin> set (sc_phases ?st)" "length (sc_phases ?st) = length cs"
    using inv i by (auto simp: sched_inv_def in_set_conv_nth) (metis not_less)
  from stop_first [OF i _ this le_refl, of m now] obtain st' where st': "(sched_step m now em cs)\<^sup>*\<^sup>* ?st st'" "sc_cancelled st'"
    "sc_phases st' = replicate (length cs) Stopped" using inv by (auto simp: sched_inv_def)
  have "run_returns st' = Some (Some (Msg ''context canceled''))" using st' by (simp add: run_returns_def list_all_iff)
  moreover have "(sched_step m now em cs)\<^sup>*\<^sup>* st st'" using st'(1) cancel by (rule converse_rtranclp_into_rtranclp [rotated])
  moreover have "sc_cancelled st \<or> run_returns st = None"
    using inv assms(5) by (cases cs) (auto simp: sched_inv_def run_returns_def list_all_length)
  ultimately show ?thesis by blast
qed

section \<open>Example values\<close>

definition ex_panicking :: "nat collector" where
  "ex_panicking = \<lparr>ID = ''p'', Interval = 60000000000, Collect = (\<lambda>em s. Some (Panicked ''boom'', (fst s, snd s + 1)))\<rparr>"

definition ex_ticks :: "nat \<Rightarrow> gotime \<times> nat" where
  "ex_ticks w = (\<lparr>t_unix = int w, t_nsec = 0, t_off = 0\<rparr>, w + 1)"

lemma ex_meter_gauges: "Float64Gauge ex_meter st n = None"
  by (simp add: ex_meter_def)

lemma ex_panicking_quiet: "c \<in> set [ex_panicking] \<Longrightarrow> leaves_availability em c"
  by (simp add: leaves_availability_def ex_panicking_def)

lemma run_once_signals_witness:
  "\<exists>s' d. RunOnce ex_meter ex_ticks ex_emitter ex_panicking (ex_tel, 0) = Some (Some (Msg ''collector p panic: boom''), s') \<and>
    out (fst s') = span_starts ex_emitter ex_panicking @ gauge_sigs ex_emitter MetricCollectorDuration (FSeconds d) (run_attrs ex_panicking) @
      gauge_sigs ex_emitter MetricCollectorAvailability (FNum 0) (run_attrs ex_panicking) @
      gauge_sigs ex_emitter MetricCollectorExpectedInterval (FSeconds 60000000000) (run_attrs ex_panicking) @
      span_ends ex_emitter ex_panicking (Some (Msg ''collector p panic: boom''))"
proof -
  obtain t s1 where b: "run_begin ex_ticks ex_emitter ex_panicking (ex_tel, 0) = (t, s1)" by (rule prod.exhaust)
  have c: "Collect ex_panicking ex_emitter s1 = Some (Panicked ''boom'', (fst s1, snd s1 + 1))" by (simp add: ex_panicking_def)
  have e: "run_error ex_panicking (Panicked ''boom'') = Some (Msg ''collector p panic: boom'')" "Interval ex_panicking = 60000000000"
    by (simp_all add: run_error_def ex_panicking_def)
  from run_once_signals [OF ex_meter_gauges b c, of "[]"] show ?thesis by (simp add: e ex_tel_def)
qed

lemma scheduler_isolation_witness:
  "\<exists>st. sched_reach ex_meter ex_ticks ex_emitter [ex_panicking] (ex_tel, 0) st \<and> sc_finished st = [(0, Panicked ''boom'')] \<and>
    Crashed \<notin> set (sc_phases st) \<and>
    gauge_trace MetricCollectorAvailability (fst (sc_run st)) = availability_sigs ex_emitter ex_panicking (Panicked ''boom'')"
proof -
  let ?R = "sched_step ex_meter ex_ticks ex_emitter [ex_panicking]"
  let ?st = "\<lambda>ph s h. \<lparr>sc_phases = [ph], sc_run = s, sc_cancelled = False, sc_finished = h\<rparr>"
  have step: "?R (?st p s h) (?st p' s' (h @ map (Pair 0) h'))"
    if "loop_step ex_meter ex_ticks ex_emitter ex_panicking False p s p' s' h'" "p \<noteq> Crashed" for p s p' s' h h'
    using goroutine [of 0 "[ex_panicking]" "?st p s h" ex_meter ex_ticks ex_emitter p' s' h'] that by simp
  obtain t s1 where b: "run_begin ex_ticks ex_emitter ex_panicking (ex_tel, 0) = (t, s1)" by (rule prod.exhaust)
  let ?s2 = "(fst s1, snd s1 + 1)"
  obtain e s3 where r: "run_report ex_meter ex_ticks ex_emitter ex_panicking t (Panicked ''boom'') ?s2 = (e, s3)" by (rule prod.exhaust)
  have i: "sched_init (Entries [ex_panicking]) (ex_tel, 0) = ?st Starting (ex_tel, 0) []" by (simp add: sched_init_def Entries_def)
  have "?R (?st Starting (ex_tel, 0) []) (?st (Collecting False t) s1 [])"
    using step [OF first_run [OF b], of "[]"] by simp
  moreover have "?R (?st (Collecting False t) s1 []) (?st (Reporting False t (Panicked ''boom'')) ?s2 [])"
    using step [OF collect_run, of s1 "Panicked ''boom''" ?s2 False t "[]"] by (simp add: ex_panicking_def)
  moreover have "?R (?st (Reporting False t (Panicked ''boom'')) ?s2 []) (?st MakingTicker s3 [(0, Panicked ''boom'')])"
    using step [OF report_run [OF r, of _ False], of "[]"] by simp
  ultimately have reach: "sched_reach ex_meter ex_ticks ex_emitter [ex_panicking] (ex_tel, 0) (?st MakingTicker s3 [(0, Panicked ''boom'')])"
    unfolding i by (meson rtranclp.rtrancl_into_rtrancl rtranclp.rtrancl_refl)
  have "gauge_trace MetricCollectorAvailability (fst s3) = availability_sigs ex_emitter ex_panicking (Panicked ''boom'')"
    using scheduler_isolation [where cs = "[ex_panicking]", OF ex_meter_gauges ex_panicking_quiet reach]
    by (simp add: finished_sigs_def gauge_trace_def ex_tel_def)
  with reach show ?thesis by (intro exI [of _ "?st MakingTicker s3 [(0, Panicked ''boom'')]"]) simp
qed

lemma scheduler_stops_witness:
  "\<exists>st. (sched_step ex_meter ex_ticks ex_emitter [ex_panicking])\<^sup>*\<^sup>* (sched_init [ex_panicking] (ex_tel, 0)) st \<and>
    run_returns st = Some (Some (Msg ''context canceled''))"
proof -
  have p: "Interval c > 0" "Collect c em s \<noteq> None" if "c \<in> set [ex_panicking]" for c em s
    using that by (simp_all add: ex_panicking_def)
  have "sched_reach ex_meter ex_ticks ex_emitter [ex_panicking] (ex_tel, 0) (sched_init [ex_panicking] (ex_tel, 0))"
    by (simp add: Entries_def)
  from scheduler_stops [where cs = "[ex_panicking]", OF ex_meter_gauges ex_panicking_quiet p _ this] show ?thesis by simp
qed

end
