(* ===== verification/StateFiles.thy ===== *)
theory StateFiles
  imports GoJson
begin

text \<open>
  The durable collector state: the small file system the checkpoint code works on and the
  write-to-temporary-then-rename sequence of the two \<^verbatim>\<open>saveWatermark\<close> functions
  (\<^verbatim>\<open>internal/collectors/lenscdr/collector.go\<close> and \<^verbatim>\<open>internal/collectors/phone/calllogs.go\<close>).

  A file is the JSON document its bytes denote, or \<open>Corrupt\<close>. Every operation may fail: the
  failures are the parameter \<open>fs_err\<close>. A save returns its error and every file-system
  state it passes through, the last one being the state it leaves, so that statements about
  a crash between two operations can be made.
\<close>

type_synonym path = "string list"

datatype content = Corrupt | Doc json

type_synonym fs = "path \<rightharpoonup> content"

datatype fs_op =
    ReadFile path
  | MkdirAll path
  | CreateTemp path
  | WriteTemp path
  | ChmodTemp path
  | CloseTemp path
  | RenameTemp path path
  | RemoveTemp path

text \<open>\<open>tmp_rand\<close> is the random number \<^verbatim>\<open>os.CreateTemp\<close> puts for the star of its pattern.\<close>

record fs_env =
  fs_err :: "fs_op \<Rightarrow> goerr option"
  tmp_rand :: "path \<Rightarrow> fs \<Rightarrow> int"

definition temp_path :: "fs_env \<Rightarrow> path \<Rightarrow> fs \<Rightarrow> path" where
  "temp_path env dir f = dir @ [''.watermark-'' @ int_digits (tmp_rand env dir f)]"

definition remove_file :: "fs_env \<Rightarrow> path \<Rightarrow> fs \<Rightarrow> fs" where
  "remove_file env p f = (if fs_err env (RemoveTemp p) = None then f(p := None) else f)"

definition save_doc :: "fs_env \<Rightarrow> path \<Rightarrow> string \<Rightarrow> json \<Rightarrow> fs \<Rightarrow> goerr option \<times> fs list" where
  "save_doc env dir name doc f0 =
     (let target = dir @ [name] in
      case fs_err env (MkdirAll dir) of
        Some e \<Rightarrow> (Some e, [f0])
      | None \<Rightarrow>
      case fs_err env (CreateTemp dir) of
        Some e \<Rightarrow> (Some e, [f0])
      | None \<Rightarrow>
      let tmp = temp_path env dir f0; f1 = f0(tmp \<mapsto> Corrupt) in
      case fs_err env (WriteTemp tmp) of
        Some e \<Rightarrow> (join_errors [Some e, fs_err env (CloseTemp tmp)], [f0, f1, remove_file env tmp f1])
      | None \<Rightarrow>
      let f2 = f1(tmp \<mapsto> Doc doc) in
      case fs_err env (ChmodTemp tmp) of
        Some e \<Rightarrow> (join_errors [Some e, fs_err env (CloseTemp tmp)], [f0, f1, f2, remove_file env tmp f2])
      | None \<Rightarrow>
      case fs_err env (CloseTemp tmp) of
        Some e \<Rightarrow> (Some e, [f0, f1, f2, remove_file env tmp f2])
      | None \<Rightarrow>
      case fs_err env (RenameTemp tmp target) of
        Some e \<Rightarrow> (Some e, [f0, f1, f2, remove_file env tmp f2])
      | None \<Rightarrow>
      let f3 = f2(target \<mapsto> Doc doc, tmp := None) in
      (None, [f0, f1, f2, f3, remove_file env tmp f3]))"

definition read_doc :: "fs_env \<Rightarrow> path \<Rightarrow> fs \<Rightarrow> json option result" where
  "read_doc env p f =
     (case f p of
        None \<Rightarrow> Inr None
      | Some c \<Rightarrow>
          (case fs_err env (ReadFile p) of
             Some e \<Rightarrow> Inl e
           | None \<Rightarrow> (case c of Corrupt \<Rightarrow> Inl (Msg ''invalid JSON'') | Doc j \<Rightarrow> Inr (Some j))))"

text \<open>A temporary name ends in a digit, a checkpoint name in \<^verbatim>\<open>.json\<close>.\<close>

lemma temp_path_not_target: "temp_path env dir f \<noteq> dir @ [h @ ''.json'']"
proof
  assume "temp_path env dir f = dir @ [h @ ''.json'']"
  then have "last (''.watermark-'' @ int_digits (tmp_rand env dir f)) = last (h @ ''.json'')"
    by (simp add: temp_path_def)
  then have "last (int_digits (tmp_rand env dir f)) = CHR ''n''" by simp
  moreover have "is_digit (last (int_digits (tmp_rand env dir f)))"
    using int_digits_digits by (metis int_digits_not_Nil last_in_set list_all_iff)
  ultimately show False by (simp add: char_defs)
qed

lemmas save_doc_splits = option.splits if_splits

lemma save_doc_states_not_Nil [simp]: "snd (save_doc env dir name doc f) \<noteq> []"
  by (simp add: save_doc_def Let_def split: option.splits)

text \<open>At every moment of a save the checkpoint holds its old content or the new document.\<close>

lemma save_doc_old_or_new:
  assumes "g \<in> set (snd (save_doc env dir (h @ ''.json'') doc f))"
  shows "g (dir @ [h @ ''.json'']) = f (dir @ [h @ ''.json'']) \<or> g (dir @ [h @ ''.json'']) = Some (Doc doc)"
proof -
  have "dir @ [h @ ''.json''] \<noteq> temp_path env dir f" using temp_path_not_target [of env dir f h] by simp
  with assms show ?thesis
    unfolding save_doc_def Let_def
    by (cases "fs_err env (MkdirAll dir)"; cases "fs_err env (CreateTemp dir)";
        cases "fs_err env (WriteTemp (temp_path env dir f))";
        cases "fs_err env (ChmodTemp (temp_path env dir f))";
        cases "fs_err env (CloseTemp (temp_path env dir f))";
        cases "fs_err env (RenameTemp (temp_path env dir f) (dir @ [h @ ''.json'']))")
      (auto simp: remove_file_def)
qed

lemma save_doc_ok:
  assumes "save_doc env dir (h @ ''.json'') doc f = (None, gs)"
  shows "last gs (dir @ [h @ ''.json'']) = Some (Doc doc)"
proof -
  have "dir @ [h @ ''.json''] \<noteq> temp_path env dir f" using temp_path_not_target [of env dir f h] by simp
  with assms show ?thesis
    unfolding save_doc_def Let_def
    by (auto simp: remove_file_def join_errors_def split: option.splits if_splits)
qed

lemma save_doc_error:
  assumes "save_doc env dir (h @ ''.json'') doc f = (Some e, gs)"
  shows "last gs (dir @ [h @ ''.json'']) = f (dir @ [h @ ''.json''])"
proof -
  have "dir @ [h @ ''.json''] \<noteq> temp_path env dir f" using temp_path_not_target [of env dir f h] by simp
  with assms show ?thesis
    unfolding save_doc_def Let_def
    by (auto simp: remove_file_def join_errors_def split: option.splits if_splits)
qed

text \<open>A save touches no file but the checkpoint and its temporary file.\<close>

lemma save_doc_frame:
  assumes "g \<in> set (snd (save_doc env dir name doc f))" "p \<noteq> dir @ [name]" "p \<noteq> temp_path env dir f"
  shows "g p = f p"
  using assms unfolding save_doc_def Let_def
  by (auto simp: remove_file_def split: option.splits if_splits)

text \<open>When removing works, no temporary file is left behind, whatever else fails.\<close>

lemma save_doc_no_temp_left:
  assumes "\<And>p. fs_err env (RemoveTemp p) = None" "f (temp_path env dir f) = None"
    and "save_doc env dir name doc f = (r, gs)" "name \<noteq> ''.watermark-'' @ int_digits (tmp_rand env dir f)"
  shows "last gs (temp_path env dir f) = None"
  using assms unfolding save_doc_def Let_def
  by (auto simp: remove_file_def temp_path_def split: option.splits if_splits)

lemma read_after_save:
  assumes "save_doc env dir (h @ ''.json'') doc f = (None, gs)"
    and "fs_err env (ReadFile (dir @ [h @ ''.json''])) = None"
  shows "read_doc env (dir @ [h @ ''.json'']) (last gs) = Inr (Some doc)"
  using save_doc_ok [OF assms(1)] assms(2) by (simp add: read_doc_def)

text \<open>A file system on which nothing fails.\<close>

definition fs_healthy :: "fs_env \<Rightarrow> bool" where
  "fs_healthy fse \<longleftrightarrow> (\<forall>op. fs_err fse op = None)"

lemma save_doc_healthy: "fs_healthy env \<Longrightarrow> \<exists>gs. save_doc env dir name doc f = (None, gs)"
  by (simp add: fs_healthy_def save_doc_def Let_def)

lemma temp_path_not_json: "temp_path fse dir f \<noteq> d @ [h @ ''.json'']"
proof
  assume eq: "temp_path fse dir f = d @ [h @ ''.json'']"
  then have "dir = d" by (simp add: temp_path_def)
  with eq show False using temp_path_not_target by blast
qed

end
