(* ===== verification/Checkpoints.thy ===== *)
theory Checkpoints
  imports GoTime
begin

text \<open>
  What a collector checkpoint promises, independently of its representation. Two collectors
  keep one: \<^verbatim>\<open>lenscdr\<close> (\<^verbatim>\<open>watermark\<close>, \<^verbatim>\<open>isNew\<close>, \<^verbatim>\<open>advanceWatermark\<close>) and the phone call-log
  collector (\<^verbatim>\<open>callLogWatermark\<close>, \<^verbatim>\<open>callLogIsNew\<close>, \<^verbatim>\<open>callLogAdvance\<close>).

  The abstract checkpoint is a \<open>mark\<close>: nothing yet, or the latest instant seen together
  with the keys of the records at that instant. The locale \<open>checkpoint_ops\<close> states the laws of the
  two operations on a representation and proves once that they implement the operations on
  marks.
\<close>

type_synonym mark = "(int \<times> string set) option"

definition mark_fresh :: "mark \<Rightarrow> int \<Rightarrow> bool" where
  "mark_fresh m i = (case m of None \<Rightarrow> True | Some (c, _) \<Rightarrow> c \<le> i)"

definition mark_advance :: "string \<Rightarrow> int \<Rightarrow> mark \<Rightarrow> mark" where
  "mark_advance k i m =
     (case m of
        None \<Rightarrow> Some (i, {k})
      | Some (c, K) \<Rightarrow> if c < i then Some (i, {k}) else if i = c then Some (c, insert k K) else m)"

definition mark_keys :: "mark \<Rightarrow> string set" where
  "mark_keys m = (case m of None \<Rightarrow> {} | Some (_, K) \<Rightarrow> K)"

text \<open>The mark that a stored start time and its keys denote: none when the time is empty or unreadable.\<close>

definition mark_from :: "string \<Rightarrow> string list \<Rightarrow> mark" where
  "mark_from s ks =
     (if s = [] then None
      else (case parse_rfc3339 s of None \<Rightarrow> None | Some c \<Rightarrow> Some (instant c, set ks)))"

text \<open>A record is covered when the mark keeps it from being taken as new again.\<close>

definition covered :: "mark \<Rightarrow> string \<Rightarrow> int \<Rightarrow> bool" where
  "covered m k i = (case m of None \<Rightarrow> False | Some (c, K) \<Rightarrow> i < c \<or> i = c \<and> k \<in> K)"

lemma covered_advance_same [simp]: "covered (mark_advance k i m) k i"
  by (auto simp: covered_def mark_advance_def split: option.splits)

lemma covered_advance: "covered m k i \<Longrightarrow> covered (mark_advance k' i' m) k i"
  by (auto simp: covered_def mark_advance_def split: option.splits if_splits)

lemma covered_not_fresh: "covered m k i \<Longrightarrow> \<not> mark_fresh m i \<or> k \<in> mark_keys m"
  by (auto simp: covered_def mark_fresh_def mark_keys_def split: option.splits)

lemma stale_covered: "\<not> mark_fresh m i \<Longrightarrow> covered m k i"
  by (auto simp: covered_def mark_fresh_def split: option.splits)

text \<open>The latest instant never goes back.\<close>

lemma mark_advance_mono: "\<not> mark_fresh m i \<Longrightarrow> \<not> mark_fresh (mark_advance k' i' m) i"
  by (auto simp: mark_fresh_def mark_advance_def split: option.splits if_splits)

definition marks_key :: "(string \<times> int) list \<Rightarrow> mark \<Rightarrow> mark" where
  "marks_key rows m = fold (\<lambda>(k, i). mark_advance k i) rows m"

lemma marks_key_simps [simp]:
  "marks_key [] m = m"
  "marks_key ((k, i) # rows) m = marks_key rows (mark_advance k i m)"
  by (simp_all add: marks_key_def)

lemma covered_marks_key: "covered m k i \<Longrightarrow> covered (marks_key rows m) k i"
  by (induction rows arbitrary: m) (auto simp: covered_advance)

lemma marks_key_covers: "(k, i) \<in> set rows \<Longrightarrow> covered (marks_key rows m) k i"
proof (induction rows arbitrary: m)
  case (Cons row rows)
  then show ?case
    using covered_marks_key [OF covered_advance_same] by (cases row) auto
qed simp

lemma marks_key_stale: "\<not> mark_fresh m i \<Longrightarrow> \<not> mark_fresh (marks_key rows m) i"
proof (induction rows arbitrary: m)
  case (Cons row rows)
  then show ?case using mark_advance_mono by (cases row) simp
qed simp

locale checkpoint_ops =
  fixes start_time :: "'wm \<Rightarrow> string"
    and keys :: "'wm \<Rightarrow> string list"
    and is_new :: "string \<Rightarrow> gotime \<Rightarrow> 'wm \<Rightarrow> string set \<Rightarrow> bool"
    and advance :: "string \<Rightarrow> gotime \<Rightarrow> 'wm \<Rightarrow> 'wm"
  assumes is_new_none:
      "start_time wm = [] \<or> parse_rfc3339 (start_time wm) = None \<Longrightarrow> is_new k t wm seen \<longleftrightarrow> k \<notin> seen"
    and is_new_some:
      "start_time wm \<noteq> [] \<Longrightarrow> parse_rfc3339 (start_time wm) = Some c \<Longrightarrow>
         is_new k t wm seen \<longleftrightarrow> k \<notin> seen \<and> \<not> time_before t c"
    and advance_none:
      "start_time wm = [] \<or> parse_rfc3339 (start_time wm) = None \<Longrightarrow>
         start_time (advance k t wm) = format_rfc3339 t \<and> keys (advance k t wm) = [k]"
    and advance_after:
      "start_time wm \<noteq> [] \<Longrightarrow> parse_rfc3339 (start_time wm) = Some c \<Longrightarrow> time_after t c \<Longrightarrow>
         start_time (advance k t wm) = format_rfc3339 t \<and> keys (advance k t wm) = [k]"
    and advance_equal:
      "start_time wm \<noteq> [] \<Longrightarrow> parse_rfc3339 (start_time wm) = Some c \<Longrightarrow> time_equal t c \<Longrightarrow>
         start_time (advance k t wm) = start_time wm \<and> keys (advance k t wm) = keys wm @ [k]"
    and advance_before:
      "start_time wm \<noteq> [] \<Longrightarrow> parse_rfc3339 (start_time wm) = Some c \<Longrightarrow> time_before t c \<Longrightarrow>
         start_time (advance k t wm) = start_time wm \<and> keys (advance k t wm) = keys wm"
begin

abbreviation mark_of :: "'wm \<Rightarrow> mark" where
  "mark_of wm \<equiv> mark_from (start_time wm) (keys wm)"

lemma is_new_iff: "is_new k t wm seen \<longleftrightarrow> k \<notin> seen \<and> mark_fresh (mark_of wm) (instant t)"
proof (cases "start_time wm = [] \<or> parse_rfc3339 (start_time wm) = None")
  case True
  then show ?thesis using is_new_none [of wm k t seen]
    by (auto simp: mark_from_def mark_fresh_def split: option.splits)
next
  case False
  then obtain c where "parse_rfc3339 (start_time wm) = Some c" "start_time wm \<noteq> []" by auto
  with is_new_some [of wm c k t seen] show ?thesis
    by (auto simp: mark_from_def mark_fresh_def time_before_def)
qed

lemma mark_of_advance:
  assumes "printable t"
  shows "mark_of (advance k t wm) = mark_advance k (instant t) (mark_of wm)"
proof (cases "start_time wm = [] \<or> parse_rfc3339 (start_time wm) = None")
  case True
  then have "mark_of wm = None" by (auto simp: mark_from_def split: option.splits)
  moreover have "mark_of (advance k t wm) = Some (instant t, {k})"
    using advance_none [OF True, of k t] parse_format_rfc3339 [OF assms] by (auto simp: mark_from_def)
  ultimately show ?thesis by (simp add: mark_advance_def)
next
  case False
  then obtain c where c: "parse_rfc3339 (start_time wm) = Some c" and ne: "start_time wm \<noteq> []" by auto
  then have m: "mark_of wm = Some (instant c, set (keys wm))" by (simp add: mark_from_def)
  consider "time_after t c" | "time_equal t c" | "time_before t c"
    using linorder_less_linear [of "instant t" "instant c"] unfolding time_cmp_defs by blast
  then show ?thesis
  proof cases
    case 1
    with advance_after [OF ne c, of t k] parse_format_rfc3339 [OF assms] m show ?thesis
      by (auto simp: mark_from_def mark_advance_def time_after_def)
  next
    case 2
    with advance_equal [OF ne c, of t k] m c ne show ?thesis
      by (auto simp: mark_from_def mark_advance_def time_equal_def)
  next
    case 3
    with advance_before [OF ne c, of t k] m c ne show ?thesis
      by (auto simp: mark_from_def mark_advance_def time_before_def)
  qed
qed

end

text \<open>
  The key of a record is its device and its start time with a zero byte between them. A
  start time that parses has no zero byte, so the key determines both.
\<close>

definition key_sep :: string where
  "key_sep = [CHR 0x00]"

definition time_char :: "char \<Rightarrow> bool" where
  "time_char c \<longleftrightarrow> is_digit c \<or> c \<in> set ''-:T.,Z+''"

lemma getnum_chars:
  assumes "getnum fixed s = Some (n, r)"
  shows "\<exists>p. s = p @ r \<and> list_all time_char p"
proof -
  from assms obtain c where "(s = c # r \<and> is_digit c) \<or> (\<exists>d. s = c # d # r \<and> is_digit c \<and> is_digit d)"
    by (auto simp: getnum_def split: list.splits if_splits)
  then show ?thesis
    by (elim disjE exE conjE) (rule exI [of _ "[c]"], simp add: time_char_def,
        rule_tac x = "[c, d]" in exI, simp add: time_char_def)
qed

lemma skip_chars: "skip c s = Some r \<Longrightarrow> s = c # r"
  by (auto simp: skip_def split: list.splits if_splits)

lemma parse_year_chars:
  assumes "parse_year s = Some (y, r)" shows "\<exists>p. s = p @ r \<and> list_all time_char p"
proof -
  from assms have "s = take 4 s @ r" "list_all is_digit (take 4 s)"
    by (auto simp: parse_year_def split: if_splits)
  then show ?thesis by (metis list_all_iff time_char_def)
qed

lemma parse_frac_chars:
  assumes "parse_frac s = (n, r)" shows "\<exists>p. s = p @ r \<and> list_all time_char p"
proof (cases "s = r")
  case False
  with assms obtain c d u where s: "s = c # d # u" "c = CHR ''.'' \<or> c = CHR '',''"
    and r: "r = dropWhile is_digit (d # u)"
    by (auto simp: parse_frac_def split: list.splits if_splits)
  then have "s = (c # takeWhile is_digit (d # u)) @ r" by (simp only: append_Cons takeWhile_dropWhile_id)
  moreover have "list_all time_char (c # takeWhile is_digit (d # u))"
    using s by (auto simp: list_all_iff time_char_def dest: set_takeWhileD)
  ultimately show ?thesis by blast
qed (rule exI [of _ "[]"], simp)

text \<open>\<open>eats s r\<close>: the reader has taken a prefix of \<open>s\<close> made of time characters and left \<open>r\<close>.\<close>

definition eats :: "string \<Rightarrow> string \<Rightarrow> bool" where
  "eats s r \<longleftrightarrow> (\<exists>p. s = p @ r \<and> list_all time_char p)"

lemma eats_trans: "eats s r \<Longrightarrow> eats r q \<Longrightarrow> eats s q"
  unfolding eats_def by (metis append_assoc list_all_append)

lemma eats_Nil: "eats s [] \<Longrightarrow> list_all time_char s"
  by (auto simp: eats_def)

lemma skip_eats: "skip c s = Some r \<Longrightarrow> time_char c \<Longrightarrow> eats s r"
  unfolding eats_def by (metis append_Cons append_Nil list.pred_inject skip_chars)

lemmas eats_readers = getnum_chars [folded eats_def] parse_year_chars [folded eats_def]
  parse_frac_chars [folded eats_def]

lemma time_char_seps [simp]:
  "time_char (CHR ''-'')" "time_char (CHR ''T'')" "time_char (CHR '':'')" "time_char (CHR ''Z'')" "time_char (CHR ''+'')"
  by (simp_all add: time_char_def)

lemma parse_civil_eats:
  assumes "parse_civil s = Some (days, sod, ns, r)" shows "eats s r"
proof -
  from assms obtain y s1 s2 mo s3 s4 d s5 s6 h s7 s8 mi s9 s10 sec s11 where
    "parse_year s = Some (y, s1)" "skip (CHR ''-'') s1 = Some s2" "getnum True s2 = Some (mo, s3)"
    "skip (CHR ''-'') s3 = Some s4" "getnum True s4 = Some (d, s5)" "skip (CHR ''T'') s5 = Some s6"
    "getnum False s6 = Some (h, s7)" "skip (CHR '':'') s7 = Some s8" "getnum True s8 = Some (mi, s9)"
    "skip (CHR '':'') s9 = Some s10" "getnum True s10 = Some (sec, s11)" "parse_frac s11 = (ns, r)"
    by (auto simp: parse_civil_def guard_range_def bind_eq_Some_conv Let_def split: if_splits prod.splits)
  then have "eats s s1" "eats s1 s2" "eats s2 s3" "eats s3 s4" "eats s4 s5" "eats s5 s6" "eats s6 s7"
    "eats s7 s8" "eats s8 s9" "eats s9 s10" "eats s10 s11" "eats s11 r"
    by (auto intro: eats_readers skip_eats)
  then show ?thesis by (meson eats_trans)
qed

lemma getnum_two:
  assumes "getnum True [a, b] = Some (n, r)" shows "time_char a" "time_char b"
  using assms by (auto simp: getnum_def time_char_def split: if_splits)

lemma parse_zone_eats:
  assumes "parse_zone s = Some (off, r)" shows "eats s r"
proof (cases "s \<noteq> [] \<and> hd s = CHR ''Z''")
  case True
  then have "s = [CHR ''Z''] @ r" using assms by (cases s) (auto simp: parse_zone_def)
  then show ?thesis unfolding eats_def using time_char_seps by (metis list.pred_inject)
next
  case False
  then have len: "6 \<le> length s" and col: "s ! 3 = CHR '':''"
    using assms by (auto simp: parse_zone_def split: if_splits)
  then obtain a b c d e f u where s: "s = [a, b, c, d, e, f] @ u"
    by (auto simp: Suc_le_length_iff eval_nat_numeral)
  have "hd s = CHR ''+'' \<or> hd s = CHR ''-''" and r: "r = u"
    and n: "\<exists>n q. getnum True [b, c] = Some (n, q)" "\<exists>n q. getnum True [e, f] = Some (n, q)"
    using assms False len by (auto simp: parse_zone_def s bind_eq_Some_conv split: if_splits)
  then have "time_char a" "time_char b" "time_char c" "time_char e" "time_char f" "time_char d"
    using col getnum_two by (auto simp: s)
  then show ?thesis unfolding eats_def s r by (metis list.pred_inject)
qed

lemma parse_rfc3339_chars: "parse_rfc3339 s = Some t \<Longrightarrow> list_all time_char s"
  by (auto simp: parse_rfc3339_def bind_eq_Some_conv split: if_splits
      intro!: eats_Nil dest!: parse_civil_eats parse_zone_eats intro: eats_trans)

lemma parse_in_location_chars: "parse_in_location loc s = Some t \<Longrightarrow> list_all time_char s"
  by (auto simp: parse_in_location_def bind_eq_Some_conv split: if_splits intro!: eats_Nil dest!: parse_civil_eats)

lemma time_char_not_sep: "list_all time_char s \<Longrightarrow> CHR 0x00 \<notin> set s"
  by (auto simp: list_all_iff time_char_def char_defs)

lemma append_sep_inject:
  assumes "a @ x # s = b @ x # t" "x \<notin> set s" "x \<notin> set t"
  shows "a = b \<and> s = t"
proof -
  have "rev s @ x # rev a = rev t @ x # rev b"
    using arg_cong [OF assms(1), of rev] by simp
  moreover have "takeWhile (\<lambda>c. c \<noteq> x) (rev s @ x # rev a) = rev s"
    "takeWhile (\<lambda>c. c \<noteq> x) (rev t @ x # rev b) = rev t"
    using assms by (auto simp: takeWhile_append2 takeWhile_tail)
  ultimately show ?thesis by auto
qed

lemma record_key_inject:
  assumes "d1 @ key_sep @ s1 = d2 @ key_sep @ s2" "list_all time_char s1" "list_all time_char s2"
  shows "d1 = d2 \<and> s1 = s2"
  using append_sep_inject [of d1 "CHR 0x00" s1 d2 s2] assms
  by (simp add: key_sep_def time_char_not_sep)

text \<open>The start time of a key is what follows its last zero byte.\<close>

definition key_start :: "string \<Rightarrow> string" where
  "key_start k = rev (takeWhile (\<lambda>c. c \<noteq> CHR 0x00) (rev k))"

lemma key_start_record:
  assumes "list_all time_char s" shows "key_start (d @ key_sep @ s) = s"
proof -
  have "CHR 0x00 \<notin> set s" using time_char_not_sep [OF assms] .
  then have "takeWhile (\<lambda>c. c \<noteq> CHR 0x00) (rev s @ CHR 0x00 # rev d) = rev s"
    by (subst takeWhile_append2) auto
  then show ?thesis by (simp add: key_start_def key_sep_def)
qed

lemma mark_keys_from: "mark_keys (mark_from s ks) \<subseteq> set ks"
  by (auto simp: mark_keys_def mark_from_def split: option.splits)

end
