(* ===== verification/Paging.thy ===== *)
theory Paging
  imports GoJson
begin

text \<open>
  Two seams the Lens-facing components share. A \<open>query_client\<close> is the read-only query
  interface (\<^verbatim>\<open>LensQuery\<close> in \<^verbatim>\<open>internal/phonetarget/policy.go\<close>, \<^verbatim>\<open>QueryClient\<close> in
  \<^verbatim>\<open>internal/collectors/lenscdr/collector.go\<close>): document and variables in, the data document
  or an error out, with the state \<open>'w\<close> of everything behind it passed through.

  The locale \<open>cursor_loop\<close> is the contract of a \<^verbatim>\<open>for\<close> loop that follows a cursor until a page
  says there is none: the loop may not end, and when it does it has made finitely many
  steps.
\<close>

type_synonym 'w query_client = "string \<Rightarrow> json \<Rightarrow> 'w \<Rightarrow> json result \<times> 'w"

text \<open>
  The data member decoded into the caller's value; an absent or null member leaves it as it
  was declared.
\<close>

definition query_into :: "'a \<Rightarrow> 'a decoder \<Rightarrow> json result \<times> 'w \<Rightarrow> 'a result \<times> 'w" where
  "query_into zero dec p =
     (case p of
        (Inl e, w) \<Rightarrow> (Inl e, w)
      | (Inr j, w) \<Rightarrow>
          if j = JNull then (Inr zero, w)
          else (case dec zero j of
              None \<Rightarrow> (Inl (Wrap ''decode GraphQL data'' (Msg ''json type error'')), w)
            | Some a \<Rightarrow> (Inr a, w)))"

fun run_steps :: "('c \<Rightarrow> 's \<Rightarrow> 'r + ('c \<times> 's)) \<Rightarrow> nat \<Rightarrow> 'c \<Rightarrow> 's \<Rightarrow> 'r option" where
  "run_steps step 0 c s = None"
| "run_steps step (Suc n) c s =
     (case step c s of Inl r \<Rightarrow> Some r | Inr (c', s') \<Rightarrow> run_steps step n c' s')"

lemma run_steps_mono: "run_steps step n c s = Some r \<Longrightarrow> run_steps step (n + k) c s = Some r"
  by (induction n arbitrary: c s) (auto split: sum.splits)

locale cursor_loop =
  fixes step :: "'c \<Rightarrow> 's \<Rightarrow> 'r + ('c \<times> 's)"
    and loop :: "'c \<Rightarrow> 's \<Rightarrow> 'r option"
  assumes loop_unfold: "loop c s = (case step c s of Inl r \<Rightarrow> Some r | Inr (c', s') \<Rightarrow> loop c' s')"
    and loop_finite: "loop c s = Some r \<Longrightarrow> \<exists>n. run_steps step n c s = Some r"
begin

lemma loop_run: "run_steps step n c s = Some r \<Longrightarrow> loop c s = Some r"
proof (induction n arbitrary: c s)
  case (Suc n)
  then show ?case by (subst loop_unfold) (auto split: sum.splits)
qed simp

lemma loop_iff: "loop c s = Some r \<longleftrightarrow> (\<exists>n. run_steps step n c s = Some r)"
  using loop_run loop_finite by blast

text \<open>A cursor that leads back to itself is followed forever.\<close>

lemma loop_diverges:
  assumes "\<And>s. P s \<Longrightarrow> \<exists>s'. step c s = Inr (c, s') \<and> P s'" "P s"
  shows "loop c s = None"
proof -
  have "run_steps step n c s = None" for n
    using assms(2)
  proof (induction n arbitrary: s)
    case (Suc n)
    obtain s' where "step c s = Inr (c, s')" "P s'" using assms(1) [OF Suc.prems] by blast
    with Suc.IH [of s'] show ?case by simp
  qed simp
  then show ?thesis using loop_finite by (metis not_Some_eq)
qed

end

end
