(* ===== verification/LensCDR.thy ===== *)
theory LensCDR
  imports Telemetry StateFiles Checkpoints Paging
begin

text \<open>
  \<^verbatim>\<open>internal/collectors/lenscdr/collector.go\<close>: the collector that emits one log per new Lens
  call-detail record and keeps a watermark file per tenant.

  The model has the record types, the decoders of the GraphQL response, \<^verbatim>\<open>eventTimes\<close>,
  \<^verbatim>\<open>dedupeKey\<close>, \<^verbatim>\<open>isNew\<close>, \<^verbatim>\<open>advanceWatermark\<close>, \<^verbatim>\<open>nonEmpty\<close>, the watermark file operations and
  \<^verbatim>\<open>Collect\<close> with its page loop. The parameters are the query client, the SHA-256 digest in
  hexadecimal, the JSON text of a document and \<^verbatim>\<open>strconv.FormatFloat\<close> of a duration in seconds.
\<close>

section \<open>Data\<close>

record cdr =
  DeviceID :: string
  cdr_MAC :: string
  cdr_StartTime :: string
  EndTime :: string
  CallDirection :: string
  cdr_HardwareModel :: string
  IPAddress :: string
  Protocol :: string
  DisconnectInfo :: string
  RemoteParty :: string
  SoftwareRelease :: string
  UserID :: "string option"
  ProductFamily :: string
  AnsweredSoftphone :: "bool option"
  SoftphoneVersion :: "string option"
  CallRate :: "string option"

definition zero_cdr :: cdr where
  "zero_cdr = \<lparr>DeviceID = [], cdr_MAC = [], cdr_StartTime = [], EndTime = [], CallDirection = [],
     cdr_HardwareModel = [], IPAddress = [], Protocol = [], DisconnectInfo = [], RemoteParty = [],
     SoftwareRelease = [], UserID = None, ProductFamily = [], AnsweredSoftphone = None,
     SoftphoneVersion = None, CallRate = None\<rparr>"

definition dec_cdr :: "cdr decoder" where
  "dec_cdr = dec_struct
     [fld ''deviceId'' dec_string DeviceID (\<lambda>v r. r\<lparr>DeviceID := v\<rparr>),
      fld ''mac'' dec_string cdr_MAC (\<lambda>v r. r\<lparr>cdr_MAC := v\<rparr>),
      fld ''startTime'' dec_string cdr_StartTime (\<lambda>v r. r\<lparr>cdr_StartTime := v\<rparr>),
      fld ''endTime'' dec_string EndTime (\<lambda>v r. r\<lparr>EndTime := v\<rparr>),
      fld ''callDirection'' dec_string CallDirection (\<lambda>v r. r\<lparr>CallDirection := v\<rparr>),
      fld ''hardwareModel'' dec_string cdr_HardwareModel (\<lambda>v r. r\<lparr>cdr_HardwareModel := v\<rparr>),
      fld ''ipAddress'' dec_string IPAddress (\<lambda>v r. r\<lparr>IPAddress := v\<rparr>),
      fld ''protocol'' dec_string Protocol (\<lambda>v r. r\<lparr>Protocol := v\<rparr>),
      fld ''disconnectInfo'' dec_string DisconnectInfo (\<lambda>v r. r\<lparr>DisconnectInfo := v\<rparr>),
      fld ''remoteParty'' dec_string RemoteParty (\<lambda>v r. r\<lparr>RemoteParty := v\<rparr>),
      fld ''softwareRelease'' dec_string SoftwareRelease (\<lambda>v r. r\<lparr>SoftwareRelease := v\<rparr>),
      fld ''userId'' (dec_ptr [] dec_string) UserID (\<lambda>v r. r\<lparr>UserID := v\<rparr>),
      fld ''productFamily'' dec_string ProductFamily (\<lambda>v r. r\<lparr>ProductFamily := v\<rparr>),
      fld ''answeredInSoftphone'' (dec_ptr False dec_bool) AnsweredSoftphone (\<lambda>v r. r\<lparr>AnsweredSoftphone := v\<rparr>),
      fld ''softphoneVersion'' (dec_ptr [] dec_string) SoftphoneVersion (\<lambda>v r. r\<lparr>SoftphoneVersion := v\<rparr>),
      fld ''callRate'' (dec_ptr [] dec_string) CallRate (\<lambda>v r. r\<lparr>CallRate := v\<rparr>)]"

definition json_ptr :: "('a \<Rightarrow> json) \<Rightarrow> 'a option \<Rightarrow> json" where
  "json_ptr f p = (case p of None \<Rightarrow> JNull | Some a \<Rightarrow> f a)"

definition cdr_json :: "cdr \<Rightarrow> json" where
  "cdr_json r = JObj
     [(''deviceId'', JStr (DeviceID r)), (''mac'', JStr (cdr_MAC r)), (''startTime'', JStr (cdr_StartTime r)),
      (''endTime'', JStr (EndTime r)), (''callDirection'', JStr (CallDirection r)),
      (''hardwareModel'', JStr (cdr_HardwareModel r)), (''ipAddress'', JStr (IPAddress r)),
      (''protocol'', JStr (Protocol r)), (''disconnectInfo'', JStr (DisconnectInfo r)),
      (''remoteParty'', JStr (RemoteParty r)), (''softwareRelease'', JStr (SoftwareRelease r)),
      (''userId'', json_ptr JStr (UserID r)), (''productFamily'', JStr (ProductFamily r)),
      (''answeredInSoftphone'', json_ptr JBool (AnsweredSoftphone r)),
      (''softphoneVersion'', json_ptr JStr (SoftphoneVersion r)), (''callRate'', json_ptr JStr (CallRate r))]"

record page_info =
  HasNextPage :: bool
  EndCursor :: "string option"

record cdr_page =
  PageInfo :: page_info
  Edges :: "cdr list"

definition zero_page :: cdr_page where
  "zero_page = \<lparr>PageInfo = \<lparr>HasNextPage = False, EndCursor = None\<rparr>, Edges = []\<rparr>"

definition dec_page_info :: "page_info decoder" where
  "dec_page_info = dec_struct
     [fld ''hasNextPage'' dec_bool HasNextPage (\<lambda>v p. p\<lparr>HasNextPage := v\<rparr>),
      fld ''endCursor'' (dec_ptr [] dec_string) EndCursor (\<lambda>v p. p\<lparr>EndCursor := v\<rparr>)]"

definition dec_edge :: "cdr decoder" where
  "dec_edge = dec_struct [fld ''node'' dec_cdr (\<lambda>r. r) (\<lambda>v r. v)]"

definition dec_response :: "cdr_page decoder" where
  "dec_response = dec_struct
     [fld ''meetingRecordLists''
        (dec_struct
           [fld ''pageInfo'' dec_page_info PageInfo (\<lambda>v p. p\<lparr>PageInfo := v\<rparr>),
            fld ''edges'' (dec_list zero_cdr dec_edge) Edges (\<lambda>v p. p\<lparr>Edges := v\<rparr>)])
        (\<lambda>r. r) (\<lambda>v r. v)]"

record watermark =
  StartTime :: string
  Keys :: "string list"

definition zero_watermark :: watermark where
  "zero_watermark = \<lparr>StartTime = [], Keys = []\<rparr>"

definition dec_watermark :: "watermark decoder" where
  "dec_watermark = dec_struct
     [fld ''start_time'' dec_string StartTime (\<lambda>v w. w\<lparr>StartTime := v\<rparr>),
      fld ''keys'' (dec_list [] dec_string) Keys (\<lambda>v w. w\<lparr>Keys := v\<rparr>)]"

definition watermark_json :: "watermark \<Rightarrow> json" where
  "watermark_json w =
     JObj [(''start_time'', JStr (StartTime w)), (''keys'', if Keys w = [] then JNull else JArr (map JStr (Keys w)))]"

section \<open>Operations\<close>

definition collectorID :: string where
  "collectorID = ''lens.cdr''"

definition cdr_query :: string where
  "cdr_query = join [CHR 0x0A]
     [''query MeetingRecordLists($tenantID: String!, $after: String) {'',
      ''  meetingRecordLists(tenantId: [$tenantID], meetingRecordType: [CDR], timeRange: {relativeRange: {increment: DAY, value: 2}}, first: 100, after: $after) {'',
      ''    pageInfo { hasNextPage endCursor }'',
      ''    edges { node { deviceId mac startTime endTime callDirection protocol disconnectInfo remoteParty hardwareModel ipAddress softwareRelease userId productFamily answeredInSoftphone softphoneVersion callRate } }'',
      ''  }'',
      ''}'']"

definition eventTimes :: "cdr \<Rightarrow> (gotime \<times> gotime) option" where
  "eventTimes row =
     (case parse_rfc3339 (cdr_StartTime row) of
        None \<Rightarrow> None
      | Some start \<Rightarrow>
          (case parse_rfc3339 (EndTime row) of None \<Rightarrow> None | Some end' \<Rightarrow> Some (start, end')))"

definition dedupeKey :: "string \<Rightarrow> string \<Rightarrow> string" where
  "dedupeKey deviceID startTime = deviceID @ key_sep @ startTime"

definition isNew :: "string \<Rightarrow> gotime \<Rightarrow> watermark \<Rightarrow> string set \<Rightarrow> bool" where
  "isNew key start wm seen =
     (if key \<in> seen then False
      else if StartTime wm = [] then True
      else (case parse_rfc3339 (StartTime wm) of
          None \<Rightarrow> True
        | Some checkpoint \<Rightarrow>
            if time_after start checkpoint then True
            else if time_before start checkpoint then False else True))"

definition advanceWatermark :: "string \<Rightarrow> gotime \<Rightarrow> watermark \<Rightarrow> watermark" where
  "advanceWatermark key start wm =
     (if StartTime wm = [] then \<lparr>StartTime = format_rfc3339 start, Keys = [key]\<rparr>
      else (case parse_rfc3339 (StartTime wm) of
          None \<Rightarrow> \<lparr>StartTime = format_rfc3339 start, Keys = [key]\<rparr>
        | Some checkpoint \<Rightarrow>
            if time_after start checkpoint then \<lparr>StartTime = format_rfc3339 start, Keys = [key]\<rparr>
            else if time_equal start checkpoint then wm\<lparr>Keys := Keys wm @ [key]\<rparr> else wm))"

definition nonEmpty :: "attr list \<Rightarrow> attr list" where
  "nonEmpty attrs = filter (\<lambda>a. attr_value a \<noteq> []) attrs"

record cdr_env =
  sha256hex :: "string \<Rightarrow> string"
  render :: "json \<Rightarrow> string"
  format_seconds :: "int \<Rightarrow> string"

record cdr_collector =
  stateDir :: string
  tenantID :: string
  interval :: int

definition watermark_dir :: "cdr_collector \<Rightarrow> path" where
  "watermark_dir c = [stateDir c, collectorID]"

definition watermark_name :: "cdr_env \<Rightarrow> cdr_collector \<Rightarrow> string" where
  "watermark_name env c = sha256hex env (tenantID c) @ ''.json''"

definition watermarkPath :: "cdr_env \<Rightarrow> cdr_collector \<Rightarrow> path" where
  "watermarkPath env c = watermark_dir c @ [watermark_name env c]"

definition loadWatermark :: "cdr_env \<Rightarrow> fs_env \<Rightarrow> cdr_collector \<Rightarrow> fs \<Rightarrow> watermark result" where
  "loadWatermark env fse c f =
     (case read_doc fse (watermarkPath env c) f of
        Inl e \<Rightarrow> Inl e
      | Inr None \<Rightarrow> Inr zero_watermark
      | Inr (Some j) \<Rightarrow>
          (case dec_watermark zero_watermark j of None \<Rightarrow> Inl (Msg ''json type error'') | Some wm \<Rightarrow> Inr wm))"

definition saveWatermark :: "cdr_env \<Rightarrow> fs_env \<Rightarrow> cdr_collector \<Rightarrow> watermark \<Rightarrow> fs \<Rightarrow> goerr option \<times> fs list" where
  "saveWatermark env fse c wm f =
     save_doc fse (watermark_dir c) (watermark_name env c) (watermark_json wm) f"

text \<open>
  The state of a run: the watermark being advanced, the keys seen, the telemetry and the state
  behind the query client.
\<close>

record 'w cdr_run =
  run_wm :: watermark
  run_seen :: "string set"
  run_tel :: instruments
  run_net :: 'w

definition cdr_attrs :: "cdr_env \<Rightarrow> cdr \<Rightarrow> gotime \<Rightarrow> gotime \<Rightarrow> attr list" where
  "cdr_attrs env row start end' =
     [Attr AttrDeviceID (DeviceID row), Attr AttrDeviceMAC (cdr_MAC row),
      Attr AttrDeviceModel (cdr_HardwareModel row), Attr AttrNetHostIP (IPAddress row),
      Attr AttrDirection (CallDirection row),
      Attr AttrDurationSeconds (format_seconds env (time_sub end' start))]"

text \<open>The body of the loop over the edges of a page; the errors of the counters are dropped.\<close>

definition process_edge :: "cdr_env \<Rightarrow> meter \<Rightarrow> emitter \<Rightarrow> watermark \<Rightarrow> cdr \<Rightarrow> 'w cdr_run \<Rightarrow> goerr option \<times> 'w cdr_run" where
  "process_edge env m em checkpoint row st =
     (let st = st\<lparr>run_tel := snd (counter m em MetricIngestSourceRecords (FNum 1) [Attr AttrCollectorID collectorID] (run_tel st))\<rparr> in
      case eventTimes row of
        None \<Rightarrow> (None, st)
      | Some (start, end') \<Rightarrow>
          let key = dedupeKey (DeviceID row) (cdr_StartTime row) in
          if \<not> isNew key start checkpoint (run_seen st) then (None, st)
          else (case log_event em EventLensCDR (render env (cdr_json row)) start (nonEmpty (cdr_attrs env row start end')) (run_tel st) of
              (Some e, tel) \<Rightarrow> (Some (Wrap ''emit CDR log'' e), st\<lparr>run_tel := tel\<rparr>)
            | (None, tel) \<Rightarrow>
                (None, st\<lparr>run_tel := snd (counter m em MetricIngestEmittedPoints (FNum 1) [Attr AttrCollectorID collectorID] tel),
                          run_wm := advanceWatermark key start (run_wm st),
                          run_seen := insert key (run_seen st)\<rparr>)))"

fun process_edges :: "cdr_env \<Rightarrow> meter \<Rightarrow> emitter \<Rightarrow> watermark \<Rightarrow> cdr list \<Rightarrow> 'w cdr_run \<Rightarrow> goerr option \<times> 'w cdr_run" where
  "process_edges env m em checkpoint [] st = (None, st)"
| "process_edges env m em checkpoint (row # rows) st =
     (case process_edge env m em checkpoint row st of
        (Some e, st') \<Rightarrow> (Some e, st')
      | (None, st') \<Rightarrow> process_edges env m em checkpoint rows st')"

definition cdr_vars :: "string \<Rightarrow> string option \<Rightarrow> json" where
  "cdr_vars tid after = JObj [(''after'', json_ptr JStr after), (''tenantID'', JStr tid)]"

definition fetch_page :: "'w query_client \<Rightarrow> string \<Rightarrow> string option \<Rightarrow> 'w \<Rightarrow> cdr_page result \<times> 'w" where
  "fetch_page q tid after w = query_into zero_page dec_response (q cdr_query (cdr_vars tid after) w)"

text \<open>One turn of the page loop: \<open>Inl\<close> ends it with its error, \<open>Inr\<close> goes on with the next cursor.\<close>

definition cdr_step :: "cdr_env \<Rightarrow> 'w query_client \<Rightarrow> meter \<Rightarrow> emitter \<Rightarrow> string \<Rightarrow> watermark \<Rightarrow>
    string option \<Rightarrow> 'w cdr_run \<Rightarrow> (goerr option \<times> 'w cdr_run) + (string option \<times> 'w cdr_run)" where
  "cdr_step env q m em tid checkpoint after st =
     (case fetch_page q tid after (run_net st) of
        (Inl e, w) \<Rightarrow> Inl (Some (Wrap ''query Lens CDRs'' e), st\<lparr>run_net := w\<rparr>)
      | (Inr page, w) \<Rightarrow>
          (case process_edges env m em checkpoint (Edges page) (st\<lparr>run_net := w\<rparr>) of
             (Some e, st') \<Rightarrow> Inl (Some e, st')
           | (None, st') \<Rightarrow>
               if \<not> HasNextPage (PageInfo page) then Inl (None, st')
               else (case EndCursor (PageInfo page) of
                   None \<Rightarrow> Inl (Some (Msg ''lens CDR pagination reported another page without endCursor''), st')
                 | Some cur \<Rightarrow>
                     if cur = [] then Inl (Some (Msg ''lens CDR pagination reported another page without endCursor''), st')
                     else Inr (Some cur, st'))))"

partial_function (option) cdr_loop :: "cdr_env \<Rightarrow> 'w query_client \<Rightarrow> meter \<Rightarrow> emitter \<Rightarrow> string \<Rightarrow> watermark \<Rightarrow>
    string option \<Rightarrow> 'w cdr_run \<Rightarrow> (goerr option \<times> 'w cdr_run) option" where
  "cdr_loop env q m em tid checkpoint after st =
     (case cdr_step env q m em tid checkpoint after st of
        Inl r \<Rightarrow> Some r
      | Inr p \<Rightarrow> cdr_loop env q m em tid checkpoint (fst p) (snd p))"

text \<open>\<^verbatim>\<open>Collect\<close>: the error it returns, the telemetry, the query client's state and the files.\<close>

definition collect :: "cdr_env \<Rightarrow> fs_env \<Rightarrow> 'w query_client option \<Rightarrow> meter \<Rightarrow> cdr_collector \<Rightarrow> emitter \<Rightarrow>
    instruments \<Rightarrow> 'w \<Rightarrow> fs \<Rightarrow> (goerr option \<times> instruments \<times> 'w \<times> fs) option" where
  "collect env fse client m c em tel w f =
     (case client of
        None \<Rightarrow> Some (Some (Msg ''lens CDR client is required''), tel, w, f)
      | Some q \<Rightarrow>
          (case loadWatermark env fse c f of
             Inl e \<Rightarrow> Some (Some (Wrap ''load CDR watermark'' e), tel, w, f)
           | Inr wm \<Rightarrow>
               let em' = with_tenant (tenantID c) em in
               (case cdr_loop env q m em' (tenantID c) wm None
                       \<lparr>run_wm = wm, run_seen = set (Keys wm), run_tel = tel, run_net = w\<rparr> of
                  None \<Rightarrow> None
                | Some (Some e, st) \<Rightarrow> Some (Some e, run_tel st, run_net st, f)
                | Some (None, st) \<Rightarrow>
                    (case saveWatermark env fse c (run_wm st) f of
                       (None, fs) \<Rightarrow> Some (None, run_tel st, run_net st, last fs)
                     | (Some e, fs) \<Rightarrow>
                         Some (Some (Wrap ''persist CDR watermark'' e),
                           snd (counter m em' MetricCheckpointPersistErrors (FNum 1) [Attr AttrCollectorID collectorID] (run_tel st)),
                           run_net st, last fs)))))"

section \<open>The watermark\<close>

lemma field_of_Cons:
  "field_of (f # fs) (fst f) = Some (snd f)"
  by (simp add: field_of_def)

lemma dec_watermark_json: "dec_watermark zero_watermark (watermark_json w) = Some w"
  by (cases w) (simp add: dec_watermark_def watermark_json_def dec_struct_def fld_def field_of_def
      zero_watermark_def go_simps dec_list_def)

interpretation cdr_mark: checkpoint_ops StartTime Keys isNew advanceWatermark
  by unfold_locales
    (auto simp: isNew_def advanceWatermark_def time_cmp_defs split: option.splits)

abbreviation wm_mark :: "watermark \<Rightarrow> mark" where
  "wm_mark wm \<equiv> mark_from (StartTime wm) (Keys wm)"

lemma load_after_save:
  assumes "saveWatermark env fse c wm f = (None, fs)" "fs_err fse (ReadFile (watermarkPath env c)) = None"
  shows "loadWatermark env fse c (last fs) = Inr wm"
  using read_after_save [of fse "watermark_dir c" "sha256hex env (tenantID c)" "watermark_json wm" f fs] assms
  by (simp add: saveWatermark_def watermark_name_def watermarkPath_def loadWatermark_def dec_watermark_json)

section \<open>The page loop\<close>

lemma cdr_loop_finite:
  assumes "cdr_loop env q m em tid ck after st = Some r"
  shows "\<exists>n. run_steps (cdr_step env q m em tid ck) n after st = Some r"
proof (rule cdr_loop.raw_induct
    [where P = "\<lambda>env q m em tid ck after st r. \<exists>n. run_steps (cdr_step env q m em tid ck) n after st = Some r", OF _ assms])
  fix loop :: "cdr_env \<Rightarrow> 'a query_client \<Rightarrow> meter \<Rightarrow> emitter \<Rightarrow> string \<Rightarrow> watermark \<Rightarrow> string option \<Rightarrow> 'a cdr_run \<Rightarrow>
      (goerr option \<times> 'a cdr_run) option"
    and env q m em tid ck after st r
  assume IH: "\<And>env q m em tid ck after st r. loop env q m em tid ck after st = Some r \<Longrightarrow>
      \<exists>n. run_steps (cdr_step env q m em tid ck) n after st = Some r"
    and eq: "(case cdr_step env q m em tid ck after st of Inl r \<Rightarrow> Some r
        | Inr p \<Rightarrow> loop env q m em tid ck (fst p) (snd p)) = Some r"
  show "\<exists>n. run_steps (cdr_step env q m em tid ck) n after st = Some r"
  proof (cases "cdr_step env q m em tid ck after st")
    case (Inl x)
    with eq show ?thesis by (intro exI [of _ 1]) simp
  next
    case (Inr p)
    with eq IH obtain n where "run_steps (cdr_step env q m em tid ck) n (fst p) (snd p) = Some r"
      by (metis sum.simps(6))
    with Inr show ?thesis by (intro exI [of _ "Suc n"]) (simp add: case_prod_unfold)
  qed
qed

interpretation cdr_pages: cursor_loop "cdr_step env q m em tid ck" "cdr_loop env q m em tid ck"
  for env q m em tid ck
proof
  show "cdr_loop env q m em tid ck c s =
      (case cdr_step env q m em tid ck c s of Inl r \<Rightarrow> Some r | Inr (c', s') \<Rightarrow> cdr_loop env q m em tid ck c' s')" for c s
    by (subst cdr_loop.simps) (simp add: case_prod_unfold split: sum.splits)
qed (rule cdr_loop_finite)

section \<open>What a page's edges do\<close>

definition row_key :: "cdr \<Rightarrow> string" where
  "row_key row = dedupeKey (DeviceID row) (cdr_StartTime row)"

definition row_start :: "cdr \<Rightarrow> gotime option" where
  "row_start row = map_option fst (eventTimes row)"

text \<open>
  The rows a run is to emit: those with readable times not before the checkpoint, the first of
  each key, and no key the watermark already holds.
\<close>

definition eligible :: "mark \<Rightarrow> cdr \<Rightarrow> bool" where
  "eligible mk row = (case row_start row of None \<Rightarrow> False | Some t \<Rightarrow> mark_fresh mk (instant t))"

definition selected :: "mark \<Rightarrow> string set \<Rightarrow> cdr list \<Rightarrow> cdr list" where
  "selected mk seen rows = distinct_by row_key seen (filter (eligible mk) rows)"

definition row_logs :: "cdr_env \<Rightarrow> emitter \<Rightarrow> cdr \<Rightarrow> signal list" where
  "row_logs env em row =
     (case eventTimes row of
        None \<Rightarrow> []
      | Some (start, end') \<Rightarrow>
          map (\<lambda>base. LogRecord (render env (cdr_json row)) start
            (Attr AttrEventName EventLensCDR # base @ nonEmpty (cdr_attrs env row start end'))) (scoped em))"

definition advance_row :: "cdr \<Rightarrow> watermark \<Rightarrow> watermark" where
  "advance_row row wm = (case row_start row of None \<Rightarrow> wm | Some t \<Rightarrow> advanceWatermark (row_key row) t wm)"

definition nonzero_row :: "cdr \<Rightarrow> bool" where
  "nonzero_row row = (case row_start row of None \<Rightarrow> True | Some t \<Rightarrow> \<not> is_zero t)"

lemma process_edge_skip:
  assumes "\<not> (eligible (wm_mark ck) row \<and> row_key row \<notin> run_seen st)"
  shows "\<exists>tel. process_edge env m em ck row st = (None, st\<lparr>run_tel := tel\<rparr>) \<and> logs tel = logs (run_tel st)"
  using assms
  by (auto simp: process_edge_def Let_def eligible_def row_start_def row_key_def cdr_mark.is_new_iff trace_simps
      split: option.splits prod.splits)

lemma process_edge_emit:
  assumes "eligible (wm_mark ck) row" "row_key row \<notin> run_seen st" "nonzero_row row"
  shows "\<exists>tel. process_edge env m em ck row st =
      (None, st\<lparr>run_tel := tel, run_wm := advance_row row (run_wm st), run_seen := insert (row_key row) (run_seen st)\<rparr>) \<and>
    logs tel = logs (run_tel st) @ row_logs env em row"
proof -
  from assms(1) obtain t e where t: "eventTimes row = Some (t, e)" "mark_fresh (wm_mark ck) (instant t)"
    by (auto simp: eligible_def row_start_def split: option.splits)
  then have rs: "row_start row = Some t" and nz: "\<not> is_zero t"
    using assms(3) by (auto simp: row_start_def nonzero_row_def)
  let ?tel = "snd (counter m em MetricIngestSourceRecords (FNum 1) [Attr AttrCollectorID collectorID] (run_tel st))"
  obtain tel' where l: "log_event em EventLensCDR (render env (cdr_json row)) t (nonEmpty (cdr_attrs env row t e)) ?tel = (None, tel')"
    using log_event_succeeds [OF nz] by (metis prod.collapse)
  show ?thesis
    using logs_log_event [OF l] assms(2) t l rs
    by (auto simp: process_edge_def Let_def row_key_def cdr_mark.is_new_iff trace_simps row_logs_def advance_row_def)
qed

lemma process_edges_spec:
  assumes "\<forall>row \<in> set rows. nonzero_row row"
  shows "\<exists>tel. process_edges env m em ck rows st =
      (None, st\<lparr>run_tel := tel, run_wm := fold advance_row (selected (wm_mark ck) (run_seen st) rows) (run_wm st),
                run_seen := run_seen st \<union> row_key ` set (selected (wm_mark ck) (run_seen st) rows)\<rparr>) \<and>
    logs tel = logs (run_tel st) @ concat (map (row_logs env em) (selected (wm_mark ck) (run_seen st) rows))"
  using assms
proof (induction rows arbitrary: st)
  case Nil
  show ?case by (rule exI [of _ "run_tel st"]) (simp add: selected_def)
next
  case (Cons row rows)
  let ?mk = "wm_mark ck"
  show ?case
  proof (cases "eligible ?mk row \<and> row_key row \<notin> run_seen st")
    case False
    from process_edge_skip [OF False] obtain tel where
      p: "process_edge env m em ck row st = (None, st\<lparr>run_tel := tel\<rparr>)" "logs tel = logs (run_tel st)" by blast
    moreover have "selected ?mk (run_seen st) (row # rows) = selected ?mk (run_seen st) rows"
      using False by (auto simp: selected_def)
    ultimately show ?thesis using Cons.IH [of "st\<lparr>run_tel := tel\<rparr>"] Cons.prems by auto
  next
    case True
    with Cons.prems obtain tel where
      p: "process_edge env m em ck row st =
        (None, st\<lparr>run_tel := tel, run_wm := advance_row row (run_wm st), run_seen := insert (row_key row) (run_seen st)\<rparr>)"
      and l: "logs tel = logs (run_tel st) @ row_logs env em row"
      using process_edge_emit [of ck row st env m em] by auto
    have s: "selected ?mk (run_seen st) (row # rows) = row # selected ?mk (insert (row_key row) (run_seen st)) rows"
      using True by (auto simp: selected_def)
    let ?st = "st\<lparr>run_tel := tel, run_wm := advance_row row (run_wm st), run_seen := insert (row_key row) (run_seen st)\<rparr>"
    from Cons.IH [of ?st] Cons.prems obtain tel' where
      "process_edges env m em ck rows ?st =
        (None, ?st\<lparr>run_tel := tel', run_wm := fold advance_row (selected ?mk (run_seen ?st) rows) (run_wm ?st),
           run_seen := run_seen ?st \<union> row_key ` set (selected ?mk (run_seen ?st) rows)\<rparr>)"
      "logs tel' = logs tel @ concat (map (row_logs env em) (selected ?mk (run_seen ?st) rows))" by auto
    with p l s show ?thesis by auto
  qed
qed

section \<open>The pages of a run\<close>

inductive serves :: "'w query_client \<Rightarrow> string \<Rightarrow> string option \<Rightarrow> 'w \<Rightarrow> cdr list \<Rightarrow> 'w \<Rightarrow> bool"
  for q tid where
  serves_last: "fetch_page q tid after w = (Inr page, w') \<Longrightarrow> \<not> HasNextPage (PageInfo page) \<Longrightarrow>
     serves q tid after w (Edges page) w'"
| serves_more: "fetch_page q tid after w = (Inr page, w') \<Longrightarrow> HasNextPage (PageInfo page) \<Longrightarrow>
     EndCursor (PageInfo page) = Some cur \<Longrightarrow> cur \<noteq> [] \<Longrightarrow> serves q tid (Some cur) w' rows w'' \<Longrightarrow>
     serves q tid after w (Edges page @ rows) w''"

lemma selected_append:
  "selected mk seen (xs @ ys) = selected mk seen xs @ selected mk (seen \<union> row_key ` set (selected mk seen xs)) ys"
  by (simp add: selected_def distinct_by_append)

definition processed :: "mark \<Rightarrow> cdr list \<Rightarrow> instruments \<Rightarrow> 'w \<Rightarrow> 'w cdr_run \<Rightarrow> 'w cdr_run" where
  "processed mk rows tel w st =
     \<lparr>run_wm = fold advance_row (selected mk (run_seen st) rows) (run_wm st),
      run_seen = run_seen st \<union> row_key ` set (selected mk (run_seen st) rows), run_tel = tel, run_net = w\<rparr>"

lemma processed_append:
  "processed mk ys tel w (processed mk xs tel' w' st) = processed mk (xs @ ys) tel w st"
  by (simp add: processed_def selected_append image_Un Un_assoc)

lemma process_page:
  assumes "\<forall>row \<in> set rows. nonzero_row row"
  obtains tel where
    "process_edges env m em ck rows (st\<lparr>run_net := w\<rparr>) = (None, processed (wm_mark ck) rows tel w st)"
    "logs tel = logs (run_tel st) @ concat (map (row_logs env em) (selected (wm_mark ck) (run_seen st) rows))"
  using process_edges_spec [OF assms, of env m em ck "st\<lparr>run_net := w\<rparr>"]
  by (cases st) (auto simp: processed_def)

lemma cdr_loop_serves:
  assumes "serves q tid after w rows w'" "\<forall>row \<in> set rows. nonzero_row row" "run_net st = w"
  shows "\<exists>tel. cdr_loop env q m em tid ck after st = Some (None, processed (wm_mark ck) rows tel w' st) \<and>
    logs tel = logs (run_tel st) @ concat (map (row_logs env em) (selected (wm_mark ck) (run_seen st) rows))"
  using assms
proof (induction arbitrary: st)
  case (serves_last after w page w')
  then obtain tel where
    "process_edges env m em ck (Edges page) (st\<lparr>run_net := w'\<rparr>) = (None, processed (wm_mark ck) (Edges page) tel w' st)"
    "logs tel = logs (run_tel st) @ concat (map (row_logs env em) (selected (wm_mark ck) (run_seen st) (Edges page)))"
    by (blast intro: process_page [of "Edges page" env m em ck w' st])
  with serves_last show ?case
    by (subst cdr_pages.loop_unfold) (auto simp: cdr_step_def)
next
  case (serves_more after w page w' cur rows w'')
  let ?mk = "wm_mark ck"
  obtain tel where
    p: "process_edges env m em ck (Edges page) (st\<lparr>run_net := w'\<rparr>) = (None, processed ?mk (Edges page) tel w' st)"
    "logs tel = logs (run_tel st) @ concat (map (row_logs env em) (selected ?mk (run_seen st) (Edges page)))"
    using serves_more.prems by (auto intro: process_page [of "Edges page" env m em ck w' st])
  let ?st = "processed ?mk (Edges page) tel w' st"
  have st: "run_net ?st = w'" "run_tel ?st = tel"
    "run_seen ?st = run_seen st \<union> row_key ` set (selected ?mk (run_seen st) (Edges page))"
    by (simp_all add: processed_def)
  from serves_more.IH [of ?st] serves_more.prems st obtain tel' where
    l: "cdr_loop env q m em tid ck (Some cur) ?st = Some (None, processed ?mk rows tel' w'' ?st)"
    and t: "logs tel' = logs tel @ concat (map (row_logs env em) (selected ?mk (run_seen ?st) rows))"
    by auto
  have "cdr_loop env q m em tid ck after st = cdr_loop env q m em tid ck (Some cur) ?st"
    using serves_more p by (subst cdr_pages.loop_unfold) (simp add: cdr_step_def)
  with l t p(2) st show ?case by (auto simp: processed_append selected_append)
qed

section \<open>The invariant of a watermark\<close>

text \<open>
  Every key a watermark holds is the key of a record that starts at the checkpoint. The start
  time of a key is what follows its last zero byte.
\<close>

definition wm_ok :: "watermark \<Rightarrow> bool" where
  "wm_ok wm =
     (case wm_mark wm of
        None \<Rightarrow> Keys wm = []
      | Some (c, K) \<Rightarrow>
          list_all (\<lambda>k. case parse_rfc3339 (key_start k) of None \<Rightarrow> False | Some t \<Rightarrow> instant t = c) (Keys wm))"

lemma key_start_dedupeKey: "parse_rfc3339 s = Some t \<Longrightarrow> key_start (dedupeKey d s) = s"
  unfolding dedupeKey_def by (rule key_start_record) (rule parse_rfc3339_chars)

lemma row_start_parse: "row_start row = Some t \<Longrightarrow> parse_rfc3339 (cdr_StartTime row) = Some t"
  by (auto simp: row_start_def eventTimes_def split: option.splits)

lemma key_start_row: "row_start row = Some t \<Longrightarrow> key_start (row_key row) = cdr_StartTime row"
  by (simp add: row_key_def key_start_dedupeKey row_start_parse)

text \<open>Two records with one key start at one instant.\<close>

lemma row_key_start:
  "row_key r = row_key r' \<Longrightarrow> row_start r = Some t \<Longrightarrow> row_start r' = Some t' \<Longrightarrow> t = t'"
  by (metis key_start_row option.inject row_start_parse)

lemma mark_keys_ok: "wm_ok wm \<Longrightarrow> mark_keys (wm_mark wm) = set (Keys wm)"
  by (auto simp: wm_ok_def mark_keys_def mark_from_def split: option.splits if_splits)

lemma wm_ok_covers:
  assumes "wm_ok wm" "row_key row \<in> set (Keys wm)" "row_start row = Some t"
  shows "covered (wm_mark wm) (row_key row) (instant t)"
  using assms key_start_row [OF assms(3)] row_start_parse [OF assms(3)]
  by (auto simp: wm_ok_def covered_def mark_from_def list_all_iff split: option.splits if_splits)

text \<open>
  The start time of a row can be printed and read back: its zone offset is below 25 hours,
  which every offset the reader accepts is but \<open>+24:60\<close> and \<open>-24:60\<close>.
\<close>

definition printable_row :: "cdr \<Rightarrow> bool" where
  "printable_row row = (case row_start row of None \<Rightarrow> True | Some t \<Rightarrow> \<bar>t_off t\<bar> < 90000)"

definition row_mark :: "cdr \<Rightarrow> mark \<Rightarrow> mark" where
  "row_mark row mk = (case row_start row of None \<Rightarrow> mk | Some t \<Rightarrow> mark_advance (row_key row) (instant t) mk)"

lemma mark_of_advance_row:
  "printable_row row \<Longrightarrow> wm_mark (advance_row row wm) = row_mark row (wm_mark wm)"
  by (auto simp: printable_row_def advance_row_def row_mark_def split: option.splits
      intro!: cdr_mark.mark_of_advance dest: row_start_parse intro: parse_rfc3339_printable)

lemma wm_ok_advance_row:
  assumes "wm_ok wm" "printable_row row" shows "wm_ok (advance_row row wm)"
proof (cases "row_start row")
  case (Some t)
  have k: "parse_rfc3339 (key_start (row_key row)) = Some t"
    using key_start_row [OF Some] row_start_parse [OF Some] by simp
  have m: "wm_mark (advance_row row wm) = mark_advance (row_key row) (instant t) (wm_mark wm)"
    using mark_of_advance_row [OF assms(2)] Some by (simp add: row_mark_def)
  show ?thesis
    using assms(1) m k Some
    by (auto simp: wm_ok_def advance_row_def advanceWatermark_def mark_advance_def mark_from_def time_cmp_defs
        split: option.splits if_splits)
qed (use assms in \<open>simp add: advance_row_def\<close>)

lemma selected_start: "row \<in> set (selected mk seen rows) \<Longrightarrow> \<exists>t. row_start row = Some t \<and> mark_fresh mk (instant t)"
  using distinct_by_set_subset by (fastforce simp: selected_def eligible_def split: option.splits)

lemma selected_subset: "set (selected mk seen rows) \<subseteq> set rows"
  using distinct_by_set_subset by (fastforce simp: selected_def)

lemma advance_rows_ok:
  assumes "wm_ok wm" "\<forall>row \<in> set rows. printable_row row"
  shows "wm_ok (fold advance_row rows wm) \<and> wm_mark (fold advance_row rows wm) = fold row_mark rows (wm_mark wm)"
  using assms by (induction rows arbitrary: wm) (auto simp: wm_ok_advance_row mark_of_advance_row)

lemma covered_row_mark: "covered mk k i \<Longrightarrow> covered (fold row_mark rows mk) k i"
  by (induction rows arbitrary: mk) (auto simp: row_mark_def covered_advance split: option.splits)

lemma row_marks_cover:
  assumes "row \<in> set rows" "row_start row = Some t"
  shows "covered (fold row_mark rows mk) (row_key row) (instant t)"
  using assms(1)
proof (induction rows arbitrary: mk)
  case (Cons r rows)
  have "covered (row_mark row mk) (row_key row) (instant t)" using assms(2) by (simp add: row_mark_def)
  with Cons show ?case by (auto intro: covered_row_mark)
qed simp

text \<open>After a run every readable row it was served is covered by the new watermark.\<close>

lemma run_covers:
  assumes "wm_ok wm" "row \<in> set rows" "row_start row = Some t"
  shows "covered (fold row_mark (selected (wm_mark wm) (set (Keys wm)) rows) (wm_mark wm)) (row_key row) (instant t)"
proof -
  let ?mk = "wm_mark wm" and ?sel = "selected (wm_mark wm) (set (Keys wm)) rows"
  consider "\<not> eligible ?mk row" | "row_key row \<in> set (Keys wm)" | "eligible ?mk row" "row_key row \<notin> set (Keys wm)" by blast
  then show ?thesis
  proof cases
    case 1
    then show ?thesis using assms(3) by (auto simp: eligible_def intro: covered_row_mark stale_covered)
  next
    case 2
    then show ?thesis using wm_ok_covers [OF assms(1) _ assms(3)] by (blast intro: covered_row_mark)
  next
    case 3
    then have "row_key row \<in> row_key ` set ?sel"
      using assms(2) by (auto simp: selected_def distinct_by_keys)
    then obtain r where r: "r \<in> set ?sel" "row_key r = row_key row" by auto
    with selected_start [OF r(1)] row_key_start [OF r(2) _ assms(3)] have "row_start r = Some t" by auto
    with row_marks_cover [OF r(1)] r(2) show ?thesis by metis
  qed
qed

lemma covered_not_selected:
  assumes "wm_ok wm" "covered (wm_mark wm) (row_key row) (instant t)" "row_start row = Some t"
  shows "row \<notin> set (selected (wm_mark wm) (set (Keys wm)) rows)"
  using covered_not_fresh [OF assms(2)] assms(3) mark_keys_ok [OF assms(1)] distinct_by_keys_fresh
    distinct_by_set_subset by (fastforce simp: selected_def eligible_def)

section \<open>Runs in sequence\<close>

definition selected_run :: "watermark \<Rightarrow> cdr list \<Rightarrow> cdr list" where
  "selected_run wm rows = selected (wm_mark wm) (set (Keys wm)) rows"

fun history :: "watermark \<Rightarrow> cdr list list \<Rightarrow> cdr list" where
  "history wm [] = []"
| "history wm (rows # batches) =
     selected_run wm rows @ history (fold advance_row (selected_run wm rows) wm) batches"

definition good_rows :: "cdr list \<Rightarrow> bool" where
  "good_rows rows = list_all (\<lambda>row. nonzero_row row \<and> printable_row row) rows"

lemma run_ok:
  assumes "wm_ok wm" "good_rows rows"
  shows "wm_ok (fold advance_row (selected_run wm rows) wm)"
    "wm_mark (fold advance_row (selected_run wm rows) wm) = fold row_mark (selected_run wm rows) (wm_mark wm)"
  using advance_rows_ok [OF assms(1), of "selected_run wm rows"] assms(2)
    selected_subset [of "wm_mark wm" "set (Keys wm)" rows]
  by (auto simp: good_rows_def list_all_iff selected_run_def)

lemma history_not_covered:
  assumes "wm_ok wm" "list_all good_rows batches" "row \<in> set (history wm batches)" "row_start row = Some t"
  shows "\<not> covered (wm_mark wm) (row_key row) (instant t)"
  using assms
proof (induction batches arbitrary: wm)
  case (Cons rows batches)
  have g: "good_rows rows" using Cons.prems by simp
  from Cons.prems(3) consider "row \<in> set (selected_run wm rows)"
    | "row \<in> set (history (fold advance_row (selected_run wm rows) wm) batches)" by auto
  then show ?case
  proof cases
    case 1
    then show ?thesis using covered_not_selected [OF Cons.prems(1) _ Cons.prems(4)] by (auto simp: selected_run_def)
  next
    case 2
    then show ?thesis
      using Cons.IH [OF run_ok(1) [OF Cons.prems(1) g]] run_ok(2) [OF Cons.prems(1) g] Cons.prems covered_row_mark by auto
  qed
qed simp

lemma history_start: "row \<in> set (history wm batches) \<Longrightarrow> \<exists>t. row_start row = Some t"
  by (induction wm batches rule: history.induct) (auto simp: selected_run_def dest: selected_start)

lemma distinct_history:
  assumes "wm_ok wm" "list_all good_rows batches"
  shows "distinct (map row_key (history wm batches))"
  using assms
proof (induction batches arbitrary: wm)
  case (Cons rows batches)
  let ?wm = "fold advance_row (selected_run wm rows) wm"
  have g: "good_rows rows" using Cons.prems by simp
  have "row_key r \<noteq> row_key r'" if r: "r \<in> set (selected_run wm rows)" and r': "r' \<in> set (history ?wm batches)" for r r'
  proof
    assume eq: "row_key r = row_key r'"
    obtain t where t: "row_start r = Some t" using selected_start r unfolding selected_run_def by blast
    obtain t' where t': "row_start r' = Some t'" using history_start [OF r'] by blast
    have "covered (wm_mark ?wm) (row_key r) (instant t)"
      unfolding run_ok(2) [OF Cons.prems(1) g] using row_marks_cover [OF r t] .
    moreover have "t = t'" using row_key_start [OF eq t t'] .
    ultimately show False
      using history_not_covered [OF run_ok(1) [OF Cons.prems(1) g] _ r' t'] Cons.prems(2) eq by simp
  qed
  moreover have "distinct (map row_key (selected_run wm rows))"
    by (simp add: selected_run_def selected_def distinct_distinct_by)
  ultimately show ?case using Cons.IH [OF run_ok(1) [OF Cons.prems(1) g]] Cons.prems(2) by auto
qed simp


lemma save_healthy: "fs_healthy fse \<Longrightarrow> \<exists>fs. saveWatermark env fse c wm f = (None, fs)"
  by (simp add: saveWatermark_def save_doc_healthy)

lemma collect_ok:
  assumes "serves q (tenantID c) None w rows w'" "good_rows rows" "loadWatermark env fse c f = Inr wm" "fs_healthy fse"
  obtains tel' f' where "collect env fse (Some q) m c em tel w f = Some (None, tel', w', f')"
    "logs tel' = logs tel @ concat (map (row_logs env (with_tenant (tenantID c) em)) (selected_run wm rows))"
    "loadWatermark env fse c f' = Inr (fold advance_row (selected_run wm rows) wm)"
proof -
  let ?st = "\<lparr>run_wm = wm, run_seen = set (Keys wm), run_tel = tel, run_net = w\<rparr>"
  let ?em = "with_tenant (tenantID c) em"
  let ?wm = "fold advance_row (selected_run wm rows) wm"
  have nz: "\<forall>row \<in> set rows. nonzero_row row" using assms(2) by (auto simp: good_rows_def list_all_iff)
  obtain tel' where
    "cdr_loop env q m ?em (tenantID c) wm None ?st = Some (None, processed (wm_mark wm) rows tel' w' ?st)"
    and l: "logs tel' = logs tel @ concat (map (row_logs env ?em) (selected_run wm rows))"
    using cdr_loop_serves [OF assms(1) nz, of ?st env m ?em wm] by (auto simp: selected_run_def)
  moreover obtain fs where s: "saveWatermark env fse c ?wm f = (None, fs)" using save_healthy [OF assms(4)] by blast
  ultimately have "collect env fse (Some q) m c em tel w f = Some (None, tel', w', last fs)"
    using assms(3) by (simp add: collect_def processed_def selected_run_def Let_def)
  moreover have "loadWatermark env fse c (last fs) = Inr ?wm"
    using load_after_save [OF s] assms(4) by (simp add: fs_healthy_def)
  ultimately show ?thesis using that l by blast
qed

inductive serves_seq :: "'w query_client \<Rightarrow> string \<Rightarrow> 'w \<Rightarrow> cdr list list \<Rightarrow> 'w \<Rightarrow> bool"
  for q tid where
  serves_seq_Nil: "serves_seq q tid w [] w"
| serves_seq_Cons: "serves q tid None w rows w' \<Longrightarrow> serves_seq q tid w' batches w'' \<Longrightarrow>
     serves_seq q tid w (rows # batches) w''"

fun collect_seq :: "cdr_env \<Rightarrow> fs_env \<Rightarrow> 'w query_client \<Rightarrow> meter \<Rightarrow> cdr_collector \<Rightarrow> emitter \<Rightarrow> nat \<Rightarrow>
    instruments \<Rightarrow> 'w \<Rightarrow> fs \<Rightarrow> (instruments \<times> 'w \<times> fs) option" where
  "collect_seq env fse q m c em 0 tel w f = Some (tel, w, f)"
| "collect_seq env fse q m c em (Suc n) tel w f =
     (case collect env fse (Some q) m c em tel w f of
        Some (None, tel', w', f') \<Rightarrow> collect_seq env fse q m c em n tel' w' f'
      | _ \<Rightarrow> None)"

lemma collect_seq_history:
  assumes "serves_seq q (tenantID c) w batches w'" "list_all good_rows batches"
    "loadWatermark env fse c f = Inr wm" "fs_healthy fse"
  shows "\<exists>tel' f'. collect_seq env fse q m c em (length batches) tel w f = Some (tel', w', f') \<and>
    logs tel' = logs tel @ concat (map (row_logs env (with_tenant (tenantID c) em)) (history wm batches))"
  using assms
proof (induction arbitrary: tel f wm)
  case (serves_seq_Cons w rows w' batches w'')
  have "good_rows rows" using serves_seq_Cons.prems by simp
  then obtain tel' f' where
    c: "collect env fse (Some q) m c em tel w f = Some (None, tel', w', f')"
    "logs tel' = logs tel @ concat (map (row_logs env (with_tenant (tenantID c) em)) (selected_run wm rows))"
    and l: "loadWatermark env fse c f' = Inr (fold advance_row (selected_run wm rows) wm)"
    using collect_ok [OF serves_seq_Cons.hyps(1) _ serves_seq_Cons.prems(2,3)] by metis
  from serves_seq_Cons.IH [OF _ l, of tel'] serves_seq_Cons.prems c show ?case by auto
qed simp

section \<open>Files and failures\<close>

lemma saveWatermark_states:
  assumes "g \<in> set (snd (saveWatermark env fse c wm f))"
  shows "g (watermarkPath env c) = f (watermarkPath env c) \<or> g (watermarkPath env c) = Some (Doc (watermark_json wm))"
  using save_doc_old_or_new [of g fse "watermark_dir c" "sha256hex env (tenantID c)" "watermark_json wm" f] assms
  by (simp add: saveWatermark_def watermark_name_def watermarkPath_def)

lemma collect_files:
  assumes "collect env fse client m c em tel w f = Some (r, tel', w', f')"
  shows "f' = f \<and> r \<noteq> None \<or> (\<exists>wm. f' = last (snd (saveWatermark env fse c wm f)) \<and> (fst (saveWatermark env fse c wm f) = None \<longleftrightarrow> r = None))"
  using assms unfolding collect_def Let_def
  by (auto split: option.splits sum.splits prod.splits) (metis fst_conv option.distinct(1) snd_conv)+

lemma saveWatermark_error:
  assumes "fst (saveWatermark env fse c wm f) \<noteq> None"
  shows "last (snd (saveWatermark env fse c wm f)) (watermarkPath env c) = f (watermarkPath env c)"
  using save_doc_error [of fse "watermark_dir c" "sha256hex env (tenantID c)" "watermark_json wm" f] assms
  by (cases "saveWatermark env fse c wm f") (auto simp: saveWatermark_def watermark_name_def watermarkPath_def)

lemma process_edge_net: "run_net (snd (process_edge env m em ck row st)) = run_net st"
  by (simp add: process_edge_def Let_def split: option.splits prod.splits)

lemma process_edges_net: "process_edges env m em ck rows st = (r, st') \<Longrightarrow> run_net st' = run_net st"
proof (induction rows arbitrary: st)
  case (Cons row rows)
  then show ?case using process_edge_net [of env m em ck row st] by (auto split: prod.splits option.splits)
qed simp

lemma cdr_loop_success_serves:
  assumes "run_steps (cdr_step env q m em tid ck) n after st = Some (None, st')"
  shows "\<exists>rows. serves q tid after (run_net st) rows (run_net st')"
  using assms
proof (induction n arbitrary: after st)
  case (Suc n)
  from Suc.prems obtain page w s where f: "fetch_page q tid after (run_net st) = (Inr page, w)"
    and p: "process_edges env m em ck (Edges page) (st\<lparr>run_net := w\<rparr>) = (None, s)"
    by (auto simp: cdr_step_def split: sum.splits prod.splits option.splits if_splits)
  from process_edges_net [OF p] have w: "run_net s = w" by simp
  show ?case
  proof (cases "HasNextPage (PageInfo page)")
    case True
    with Suc.prems f p obtain cur where "EndCursor (PageInfo page) = Some cur" "cur \<noteq> []"
      "run_steps (cdr_step env q m em tid ck) n (Some cur) s = Some (None, st')"
      by (auto simp: cdr_step_def [of env q m em tid ck after st] split: option.splits if_splits)
    with Suc.IH [of "Some cur" s] f True w show ?thesis by (metis serves_more)
  next
    case False
    with Suc.prems f p w show ?thesis by (auto simp: cdr_step_def intro: serves_last)
  qed
qed simp

text \<open>A run touches no watermark file but its own.\<close>

lemma collect_other_file:
  assumes "collect env fse client m c em tel w f = Some (r, tel', w', f')"
    "watermarkPath env c' \<noteq> watermarkPath env c"
  shows "f' (watermarkPath env c') = f (watermarkPath env c')"
proof -
  have "last (snd (saveWatermark env fse c wm f)) (watermarkPath env c') = f (watermarkPath env c')" for wm
    using save_doc_frame [of "last (snd (saveWatermark env fse c wm f))" fse "watermark_dir c" "watermark_name env c"
        "watermark_json wm" f "watermarkPath env c'"] assms(2)
      temp_path_not_json [of fse "watermark_dir c" f "watermark_dir c'" "sha256hex env (tenantID c')"]
    by (simp add: saveWatermark_def watermark_name_def watermarkPath_def)
  then show ?thesis using collect_files [OF assms(1)] by auto
qed

section \<open>An example server\<close>

definition ex_row :: "string \<Rightarrow> string \<Rightarrow> cdr" where
  "ex_row dev start = zero_cdr\<lparr>DeviceID := dev, cdr_StartTime := start, EndTime := ''2024-05-01T10:05:00Z''\<rparr>"

definition ex_page :: "cdr list \<Rightarrow> string option \<Rightarrow> json" where
  "ex_page rows cur = JObj [(''meetingRecordLists'', JObj
     [(''pageInfo'', JObj [(''hasNextPage'', JBool (cur \<noteq> None)), (''endCursor'', json_ptr JStr cur)]),
      (''edges'', JArr (map (\<lambda>r. JObj [(''node'', cdr_json r)]) rows))])]"

definition ex_rows :: "cdr list" where
  "ex_rows =
     [ex_row ''d1'' ''2024-05-01T10:00:00Z'', ex_row ''d2'' ''2024-05-01T11:01:00+01:00'',
      ex_row ''d1'' ''2024-05-01T10:00:00Z'']"

definition ex_client :: "nat query_client" where
  "ex_client doc vars w =
     (Inr (if vars = cdr_vars ''t'' None then ex_page (take 1 ex_rows) (Some ''c1'') else ex_page (drop 1 ex_rows) None), Suc w)"

definition ex_env :: cdr_env where
  "ex_env = \<lparr>sha256hex = (\<lambda>s. s), render = (\<lambda>_. ''{}''), format_seconds = int_digits\<rparr>"

definition ex_fse :: fs_env where
  "ex_fse = \<lparr>fs_err = (\<lambda>_. None), tmp_rand = (\<lambda>_ _. 7)\<rparr>"

definition ex_collector :: cdr_collector where
  "ex_collector = \<lparr>stateDir = ''state'', tenantID = ''t'', interval = 3600\<rparr>"

lemma ex_tenant: "tenantID ex_collector = ''t''"
  by (simp add: ex_collector_def)

lemma ex_wm_ok: "wm_ok zero_watermark"
  by code_simp

lemma ex_good: "good_rows ex_rows" by code_simp

lemma ex_first: "fetch_page ex_client ''t'' None w =
    (Inr \<lparr>PageInfo = \<lparr>HasNextPage = True, EndCursor = Some ''c1''\<rparr>, Edges = take 1 ex_rows\<rparr>, Suc w)"
  by code_simp

lemma ex_second: "fetch_page ex_client ''t'' (Some ''c1'') w =
    (Inr \<lparr>PageInfo = \<lparr>HasNextPage = False, EndCursor = None\<rparr>, Edges = drop 1 ex_rows\<rparr>, Suc w)"
  by code_simp

lemma ex_serves: "serves ex_client ''t'' None w ex_rows (Suc (Suc w))"
  using serves_more [OF ex_first _ _ _ serves_last [OF ex_second], of w] by simp

lemma ex_serves_seq: "serves_seq ex_client (tenantID ex_collector) 0 [ex_rows, ex_rows] 4"
  using serves_seq_Cons [OF ex_serves serves_seq_Cons [OF ex_serves serves_seq_Nil], of 0]
  by (simp add: ex_collector_def eval_nat_numeral)

lemma ex_load: "loadWatermark ex_env ex_fse ex_collector Map.empty = Inr zero_watermark"
  by (simp add: loadWatermark_def read_doc_def)

lemma ex_healthy: "fs_healthy ex_fse"
  by (simp add: fs_healthy_def ex_fse_def)

lemma ex_history: "history zero_watermark [ex_rows, ex_rows] = take 2 ex_rows"
  by code_simp

section \<open>Properties\<close>





text \<open>
  C6 (crash safety). In every file-system state a save of a watermark passes through, loading
  gives what it gave before or the new watermark.
\<close>

theorem watermark_crash_safe:
  assumes "g \<in> set (snd (saveWatermark env fse c wm f))" "fs_err fse (ReadFile (watermarkPath env c)) = None"
  shows "loadWatermark env fse c g \<in> {loadWatermark env fse c f, Inr wm}"
  using saveWatermark_states [OF assms(1)] assms(2)
  by (auto simp: loadWatermark_def read_doc_def dec_watermark_json)

lemma watermark_crash_safe_witness:
  "\<exists>g. g \<in> set (snd (saveWatermark ex_env ex_fse ex_collector zero_watermark Map.empty)) \<and>
    loadWatermark ex_env ex_fse ex_collector g
      \<in> {loadWatermark ex_env ex_fse ex_collector Map.empty, Inr zero_watermark}"
proof -
  obtain g where g: "g \<in> set (snd (saveWatermark ex_env ex_fse ex_collector zero_watermark Map.empty))"
    using save_doc_states_not_Nil unfolding saveWatermark_def by (metis last_in_set)
  from watermark_crash_safe [OF g] g show ?thesis by (auto simp: ex_fse_def)
qed

text \<open>
  C14 (failed runs). A run that returns an error, whatever failed, leaves the stored watermark as
  it was, so that the next run takes its records as new again.
\<close>

theorem collect_failure_keeps_checkpoint:
  assumes "collect env fse client m c em tel w f = Some (Some e, tel', w', f')"
  shows "loadWatermark env fse c f' = loadWatermark env fse c f"
  using collect_files [OF assms] saveWatermark_error [of env fse c _ f]
  by (auto simp: loadWatermark_def read_doc_def)

lemma collect_failure_keeps_checkpoint_witness:
  "\<exists>e tel' w' f'. collect ex_env ex_fse (None :: nat query_client option) ex_meter ex_collector ex_emitter ex_tel 0 Map.empty = Some (Some e, tel', w', f') \<and>
    loadWatermark ex_env ex_fse ex_collector f' = loadWatermark ex_env ex_fse ex_collector Map.empty"
proof -
  have c: "collect ex_env ex_fse (None :: nat query_client option) ex_meter ex_collector ex_emitter ex_tel 0 Map.empty =
      Some (Some (Msg ''lens CDR client is required''), ex_tel, 0, Map.empty)"
    by (simp add: collect_def)
  from collect_failure_keeps_checkpoint [OF c] c show ?thesis by blast
qed

text \<open>
  Tenants. A run for one tenant leaves the watermark of every tenant with another file as
  it was.
\<close>

theorem collect_tenant_isolation:
  assumes "collect env fse client m c em tel w f = Some (r, tel', w', f')"
    "watermarkPath env c' \<noteq> watermarkPath env c"
  shows "loadWatermark env fse c' f' = loadWatermark env fse c' f"
  using collect_other_file [OF assms] by (simp add: loadWatermark_def read_doc_def)

lemma collect_tenant_isolation_witness:
  "\<exists>r tel' w' f'. collect ex_env ex_fse (Some ex_client) ex_meter ex_collector ex_emitter ex_tel 0 Map.empty = Some (r, tel', w', f') \<and>
    loadWatermark ex_env ex_fse (ex_collector\<lparr>tenantID := ''u''\<rparr>) f' = Inr zero_watermark"
proof -
  obtain tel' f' where c: "collect ex_env ex_fse (Some ex_client) ex_meter ex_collector ex_emitter ex_tel 0 Map.empty = Some (None, tel', 2, f')"
    using collect_ok [OF _ ex_good ex_load ex_healthy, of ex_client 0 2 ex_meter ex_emitter ex_tel] ex_serves [of 0]
    by (metis ex_tenant One_nat_def Suc_1)
  have "watermarkPath ex_env (ex_collector\<lparr>tenantID := ''u''\<rparr>) \<noteq> watermarkPath ex_env ex_collector"
    by (simp add: watermarkPath_def watermark_dir_def watermark_name_def ex_env_def ex_collector_def)
  from collect_tenant_isolation [OF c this] c show ?thesis
    by (auto simp: loadWatermark_def read_doc_def)
qed

text \<open>
  A cursor that repeats. When the page of a cursor names that cursor as its next one, the
  loop over the pages never returns.
\<close>

lemma cdr_cursor_cycle:
  assumes "\<And>w. \<exists>w' page. fetch_page q tid (Some cur) w = (Inr page, w') \<and> HasNextPage (PageInfo page) \<and>
      EndCursor (PageInfo page) = Some cur \<and> (\<forall>row \<in> set (Edges page). nonzero_row row)" "cur \<noteq> []"
  shows "cdr_loop env q m em tid ck (Some cur) st = None"
proof (rule cdr_pages.loop_diverges [where P = "\<lambda>_. True"])
  fix s :: "'a cdr_run"
  obtain w' page where "fetch_page q tid (Some cur) (run_net s) = (Inr page, w')" "HasNextPage (PageInfo page)"
    "EndCursor (PageInfo page) = Some cur" "\<forall>row \<in> set (Edges page). nonzero_row row" using assms(1) by blast
  moreover obtain tel where "process_edges env m em ck (Edges page) (s\<lparr>run_net := w'\<rparr>) =
      (None, processed (wm_mark ck) (Edges page) tel w' s)"
    using calculation(4) process_page [of "Edges page" env m em ck w' s] by blast
  ultimately show "\<exists>s'. cdr_step env q m em tid ck (Some cur) s = Inr (Some cur, s') \<and> True"
    using assms(2) by (simp add: cdr_step_def)
qed simp

lemma cdr_cursor_cycle_witness:
  "cdr_loop ex_env (\<lambda>_ _ w. (Inr (ex_page [] (Some ''c1'')), w)) ex_meter ex_emitter ''t'' zero_watermark (Some ''c1'')
     \<lparr>run_wm = zero_watermark, run_seen = {}, run_tel = ex_tel, run_net = (0::nat)\<rparr> = None"
proof (rule cdr_cursor_cycle)
  fix w :: nat
  have "fetch_page (\<lambda>_ _ w. (Inr (ex_page [] (Some ''c1'')), w)) ''t'' (Some ''c1'') w =
      (Inr \<lparr>PageInfo = \<lparr>HasNextPage = True, EndCursor = Some ''c1''\<rparr>, Edges = []\<rparr>, w)"
    by code_simp
  then show "\<exists>w' page. fetch_page (\<lambda>_ _ w. (Inr (ex_page [] (Some ''c1'')), w)) ''t'' (Some ''c1'') w = (Inr page, w') \<and>
      HasNextPage (PageInfo page) \<and> EndCursor (PageInfo page) = Some ''c1'' \<and> (\<forall>row \<in> set (Edges page). nonzero_row row)"
    by auto
qed simp

text \<open>
  All pages. A loop over the pages that ends without error has followed the cursors
  from the first page to one that says there is no other.
\<close>

theorem cdr_loop_reads_all_pages:
  assumes "cdr_loop env q m em tid ck after st = Some (None, st')"
  shows "\<exists>rows. serves q tid after (run_net st) rows (run_net st')"
  using cdr_pages.loop_finite [OF assms] cdr_loop_success_serves by blast

lemma cdr_loop_reads_all_pages_witness:
  "\<exists>st' rows. cdr_loop ex_env ex_client ex_meter ex_emitter ''t'' zero_watermark None
      \<lparr>run_wm = zero_watermark, run_seen = {}, run_tel = ex_tel, run_net = 0\<rparr> = Some (None, st') \<and>
    serves ex_client ''t'' None 0 rows (run_net st')"
proof -
  obtain st' where l: "cdr_loop ex_env ex_client ex_meter ex_emitter ''t'' zero_watermark None
      \<lparr>run_wm = zero_watermark, run_seen = {}, run_tel = ex_tel, run_net = 0\<rparr> = Some (None, st')"
    using cdr_loop_serves [OF ex_serves [of 0], of "\<lparr>run_wm = zero_watermark, run_seen = {}, run_tel = ex_tel, run_net = 0\<rparr>"
        ex_env ex_meter ex_emitter zero_watermark] ex_good
    by (auto simp: good_rows_def list_all_iff)
  from cdr_loop_reads_all_pages [OF l] l show ?thesis by auto
qed

end
