(* ===== verification/Backoff.thy ===== *)
theory Backoff
  imports Prelude
begin

text \<open>
  The doubling delay that \<^verbatim>\<open>internal/lensclient/client.go\<close> and \<^verbatim>\<open>internal/lensstream/stream.go\<close> each
  compute in a function \<^verbatim>\<open>backoff\<close>: the body of the two functions is \<open>doubling\<close>, with the delay so far and
  the turns of the loop left. Delays are whole nanoseconds.

  The locale \<open>backoff_delay\<close> is what the retry loops rely on: delays that stay between the two bounds,
  never shrink and double until they reach the upper one.
\<close>

fun doubling :: "int \<Rightarrow> int \<Rightarrow> nat \<Rightarrow> int" where
  "doubling mx d 0 = (if d > mx then mx else d)"
| "doubling mx d (Suc k) = (if d \<ge> mx div 2 then mx else doubling mx (d * 2) k)"

lemma doubling_le: "doubling mx d k \<le> mx"
  by (induction mx d k rule: doubling.induct) auto

lemma doubling_ge: "0 < d \<Longrightarrow> d \<le> mx \<Longrightarrow> d \<le> doubling mx d k"
proof (induction mx d k rule: doubling.induct)
  case (2 mx d k)
  then show ?case by (cases "d \<ge> mx div 2") (auto intro: order_trans [of d "d * 2"])
qed simp

lemma doubling_mono: "0 < d \<Longrightarrow> d \<le> mx \<Longrightarrow> doubling mx d k \<le> doubling mx d (Suc k)"
proof (induction mx d k rule: doubling.induct)
  case (1 mx d)
  then show ?case by auto
next
  case (2 mx d k)
  then show ?case by (cases "d \<ge> mx div 2") auto
qed

text \<open>
  The delay is the doubled one capped at the bound, except that a doubled delay one below an odd
  bound is already taken as the bound.
\<close>

lemma doubling_exact:
  assumes "0 < d" "d \<le> mx"
  shows "doubling mx d k = min mx (d * 2 ^ k) \<or> doubling mx d k = mx \<and> mx = d * 2 ^ k + 1"
  using assms
proof (induction mx d k rule: doubling.induct)
  case (2 mx d k)
  show ?case
  proof (cases "d \<ge> mx div 2")
    case True
    have p: "d * 2 \<le> d * 2 ^ Suc k" using 2(2) by simp
    from True have "mx \<le> d * 2 + 1" by linarith
    then consider "mx \<le> d * 2 ^ Suc k" | "mx = d * 2 ^ Suc k + 1" using p by linarith
    then show ?thesis using True by cases auto
  next
    case False
    then have "0 < d * 2" "d * 2 \<le> mx" using 2(2) by linarith+
    with 2(1) [OF False] False show ?thesis by (simp add: mult.assoc)
  qed
qed (simp add: min_def)

locale backoff_delay =
  fixes delay :: "nat \<Rightarrow> int" and lo :: int and hi :: int
  assumes delay_hi: "delay n \<le> hi"
    and delay_first: "lo \<le> hi \<Longrightarrow> delay 1 = lo"
    and delay_mono: "0 < lo \<Longrightarrow> lo \<le> hi \<Longrightarrow> 1 \<le> n \<Longrightarrow> delay n \<le> delay (Suc n)"
begin

lemma delay_lo: "0 < lo \<Longrightarrow> lo \<le> hi \<Longrightarrow> 1 \<le> n \<Longrightarrow> lo \<le> delay n"
proof (induction n)
  case (Suc n)
  then show ?case using delay_first delay_mono [of n] by (cases "n = 0") auto
qed simp

text \<open>A loop that waits \<open>n\<close> times waits for at most \<open>n\<close> upper bounds.\<close>

lemma total_delay: "sum_list (map delay [1..<Suc n]) \<le> int n * hi"
proof (induction n)
  case (Suc n)
  then show ?case using delay_hi [of "Suc n"] by (simp add: algebra_simps)
qed simp

lemma delays_bounded:
  assumes "0 < lo" "lo \<le> hi" "d \<in> set (map delay [1..<n])"
  shows "lo \<le> d" "d \<le> hi"
  using assms delay_lo delay_hi by auto

end

end
