(* ===== verification/LensClient.thy ===== *)
theory LensClient
  imports LensCDR Backoff
begin

text \<open>
  \<^verbatim>\<open>internal/lensclient\<close>: the read-only Poly Lens client. Modelled are its configuration and \<^verbatim>\<open>New\<close>,
  the guard against mutations, the token cache, the request loop with its retries and backoff,
  the redaction of secrets, \<^verbatim>\<open>Query\<close> and the four typed queries with their response decoders.

  Parameters (\<open>lens_env\<close>): whether a request can be built for an endpoint, the HTTP exchange, the
  timer, the clock, the metric instruments, and the two readings of a response text: the document
  it denotes and the bytes of its \<^verbatim>\<open>errors\<close> member. The state (\<open>lens_st\<close>) holds the token cache, the
  telemetry, everything sent and every pause made, and the state of the outside world. The mutex
  of the client is held for the whole of \<^verbatim>\<open>accessToken\<close>, so that a call of it is one step.
\<close>

section \<open>Data\<close>

definition defaultPageSize :: int where
  "defaultPageSize = 10"

record lens_config =
  TokenURL :: string
  GraphQLURL :: string
  ClientID :: string
  ClientSecret :: string
  PageSize :: int
  MaxAttempts :: int
  MinBackoff :: int
  MaxBackoff :: int
  lens_emitter :: "emitter option"

record lens_request =
  lq_url :: string
  lq_body :: json
  lq_bearer :: string

record lens_response =
  ls_status :: int
  ls_text :: "string result"
  ls_close :: "goerr option"

record 'w lens_st =
  lt_token :: string
  lt_expiresAt :: int
  lt_tel :: instruments
  lt_sent :: "lens_request list"
  lt_slept :: "int list"
  lt_net :: 'w

record 'w lens_env =
  new_request :: "string \<Rightarrow> goerr option"
  lens_exchange :: "lens_request \<Rightarrow> 'w \<Rightarrow> lens_response result \<times> 'w"
  sleep_for :: "int \<Rightarrow> 'w \<Rightarrow> goerr option \<times> 'w"
  clock :: "'w \<Rightarrow> int \<times> 'w"
  lens_meter :: meter
  parse_text :: "string \<Rightarrow> json option"
  raw_errors :: "string \<Rightarrow> string"

section \<open>Construction\<close>

text \<open>The checks run in the order of the code, on the values the defaults leave.\<close>

definition with_defaults :: "lens_config \<Rightarrow> lens_config" where
  "with_defaults cfg = cfg
     \<lparr>PageSize := (if PageSize cfg = 0 then defaultPageSize else PageSize cfg),
      MaxAttempts := (if MaxAttempts cfg = 0 then 4 else MaxAttempts cfg),
      MinBackoff := (if MinBackoff cfg = 0 then 1000000000 else MinBackoff cfg),
      MaxBackoff := (if MaxBackoff cfg = 0 then 30 * 1000000000 else MaxBackoff cfg)\<rparr>"

definition lens_New :: "lens_config \<Rightarrow> lens_config result" where
  "lens_New cfg0 =
     (if trim_space (TokenURL cfg0) = [] \<or> trim_space (GraphQLURL cfg0) = []
      then Inl (Msg ''lens token and GraphQL URLs are required'')
      else if trim_space (ClientID cfg0) = [] \<or> trim_space (ClientSecret cfg0) = []
      then Inl (Msg ''lens client credentials are required'')
      else
        let cfg = with_defaults cfg0 in
        if PageSize cfg < 1 \<or> PageSize cfg > 5000 then Inl (Msg ''lens page size must be between 1 and 5000'')
        else if MaxAttempts cfg < 1 then Inl (Msg ''lens max attempts must be positive'')
        else if MinBackoff cfg < 0 \<or> MaxBackoff cfg < MinBackoff cfg then Inl (Msg ''invalid Lens retry backoff'')
        else Inr cfg)"

section \<open>The mutation guard\<close>

text \<open>
  The regular expression \<^verbatim>\<open>(?i)\bmutation\b\<close>: the keyword in any case, with a word boundary on each
  side. Word characters are the ASCII letters, digits and the underscore, and no character
  outside ASCII folds to a letter of the keyword.
\<close>

definition is_word :: "char \<Rightarrow> bool" where
  "is_word c \<longleftrightarrow> is_upper c \<or> is_lower c \<or> is_digit c \<or> c = CHR ''_''"

definition word_head :: "string \<Rightarrow> bool" where
  "word_head s = (case s of [] \<Rightarrow> False | c # _ \<Rightarrow> is_word c)"

definition keyword :: string where
  "keyword = ''mutation''"

fun mutation_from :: "bool \<Rightarrow> string \<Rightarrow> bool" where
  "mutation_from w [] = False"
| "mutation_from w (c # cs) =
     (\<not> w \<and> map lower_char (take 8 (c # cs)) = keyword \<and> \<not> word_head (drop 8 (c # cs)) \<or>
      mutation_from (is_word c) cs)"

definition mutationKeyword :: "string \<Rightarrow> bool" where
  "mutationKeyword document = mutation_from False document"

section \<open>Requests\<close>

definition lens_retryable :: "goerr \<Rightarrow> bool" where
  "lens_retryable err =
     (case as_http_error err of
        Some (status, text) \<Rightarrow>
          if status = 429 \<or> status \<ge> 500 then True
          else let body = to_lower text in
            status = 400 \<and> (contains body ''rate limit'' \<or> contains body ''rate-limit'' \<or> contains body ''over limit'')
      | None \<Rightarrow> True)"

definition redacted :: string where
  "redacted = ''[redacted]''"

definition redact :: "lens_config \<Rightarrow> string \<Rightarrow> string \<Rightarrow> string" where
  "redact cfg body bearer =
     (let body = (if ClientSecret cfg \<noteq> [] then replace_all (ClientSecret cfg) redacted body else body) in
      if bearer \<noteq> [] then replace_all bearer redacted body else body)"

definition lens_backoff :: "lens_config \<Rightarrow> nat \<Rightarrow> int" where
  "lens_backoff cfg attempt = doubling (MaxBackoff cfg) (MinBackoff cfg) (attempt - 1)"

definition sleepContext :: "'w lens_env \<Rightarrow> int \<Rightarrow> 'w lens_st \<Rightarrow> goerr option \<times> 'w lens_st" where
  "sleepContext env d st =
     (let (r, w) = sleep_for env d (lt_net st) in (r, st\<lparr>lt_slept := lt_slept st @ [d], lt_net := w\<rparr>))"

text \<open>What one exchange gives: the body of a 2xx answer, at most 4 MiB of it, or the error.\<close>

definition read_response :: "lens_config \<Rightarrow> string \<Rightarrow> lens_response \<Rightarrow> string result" where
  "read_response cfg bearer resp =
     (case ls_text resp of
        Inl e \<Rightarrow> Inl (Wrap ''read Lens response'' e)
      | Inr text \<Rightarrow>
          (case ls_close resp of
             Some e \<Rightarrow> Inl (Wrap ''close Lens response'' e)
           | None \<Rightarrow>
               let data = take 4194304 text in
               if ls_status resp < 200 \<or> ls_status resp \<ge> 300
               then Inl (HTTPError (ls_status resp) (redact cfg data bearer))
               else Inr data))"

definition attempt_once :: "'w lens_env \<Rightarrow> lens_config \<Rightarrow> lens_request \<Rightarrow> 'w lens_st \<Rightarrow> string result \<times> 'w lens_st" where
  "attempt_once env cfg rq st =
     (let (r, w) = lens_exchange env rq (lt_net st); st' = st\<lparr>lt_sent := lt_sent st @ [rq], lt_net := w\<rparr> in
      case r of Inl e \<Rightarrow> (Inl e, st') | Inr resp \<Rightarrow> (read_response cfg (lq_bearer rq) resp, st'))"

text \<open>The loop from an attempt on, with the number of attempts left.\<close>

fun do_from :: "'w lens_env \<Rightarrow> lens_config \<Rightarrow> lens_request \<Rightarrow> nat \<Rightarrow> nat \<Rightarrow> 'w lens_st \<Rightarrow> string result \<times> 'w lens_st" where
  "do_from env cfg rq attempt 0 st = (Inr [], st)"
| "do_from env cfg rq attempt (Suc left) st =
     (case new_request env (lq_url rq) of
        Some e \<Rightarrow> (Inl (Wrap ''create Lens request'' e), st)
      | None \<Rightarrow>
          (case attempt_once env cfg rq st of
             (Inr data, st') \<Rightarrow> (Inr data, st')
           | (Inl e, st') \<Rightarrow>
               if left = 0 \<or> \<not> lens_retryable e then (Inl e, st')
               else (case sleepContext env (lens_backoff cfg attempt) st' of
                   (Some e', st'') \<Rightarrow> (Inl e', st'')
                 | (None, st'') \<Rightarrow> do_from env cfg rq (Suc attempt) left st'')))"

definition lens_do :: "'w lens_env \<Rightarrow> lens_config \<Rightarrow> string \<Rightarrow> json \<Rightarrow> string \<Rightarrow> 'w lens_st \<Rightarrow> string result \<times> 'w lens_st" where
  "lens_do env cfg endpoint body bearer =
     do_from env cfg \<lparr>lq_url = endpoint, lq_body = body, lq_bearer = bearer\<rparr> 1 (nat (MaxAttempts cfg))"

section \<open>The access token\<close>

record token_doc =
  AccessToken :: string
  ExpiresIn :: int

definition zero_token :: token_doc where
  "zero_token = \<lparr>AccessToken = [], ExpiresIn = 0\<rparr>"

definition dec_token :: "token_doc decoder" where
  "dec_token = dec_struct
     [fld ''access_token'' dec_string AccessToken (\<lambda>v t. t\<lparr>AccessToken := v\<rparr>),
      fld ''expires_in'' dec_int ExpiresIn (\<lambda>v t. t\<lparr>ExpiresIn := v\<rparr>)]"

definition token_payload :: "lens_config \<Rightarrow> json" where
  "token_payload cfg =
     JObj [(''client_id'', JStr (ClientID cfg)), (''client_secret'', JStr (ClientSecret cfg)),
           (''grant_type'', JStr ''client_credentials'')]"

text \<open>\<^verbatim>\<open>time.Duration(n) * time.Second\<close> at the 64 bits of \<^verbatim>\<open>time.Duration\<close>.\<close>

definition seconds64 :: "int \<Rightarrow> int" where
  "seconds64 n = sint (word_of_int (n * 1000000000) :: 64 word)"

definition emit_refresh :: "'w lens_env \<Rightarrow> lens_config \<Rightarrow> int \<Rightarrow> 'w lens_st \<Rightarrow> goerr option \<times> 'w lens_st" where
  "emit_refresh env cfg expires st =
     (case lens_emitter cfg of
        None \<Rightarrow> (None, st)
      | Some em \<Rightarrow>
          let attrs = [Attr AttrSource ''lens''] in
          (case counter (lens_meter env) em MetricAuthTokenRefresh (FNum 1) attrs (lt_tel st) of
             (Some e, tel) \<Rightarrow> (Some (Wrap ''emit Lens token refresh'' e), st\<lparr>lt_tel := tel\<rparr>)
           | (None, tel) \<Rightarrow>
               (case gauge (lens_meter env) em MetricAuthTokenExpiresSeconds (FNum expires) attrs tel of
                  (Some e, tel') \<Rightarrow> (Some (Wrap ''emit Lens token expiry'' e), st\<lparr>lt_tel := tel'\<rparr>)
                | (None, tel') \<Rightarrow> (None, st\<lparr>lt_tel := tel'\<rparr>))))"

text \<open>\<^verbatim>\<open>c.now()\<close>: a reading of the clock.\<close>

definition read_clock :: "'w lens_env \<Rightarrow> 'w lens_st \<Rightarrow> int \<times> 'w lens_st" where
  "read_clock env st = (let (t, w) = clock env (lt_net st) in (t, st\<lparr>lt_net := w\<rparr>))"

definition store_token :: "'w lens_env \<Rightarrow> lens_config \<Rightarrow> token_doc \<Rightarrow> 'w lens_st \<Rightarrow> string result \<times> 'w lens_st" where
  "store_token env cfg doc st =
     (if AccessToken doc = [] \<or> ExpiresIn doc \<le> 0
      then (Inl (Msg ''token response missing access_token or expires_in''), st)
      else
        let (now, st) = read_clock env st;
            st = st\<lparr>lt_token := AccessToken doc, lt_expiresAt := now + seconds64 (ExpiresIn doc)\<rparr> in
        case emit_refresh env cfg (ExpiresIn doc) st of
          (Some e, st') \<Rightarrow> (Inl e, st')
        | (None, st') \<Rightarrow> (Inr (lt_token st'), st'))"

definition mint_token :: "'w lens_env \<Rightarrow> lens_config \<Rightarrow> 'w lens_st \<Rightarrow> string result \<times> 'w lens_st" where
  "mint_token env cfg st =
     (case lens_do env cfg (TokenURL cfg) (token_payload cfg) [] st of
        (Inl e, st') \<Rightarrow> (Inl (Wrap ''mint Lens token'' e), st')
      | (Inr text, st') \<Rightarrow>
          (case Option.bind (parse_text env text) (dec_token zero_token) of
             None \<Rightarrow> (Inl (Wrap ''decode token response'' (Msg ''json error'')), st')
           | Some doc \<Rightarrow> store_token env cfg doc st'))"

text \<open>The clock is read only when a token is held: the conjunction stops at an empty one.\<close>

definition accessToken :: "'w lens_env \<Rightarrow> lens_config \<Rightarrow> 'w lens_st \<Rightarrow> string result \<times> 'w lens_st" where
  "accessToken env cfg st =
     (if lt_token st = [] then mint_token env cfg st
      else
        let (now, st') = read_clock env st in
        if now + 60 * 1000000000 < lt_expiresAt st' then (Inr (lt_token st'), st')
        else mint_token env cfg st')"

section \<open>Queries\<close>

definition query_body :: "string \<Rightarrow> json \<Rightarrow> json" where
  "query_body document variables =
     JObj ((''query'', JStr document) # (if variables = JNull then [] else [(''variables'', variables)]))"

record envelope =
  env_Data :: json
  env_Errors :: json

definition dec_envelope :: "envelope decoder" where
  "dec_envelope = dec_struct
     [fld ''data'' dec_raw env_Data (\<lambda>v e. e\<lparr>env_Data := v\<rparr>),
      fld ''errors'' dec_raw env_Errors (\<lambda>v e. e\<lparr>env_Errors := v\<rparr>)]"

text \<open>
  The answer's data member, \<open>JNull\<close> when there is none. The errors member is compared as text:
  absent, \<^verbatim>\<open>null\<close> and \<^verbatim>\<open>[]\<close> are no error.
\<close>

definition read_envelope :: "'w lens_env \<Rightarrow> lens_config \<Rightarrow> string \<Rightarrow> string \<Rightarrow> json result" where
  "read_envelope env cfg tok text =
     (case Option.bind (parse_text env text) (dec_envelope \<lparr>env_Data = JNull, env_Errors = JNull\<rparr>) of
        None \<Rightarrow> Inl (Wrap ''decode GraphQL response'' (Msg ''json error''))
      | Some e \<Rightarrow>
          if env_Errors e \<noteq> JNull \<and> raw_errors env text \<noteq> ''[]''
          then Inl (Msg (''lens GraphQL errors: '' @ redact cfg (raw_errors env text) tok))
          else Inr (env_Data e))"

definition lens_Query :: "'w lens_env \<Rightarrow> lens_config \<Rightarrow> 'w lens_st query_client" where
  "lens_Query env cfg document variables st =
     (if mutationKeyword document then (Inl (Msg ''lens mutations are forbidden by this read-only client''), st)
      else (case accessToken env cfg st of
          (Inl e, st') \<Rightarrow> (Inl e, st')
        | (Inr tok, st') \<Rightarrow>
            (case lens_do env cfg (GraphQLURL cfg) (query_body document variables) tok st' of
               (Inl e, st'') \<Rightarrow> (Inl e, st'')
             | (Inr text, st'') \<Rightarrow> (read_envelope env cfg tok text, st''))))"

subsection \<open>Typed queries\<close>

record tenant =
  tenant_ID :: string
  tenant_Name :: string

record site =
  site_ID :: string
  site_Name :: string

record lens_device =
  ld_TenantID :: string
  ld_ID :: string
  ld_Name :: string
  Connected :: bool
  LastDetected :: string
  LastConfigRequestDate :: string
  SoftwareVersion :: string
  SoftwareBuild :: string
  InternalIP :: string
  ExternalIP :: string
  ld_HardwareModel :: string
  ProductID :: string
  ld_MACAddress :: string
  HardwareRevision :: string
  ld_Site :: "site option"
  ld_Room :: "site option"

record call =
  call_ID :: string
  call_State :: string

record firmware =
  fw_Version :: string
  ReleaseChannel :: "string option"

definition zero_lens_device :: lens_device where
  "zero_lens_device = \<lparr>ld_TenantID = [], ld_ID = [], ld_Name = [], Connected = False, LastDetected = [],
     LastConfigRequestDate = [], SoftwareVersion = [], SoftwareBuild = [], InternalIP = [], ExternalIP = [],
     ld_HardwareModel = [], ProductID = [], ld_MACAddress = [], HardwareRevision = [], ld_Site = None, ld_Room = None\<rparr>"

definition dec_site :: "site decoder" where
  "dec_site = dec_struct
     [fld ''id'' dec_string site_ID (\<lambda>v s. s\<lparr>site_ID := v\<rparr>),
      fld ''name'' dec_string site_Name (\<lambda>v s. s\<lparr>site_Name := v\<rparr>)]"

definition zero_site :: site where
  "zero_site = \<lparr>site_ID = [], site_Name = []\<rparr>"

definition dec_lens_device :: "lens_device decoder" where
  "dec_lens_device = dec_struct
     [fld ''id'' dec_string ld_ID (\<lambda>v d. d\<lparr>ld_ID := v\<rparr>),
      fld ''name'' dec_string ld_Name (\<lambda>v d. d\<lparr>ld_Name := v\<rparr>),
      fld ''connected'' dec_bool Connected (\<lambda>v d. d\<lparr>Connected := v\<rparr>),
      fld ''lastDetected'' dec_string LastDetected (\<lambda>v d. d\<lparr>LastDetected := v\<rparr>),
      fld ''lastConfigRequestDate'' dec_string LastConfigRequestDate (\<lambda>v d. d\<lparr>LastConfigRequestDate := v\<rparr>),
      fld ''softwareVersion'' dec_string SoftwareVersion (\<lambda>v d. d\<lparr>SoftwareVersion := v\<rparr>),
      fld ''softwareBuild'' dec_string SoftwareBuild (\<lambda>v d. d\<lparr>SoftwareBuild := v\<rparr>),
      fld ''internalIp'' dec_string InternalIP (\<lambda>v d. d\<lparr>InternalIP := v\<rparr>),
      fld ''externalIp'' dec_string ExternalIP (\<lambda>v d. d\<lparr>ExternalIP := v\<rparr>),
      fld ''hardwareModel'' dec_string ld_HardwareModel (\<lambda>v d. d\<lparr>ld_HardwareModel := v\<rparr>),
      fld ''productId'' dec_string ProductID (\<lambda>v d. d\<lparr>ProductID := v\<rparr>),
      fld ''macAddress'' dec_string ld_MACAddress (\<lambda>v d. d\<lparr>ld_MACAddress := v\<rparr>),
      fld ''hardwareRevision'' dec_string HardwareRevision (\<lambda>v d. d\<lparr>HardwareRevision := v\<rparr>),
      fld ''site'' (dec_ptr zero_site dec_site) ld_Site (\<lambda>v d. d\<lparr>ld_Site := v\<rparr>),
      fld ''room'' (dec_ptr zero_site dec_site) ld_Room (\<lambda>v d. d\<lparr>ld_Room := v\<rparr>)]"

definition tenantsQuery :: string where
  "tenantsQuery = ''{ tenants { id name } }''"

definition devicesQuery :: string where
  "devicesQuery = join [CHR 0x0A]
     [''query Devices($tenantID: ID!, $params: DeviceFindArgs!) {'',
      ''  tenant(id: $tenantID) { inventory { deviceSearch(params: $params) {'',
      ''    pageInfo { totalCount hasNextPage nextToken }'',
      ''    edges { node { id name connected lastDetected lastConfigRequestDate softwareVersion softwareBuild internalIp externalIp hardwareModel productId macAddress hardwareRevision site { id name } room { id name } } }'',
      ''  } } }'',
      ''}'']"

definition activeCallsQuery :: string where
  "activeCallsQuery = ''query ActiveCalls($deviceID: String!) { activeCalls(deviceId: $deviceID) { calls { id state } } }''"

definition firmwareQuery :: string where
  "firmwareQuery = ''query Firmware($pid: ID!) { availableProductSoftwareByPid(pid: $pid) { version releaseChannel } }''"

definition Tenants :: "'w lens_env \<Rightarrow> lens_config \<Rightarrow> 'w lens_st \<Rightarrow> tenant list result \<times> 'w lens_st" where
  "Tenants env cfg st = query_into []
     (dec_struct [fld ''tenants''
        (dec_list \<lparr>tenant_ID = [], tenant_Name = []\<rparr>
           (dec_struct [fld ''id'' dec_string tenant_ID (\<lambda>v t. t\<lparr>tenant_ID := v\<rparr>),
                        fld ''name'' dec_string tenant_Name (\<lambda>v t. t\<lparr>tenant_Name := v\<rparr>)]))
        (\<lambda>r. r) (\<lambda>v r. v)])
     (lens_Query env cfg tenantsQuery JNull st)"

record device_page =
  dp_HasNextPage :: bool
  dp_NextToken :: "string option"
  dp_Edges :: "lens_device list"

definition dec_device_page :: "device_page decoder" where
  "dec_device_page =
     dec_struct [fld ''tenant'' (
     dec_struct [fld ''inventory'' (
     dec_struct [fld ''deviceSearch'' (
     dec_struct
       [fld ''pageInfo''
          (dec_struct
             [fld ''hasNextPage'' dec_bool dp_HasNextPage (\<lambda>v p. p\<lparr>dp_HasNextPage := v\<rparr>),
              fld ''nextToken'' (dec_ptr [] dec_string) dp_NextToken (\<lambda>v p. p\<lparr>dp_NextToken := v\<rparr>)])
          (\<lambda>p. p) (\<lambda>v p. v),
        fld ''edges''
          (dec_list zero_lens_device (dec_struct [fld ''node'' dec_lens_device (\<lambda>d. d) (\<lambda>v d. v)]))
          dp_Edges (\<lambda>v p. p\<lparr>dp_Edges := v\<rparr>)])
     (\<lambda>p. p) (\<lambda>v p. v)]) (\<lambda>p. p) (\<lambda>v p. v)]) (\<lambda>p. p) (\<lambda>v p. v)]"

definition zero_device_page :: device_page where
  "zero_device_page = \<lparr>dp_HasNextPage = False, dp_NextToken = None, dp_Edges = []\<rparr>"

definition devices_vars :: "lens_config \<Rightarrow> string \<Rightarrow> string option \<Rightarrow> json" where
  "devices_vars cfg tid nextToken =
     JObj [(''params'', JObj ((case nextToken of None \<Rightarrow> [] | Some t \<Rightarrow> [(''nextToken'', JStr t)]) @
              [(''pageSize'', JNum (int_digits (PageSize cfg)))])),
           (''tenantID'', JStr tid)]"

definition fetch_devices :: "'w lens_env \<Rightarrow> lens_config \<Rightarrow> string \<Rightarrow> string option \<Rightarrow> 'w lens_st \<Rightarrow>
    device_page result \<times> 'w lens_st" where
  "fetch_devices env cfg tid nextToken st =
     query_into zero_device_page dec_device_page (lens_Query env cfg devicesQuery (devices_vars cfg tid nextToken) st)"

type_synonym 'w devices_run = "lens_device list \<times> 'w lens_st"

definition devices_step :: "'w lens_env \<Rightarrow> lens_config \<Rightarrow> string \<Rightarrow> string option \<Rightarrow> 'w devices_run \<Rightarrow>
    (lens_device list result \<times> 'w lens_st) + (string option \<times> 'w devices_run)" where
  "devices_step env cfg tid nextToken run =
     (case fetch_devices env cfg tid nextToken (snd run) of
        (Inl e, st) \<Rightarrow> Inl (Inl e, st)
      | (Inr page, st) \<Rightarrow>
          let all = fst run @ dp_Edges page in
          if \<not> dp_HasNextPage page then Inl (Inr all, st)
          else (case dp_NextToken page of
              None \<Rightarrow> Inl (Inl MissingNextToken, st)
            | Some t \<Rightarrow> if t = [] then Inl (Inl MissingNextToken, st) else Inr (Some t, all, st)))"

partial_function (option) devices_loop :: "'w lens_env \<Rightarrow> lens_config \<Rightarrow> string \<Rightarrow> string option \<Rightarrow> 'w devices_run \<Rightarrow>
    (lens_device list result \<times> 'w lens_st) option" where
  "devices_loop env cfg tid nextToken run =
     (case devices_step env cfg tid nextToken run of
        Inl r \<Rightarrow> Some r
      | Inr p \<Rightarrow> devices_loop env cfg tid (fst p) (snd p))"

definition Devices :: "'w lens_env \<Rightarrow> lens_config \<Rightarrow> string \<Rightarrow> 'w lens_st \<Rightarrow>
    (lens_device list result \<times> 'w lens_st) option" where
  "Devices env cfg tid st = devices_loop env cfg tid None ([], st)"

definition ActiveCalls :: "'w lens_env \<Rightarrow> lens_config \<Rightarrow> string \<Rightarrow> 'w lens_st \<Rightarrow> call list result \<times> 'w lens_st" where
  "ActiveCalls env cfg deviceID st = query_into []
     (dec_struct [fld ''activeCalls''
        (dec_struct [fld ''calls''
           (dec_list \<lparr>call_ID = [], call_State = []\<rparr>
              (dec_struct [fld ''id'' dec_string call_ID (\<lambda>v c. c\<lparr>call_ID := v\<rparr>),
                           fld ''state'' dec_string call_State (\<lambda>v c. c\<lparr>call_State := v\<rparr>)]))
           (\<lambda>r. r) (\<lambda>v r. v)])
        (\<lambda>r. r) (\<lambda>v r. v)])
     (lens_Query env cfg activeCallsQuery (JObj [(''deviceID'', JStr deviceID)]) st)"

definition LatestFirmware :: "'w lens_env \<Rightarrow> lens_config \<Rightarrow> string \<Rightarrow> 'w lens_st \<Rightarrow> firmware result \<times> 'w lens_st" where
  "LatestFirmware env cfg productID st = query_into \<lparr>fw_Version = [], ReleaseChannel = None\<rparr>
     (dec_struct [fld ''availableProductSoftwareByPid''
        (dec_struct [fld ''version'' dec_string fw_Version (\<lambda>v f. f\<lparr>fw_Version := v\<rparr>),
                     fld ''releaseChannel'' (dec_ptr [] dec_string) ReleaseChannel (\<lambda>v f. f\<lparr>ReleaseChannel := v\<rparr>)])
        (\<lambda>r. r) (\<lambda>v r. v)])
     (lens_Query env cfg firmwareQuery (JObj [(''pid'', JStr productID)]) st)"

section \<open>The mutation guard as a specification\<close>

definition mutation_token :: "string \<Rightarrow> bool" where
  "mutation_token document \<longleftrightarrow>
     (\<exists>a m b. document = a @ m @ b \<and> map lower_char m = keyword \<and>
        (a = [] \<or> \<not> is_word (last a)) \<and> (b = [] \<or> \<not> is_word (hd b)))"

lemma length_keyword [simp]: "length keyword = 8"
  by (simp add: keyword_def)

lemma keyword_not_Nil [simp]: "keyword \<noteq> []" "[] \<noteq> keyword"
  by (simp_all add: keyword_def)

lemma word_head_iff: "word_head s \<longleftrightarrow> s \<noteq> [] \<and> is_word (hd s)"
  by (cases s) (auto simp: word_head_def)

lemma keyword_at_front:
  "(\<exists>m b. s = m @ b \<and> map lower_char m = keyword \<and> \<not> word_head b) \<longleftrightarrow>
   map lower_char (take 8 s) = keyword \<and> \<not> word_head (drop 8 s)"
proof
  assume "\<exists>m b. s = m @ b \<and> map lower_char m = keyword \<and> \<not> word_head b"
  then obtain m b where s: "s = m @ b" "map lower_char m = keyword" "\<not> word_head b" by blast
  then have "length m = 8" by (metis length_keyword length_map)
  with s show "map lower_char (take 8 s) = keyword \<and> \<not> word_head (drop 8 s)" by simp
next
  assume "map lower_char (take 8 s) = keyword \<and> \<not> word_head (drop 8 s)"
  then show "\<exists>m b. s = m @ b \<and> map lower_char m = keyword \<and> \<not> word_head b"
    by (intro exI [of _ "take 8 s"] exI [of _ "drop 8 s"]) simp
qed

lemma mutation_from_iff:
  "mutation_from w s \<longleftrightarrow>
     (\<exists>a m b. s = a @ m @ b \<and> map lower_char m = keyword \<and>
        (if a = [] then \<not> w else \<not> is_word (last a)) \<and> \<not> word_head b)" (is "_ \<longleftrightarrow> ?P w s")
proof (induction s arbitrary: w)
  case Nil
  then show ?case by auto
next
  case (Cons c cs)
  let ?front = "\<exists>m b. c # cs = m @ b \<and> map lower_char m = keyword \<and> \<not> word_head b"
  have "?P w (c # cs) \<longleftrightarrow> (\<not> w \<and> ?front) \<or> ?P (is_word c) cs"
  proof
    assume "?P w (c # cs)"
    then obtain a m b where h: "c # cs = a @ m @ b" "map lower_char m = keyword"
      "if a = [] then \<not> w else \<not> is_word (last a)" "\<not> word_head b" by blast
    show "(\<not> w \<and> ?front) \<or> ?P (is_word c) cs"
    proof (cases a)
      case Nil
      with h show ?thesis by auto
    next
      case (Cons x xs)
      with h have "cs = xs @ m @ b" "if xs = [] then \<not> is_word c else \<not> is_word (last xs)" by (auto split: if_splits)
      with h show ?thesis by blast
    qed
  next
    assume "(\<not> w \<and> ?front) \<or> ?P (is_word c) cs"
    then show "?P w (c # cs)"
    proof
      assume "\<not> w \<and> ?front"
      then show ?thesis by (metis append_Nil)
    next
      assume "?P (is_word c) cs"
      then obtain a m b where h: "cs = a @ m @ b" "map lower_char m = keyword"
        "if a = [] then \<not> is_word c else \<not> is_word (last a)" "\<not> word_head b" by blast
      then have "c # cs = (c # a) @ m @ b" "if c # a = [] then \<not> w else \<not> is_word (last (c # a))" by auto
      with h show ?thesis by blast
    qed
  qed
  then show ?case unfolding keyword_at_front by (simp add: Cons.IH)
qed

lemma mutationKeyword_iff: "mutationKeyword d \<longleftrightarrow> mutation_token d"
proof -
  have a: "(if a = [] then \<not> False else \<not> is_word (last a)) \<longleftrightarrow> a = [] \<or> \<not> is_word (last a)" for a
    by simp
  have b: "\<not> word_head b \<longleftrightarrow> b = [] \<or> \<not> is_word (hd b)" for b
    by (simp add: word_head_iff)
  show ?thesis unfolding mutationKeyword_def mutation_token_def mutation_from_iff a b by (rule refl)
qed

section \<open>Backoff and retries\<close>

interpretation lens_delay: backoff_delay "lens_backoff cfg" "MinBackoff cfg" "MaxBackoff cfg" for cfg
proof
  show "lens_backoff cfg n \<le> MaxBackoff cfg" for n by (simp add: lens_backoff_def doubling_le)
  show "lens_backoff cfg 1 = MinBackoff cfg" if "MinBackoff cfg \<le> MaxBackoff cfg"
    using that by (simp add: lens_backoff_def)
  show "lens_backoff cfg n \<le> lens_backoff cfg (Suc n)"
    if "0 < MinBackoff cfg" "MinBackoff cfg \<le> MaxBackoff cfg" "1 \<le> n" for n
    using doubling_mono [OF that(1,2), of "n - 1"] that(3) by (simp add: lens_backoff_def)
qed

lemma lens_New_bounds:
  assumes "lens_New cfg0 = Inr cfg"
  shows "0 < MinBackoff cfg" "MinBackoff cfg \<le> MaxBackoff cfg" "1 \<le> MaxAttempts cfg"
    "1 \<le> PageSize cfg" "PageSize cfg \<le> 5000" "ClientSecret cfg = ClientSecret cfg0" "ClientSecret cfg \<noteq> []"
  using assms by (auto simp: lens_New_def with_defaults_def Let_def split: if_splits)

lemma attempt_once_state:
  assumes "attempt_once env cfg rq st = (r, st')"
  shows "lt_sent st' = lt_sent st @ [rq]" "lt_slept st' = lt_slept st" "lt_token st' = lt_token st"
    "lt_expiresAt st' = lt_expiresAt st" "lt_tel st' = lt_tel st"
  using assms by (auto simp: attempt_once_def Let_def split: prod.splits sum.splits)

lemma sleepContext_state:
  assumes "sleepContext env d st = (r, st')"
  shows "lt_sent st' = lt_sent st" "lt_slept st' = lt_slept st @ [d]" "lt_token st' = lt_token st"
    "lt_expiresAt st' = lt_expiresAt st" "lt_tel st' = lt_tel st"
  using assms by (auto simp: sleepContext_def Let_def split: prod.splits)

text \<open>
  The trace of the request loop from attempt \<open>a\<close> with \<open>n\<close> attempts left: \<open>k\<close> copies of the request,
  \<open>j\<close> pauses, and the reason it stopped.
\<close>

definition do_trace :: "'w lens_env \<Rightarrow> lens_config \<Rightarrow> lens_request \<Rightarrow> nat \<Rightarrow> nat \<Rightarrow> 'w lens_st \<Rightarrow> string result \<Rightarrow> 'w lens_st \<Rightarrow> nat \<Rightarrow> nat \<Rightarrow> bool" where
  "do_trace env cfg rq a n st r st' k j \<longleftrightarrow>
     k \<le> n \<and> lt_sent st' = lt_sent st @ replicate k rq \<and>
     lt_slept st' = lt_slept st @ map (lens_backoff cfg) [a..<a + j] \<and>
     (j = k \<or> Suc j = k) \<and>
     (isOK r \<or> k = n \<or> j = k \<or> (\<exists>e. r = Inl e \<and> \<not> lens_retryable e)) \<and>
     lt_token st' = lt_token st \<and> lt_expiresAt st' = lt_expiresAt st \<and> lt_tel st' = lt_tel st"

lemma do_trace_here: "do_trace env cfg rq a n st r st 0 0"
  by (simp add: do_trace_def)

lemma do_trace_step:
  assumes "attempt_once env cfg rq st = (r1, st1)" "sleepContext env (lens_backoff cfg a) st1 = (r2, st2)"
    and "do_trace env cfg rq (Suc a) n st2 r st' k j"
  shows "do_trace env cfg rq a (Suc n) st r st' (Suc k) (Suc j)"
proof -
  have "[a..<a + Suc j] = a # [Suc a..<Suc a + j]" by (simp add: upt_conv_Cons del: upt_Suc)
  with assms(3) attempt_once_state [OF assms(1)] sleepContext_state [OF assms(2)]
  show ?thesis by (auto simp: do_trace_def simp del: upt_Suc)
qed

lemma do_from_trace: "do_from env cfg rq a n st = (r, st') \<Longrightarrow> \<exists>k j. do_trace env cfg rq a n st r st' k j"
proof (induction n arbitrary: a st)
  case 0
  then have "st' = st" by simp
  then show ?case using do_trace_here by blast
next
  case (Suc n)
  show ?case
  proof (cases "new_request env (lq_url rq)")
    case (Some e)
    with Suc.prems have "st' = st" by simp
    then show ?thesis using do_trace_here by blast
  next
    case None
    obtain r1 st1 where a1: "attempt_once env cfg rq st = (r1, st1)" by (rule prod.exhaust)
    show ?thesis
    proof (cases "\<exists>e. r1 = Inl e \<and> n \<noteq> 0 \<and> lens_retryable e")
      case False
      then have "st' = st1" "r = r1" using Suc.prems None a1 by (auto split: sum.splits if_splits)
      with False have "do_trace env cfg rq a (Suc n) st r st' 1 0"
        using attempt_once_state [OF a1] by (cases r1) (auto simp: do_trace_def)
      then show ?thesis by blast
    next
      case True
      then obtain e where e: "r1 = Inl e" "n \<noteq> 0" "lens_retryable e" by blast
      obtain r2 st2 where s2: "sleepContext env (lens_backoff cfg a) st1 = (r2, st2)" by (rule prod.exhaust)
      show ?thesis
      proof (cases r2)
        case (Some e')
        then have "st' = st2" "r = Inl e'" using Suc.prems None a1 e s2 by auto
        then have "do_trace env cfg rq a (Suc n) st r st' 1 1"
          using attempt_once_state [OF a1] sleepContext_state [OF s2] by (auto simp: do_trace_def)
        then show ?thesis by blast
      next
        case r2: None
        then have "do_from env cfg rq (Suc a) n st2 = (r, st')" using Suc.prems None a1 e s2 by auto
        then show ?thesis using Suc.IH do_trace_step [OF a1 s2] by blast
      qed
    qed
  qed
qed

lemma lens_do_trace:
  assumes "lens_do env cfg url body bearer st = (r, st')"
  obtains k j where "do_trace env cfg \<lparr>lq_url = url, lq_body = body, lq_bearer = bearer\<rparr> 1 (nat (MaxAttempts cfg)) st r st' k j"
  using assms do_from_trace unfolding lens_do_def by blast


text \<open>A small Lens service: the first exchange of a run is refused, then tokens are minted and queries forbidden.\<close>

definition ex_lens_cfg :: lens_config where
  "ex_lens_cfg = \<lparr>TokenURL = ''token'', GraphQLURL = ''graphql'', ClientID = ''id'', ClientSecret = ''s3cret'',
     PageSize = 10, MaxAttempts = 3, MinBackoff = 1, MaxBackoff = 4, lens_emitter = None\<rparr>"

definition ex_exchange :: "lens_request \<Rightarrow> nat \<Rightarrow> lens_response result \<times> nat" where
  "ex_exchange rq w =
     (if w = 0 then Inl (Msg ''connection refused'')
      else if lq_url rq = ''token'' then Inr \<lparr>ls_status = 200, ls_text = Inr ''t'', ls_close = None\<rparr>
      else Inr \<lparr>ls_status = 403, ls_text = Inr ''no s3cret for tok'', ls_close = None\<rparr>, Suc w)"

definition ex_lens_env :: "nat lens_env" where
  "ex_lens_env = \<lparr>new_request = (\<lambda>_. None), lens_exchange = ex_exchange, sleep_for = (\<lambda>d w. (None, w)),
     clock = (\<lambda>w. (int w, w)), lens_meter = ex_meter,
     parse_text = (\<lambda>t. if t = ''t'' then Some (JObj [(''access_token'', JStr ''tok''), (''expires_in'', JNum ''3600'')]) else None),
     raw_errors = (\<lambda>_. [])\<rparr>"

definition ex_lens_st :: "nat lens_st" where
  "ex_lens_st = \<lparr>lt_token = [], lt_expiresAt = 0, lt_tel = ex_tel, lt_sent = [], lt_slept = [], lt_net = 0\<rparr>"

lemma ex_lens_New: "lens_New ex_lens_cfg = Inr ex_lens_cfg"
  by code_simp

definition ex_query :: lens_request where
  "ex_query = \<lparr>lq_url = ''graphql'', lq_body = JNull, lq_bearer = ''tok''\<rparr>"

lemma ex_lens_redact: "redact ex_lens_cfg ''no s3cret for tok'' ''tok'' = ''no [redacted] for [redacted]''"
  by code_simp

lemma ex_lens_retryable: "lens_retryable (Msg m)" "\<not> lens_retryable (HTTPError 403 t)"
  by (simp_all add: lens_retryable_def)

lemma ex_lens_do:
  "lens_do ex_lens_env ex_lens_cfg ''graphql'' JNull ''tok'' ex_lens_st =
     (Inl (HTTPError 403 ''no [redacted] for [redacted]''),
      ex_lens_st\<lparr>lt_sent := [ex_query, ex_query], lt_slept := [1], lt_net := 2\<rparr>)"
proof -
  have n: "nat (MaxAttempts ex_lens_cfg) = Suc (Suc (Suc 0))" "lens_backoff ex_lens_cfg 1 = 1"
    by (simp_all add: ex_lens_cfg_def lens_backoff_def)
  show ?thesis
    using ex_lens_redact unfolding lens_do_def n(1)
    by (simp add: attempt_once_def read_response_def sleepContext_def ex_lens_retryable n(2) [simplified]
        ex_lens_env_def ex_exchange_def ex_lens_st_def ex_query_def)
qed


section \<open>Redaction\<close>

text \<open>What \<^verbatim>\<open>strings.ReplaceAll\<close> does: the text is cut at the occurrences it finds, and no piece holds one.\<close>

lemma replace_all_pieces:
  assumes "old \<noteq> []"
  shows "\<exists>ps. ps \<noteq> [] \<and> s = join old ps \<and> replace_all old new s = join new ps \<and> (\<forall>p \<in> set ps. \<not> sublist old p)"
proof (induction s rule: length_induct)
  case (1 s)
  show ?case
  proof (cases s)
    case Nil
    with assms show ?thesis by (intro exI [of _ "[[]]"]) auto
  next
    case (Cons c cs)
    show ?thesis
    proof (cases "prefix old s")
      case True
      let ?rest = "drop (length old) s"
      have "length ?rest < length s" using assms Cons by simp
      with 1 obtain ps where ps: "ps \<noteq> []" "?rest = join old ps" "replace_all old new ?rest = join new ps"
        "\<forall>p \<in> set ps. \<not> sublist old p" by blast
      have s: "s = old @ ?rest" using True by (auto simp: prefix_def)
      have r: "replace_all old new s = new @ replace_all old new ?rest"
        using replace_all_Cons [OF assms, of new c cs] True Cons by simp
      have "s = join old ([] # ps)" using s ps(1,2) by (simp add: join_Cons)
      moreover have "replace_all old new s = join new ([] # ps)" using r ps(1,3) by (simp add: join_Cons)
      ultimately show ?thesis using ps(4) assms by (intro exI [of _ "[] # ps"]) auto
    next
      case False
      from 1 Cons obtain ps where ps: "ps \<noteq> []" "cs = join old ps" "replace_all old new cs = join new ps"
        "\<forall>p \<in> set ps. \<not> sublist old p" by auto
      then obtain q qs where q: "ps = q # qs" by (cases ps) auto
      have pre: "prefix (c # q) s" using Cons ps(2) q by (cases qs) auto
      have "\<not> sublist old (c # q)"
        using ps(4) q False pre assms by (auto simp: sublist_Cons_right dest: prefix_order.trans)
      moreover have "join sep ((c # q) # qs) = c # join sep ps" for sep using q by (cases qs) auto
      moreover have "replace_all old new s = c # replace_all old new cs"
        using replace_all_Cons [OF assms, of new c cs] False Cons by simp
      ultimately show ?thesis using ps q Cons by (intro exI [of _ "(c # q) # qs"]) auto
    qed
  qed
qed

lemma sublist_append_sep:
  assumes "sublist t (a @ x # b)" "x \<notin> set t"
  shows "sublist t a \<or> sublist t b"
proof -
  from assms(1) obtain p q where "a @ x # b = p @ t @ q" by (auto simp: sublist_def)
  then consider us where "a = p @ us" "us @ x # b = t @ q" | us where "a @ us = p" "x # b = us @ t @ q"
    by (auto simp: append_eq_append_conv2)
  then show ?thesis
  proof cases
    case 1
    then consider vs where "us = t @ vs" | vs where "us @ vs = t" "x # b = vs @ q"
      by (auto simp: append_eq_append_conv2)
    then show ?thesis
    proof cases
      case 1
      with \<open>a = p @ us\<close> show ?thesis by auto
    next
      case (2 vs)
      with assms(2) have "vs = []" by (cases vs) auto
      with 2 1 have "a = p @ t" by simp
      then show ?thesis by simp
    qed
  next
    case (2 us)
    show ?thesis
    proof (cases us)
      case Nil
      with 2 assms(2) show ?thesis by (cases t) auto
    next
      case (Cons y ys)
      with 2 show ?thesis by auto
    qed
  qed
qed

text \<open>Text a marker in brackets cannot make up or hide.\<close>

definition markable :: "string \<Rightarrow> bool" where
  "markable t \<longleftrightarrow> t \<noteq> [] \<and> CHR ''['' \<notin> set t \<and> CHR '']'' \<notin> set t \<and> \<not> contains ''redacted'' t"

lemma sublist_join_redacted:
  assumes "markable t" "sublist t (join redacted ps)"
  shows "\<exists>p \<in> set ps. sublist t p"
  using assms(2)
proof (induction ps)
  case Nil
  with assms(1) show ?case by (simp add: markable_def)
next
  case (Cons p ps)
  show ?case
  proof (cases "ps = []")
    case True
    with Cons.prems show ?thesis by simp
  next
    case False
    then have "sublist t (p @ CHR ''['' # ''redacted'' @ CHR '']'' # join redacted ps)"
      using Cons.prems by (simp add: join_Cons redacted_def)
    then have "sublist t p \<or> sublist t ''redacted'' \<or> sublist t (join redacted ps)"
      using assms(1) sublist_append_sep [of t p "CHR ''[''"] sublist_append_sep [of t "''redacted''" "CHR '']''"]
      unfolding markable_def by blast
    with assms(1) Cons.IH show ?thesis by (auto simp: markable_def contains_iff_sublist)
  qed
qed

lemma sublist_join_piece: "p \<in> set ps \<Longrightarrow> sublist p (join sep ps)"
proof (induction ps)
  case (Cons q ps)
  show ?case
  proof (cases "ps = []")
    case False
    then have "join sep (q # ps) = (q @ sep) @ join sep ps" by (simp add: join_Cons)
    with Cons show ?thesis by (metis append_assoc append_Nil set_ConsD sublist_append_rightI sublist_appendI sublist_append_leftI sublist_order.order.trans)
  qed (use Cons in simp)
qed simp

lemma replace_all_removes:
  assumes "markable old"
  shows "\<not> sublist old (replace_all old redacted s)"
  using replace_all_pieces [of old s redacted] sublist_join_redacted [OF assms] assms
  unfolding markable_def by metis

lemma replace_all_keeps_out:
  assumes "old \<noteq> []" "markable t" "\<not> sublist t s"
  shows "\<not> sublist t (replace_all old redacted s)"
  using replace_all_pieces [OF assms(1), of s redacted] sublist_join_redacted [OF assms(2)] sublist_join_piece assms(3)
  by (metis sublist_order.order.trans)

lemma redact_clean:
  assumes "markable (ClientSecret cfg)" "bearer \<noteq> [] \<Longrightarrow> markable bearer"
  shows "\<not> sublist (ClientSecret cfg) (redact cfg body bearer)" "bearer \<noteq> [] \<Longrightarrow> \<not> sublist bearer (redact cfg body bearer)"
proof -
  have s: "ClientSecret cfg \<noteq> []" using assms(1) by (simp add: markable_def)
  note r = replace_all_removes [OF assms(1), of body]
  show "\<not> sublist (ClientSecret cfg) (redact cfg body bearer)"
    using r replace_all_keeps_out [of bearer "ClientSecret cfg", OF _ assms(1) r] s by (simp add: redact_def Let_def)
  show "bearer \<noteq> [] \<Longrightarrow> \<not> sublist bearer (redact cfg body bearer)"
    using replace_all_removes [OF assms(2)] by (simp add: redact_def Let_def)
qed

lemma do_from_redacted:
  assumes "\<And>rq w e w'. lens_exchange env rq w = (Inl e, w') \<Longrightarrow> as_http_error e = None"
    and "\<And>d w e w'. sleep_for env d w = (Some e, w') \<Longrightarrow> as_http_error e = None"
  shows "do_from env cfg rq a n st = (Inl (HTTPError status text), st') \<Longrightarrow> \<exists>data. text = redact cfg data (lq_bearer rq)"
proof (induction n arbitrary: a st)
  case (Suc n)
  obtain r1 st1 where a1: "attempt_once env cfg rq st = (r1, st1)" by (rule prod.exhaust)
  obtain r2 st2 where s2: "sleepContext env (lens_backoff cfg a) st1 = (r2, st2)" by (rule prod.exhaust)
  have h1: "\<exists>data. text = redact cfg data (lq_bearer rq)" if "r1 = Inl (HTTPError status text)"
    using a1 that assms(1) [of rq "lt_net st" "HTTPError status text"]
    by (auto simp: attempt_once_def read_response_def Let_def split: prod.splits sum.splits option.splits if_splits)
  have h2: "r2 \<noteq> Some (HTTPError status text)"
    using s2 assms(2) [of "lens_backoff cfg a" "lt_net st1" "HTTPError status text"] by (auto simp: sleepContext_def Let_def split: prod.splits)
  show ?case
    using Suc.prems Suc.IH [of "Suc a" st2] a1 s2 h1 h2 by (auto split: option.splits sum.splits if_splits)
qed simp

text \<open>
  C36 (no secret in an error). The body kept in the error of a refused request shows neither the
  client secret nor the bearer token, provided the transport and the timer make no \<^verbatim>\<open>HTTPError\<close> of
  their own and the two credentials have no bracket and do not occur in the word \<^verbatim>\<open>redacted\<close>.
\<close>

theorem lens_error_redacted:
  assumes "\<And>rq w e w'. lens_exchange env rq w = (Inl e, w') \<Longrightarrow> as_http_error e = None"
    and "\<And>d w e w'. sleep_for env d w = (Some e, w') \<Longrightarrow> as_http_error e = None"
    and "markable (ClientSecret cfg)" "bearer = [] \<or> markable bearer"
    and "lens_do env cfg url body bearer st = (Inl (HTTPError status text), st')"
  shows "\<not> contains text (ClientSecret cfg) \<and> (bearer = [] \<or> \<not> contains text bearer)"
proof -
  from assms(5) obtain data where "text = redact cfg data bearer"
    unfolding lens_do_def using do_from_redacted [of env, OF assms(1,2)] by fastforce
  with redact_clean [OF assms(3), of bearer data] assms(4) show ?thesis by (auto simp: contains_iff_sublist)
qed

theorem lens_error_redacted_witness:
  "\<not> contains ''no [redacted] for [redacted]'' (ClientSecret ex_lens_cfg) \<and> \<not> contains ''no [redacted] for [redacted]'' ''tok''"
proof -
  have "lens_exchange ex_lens_env rq w = (Inl e, w') \<Longrightarrow> as_http_error e = None" for rq w e w'
    by (auto simp: ex_lens_env_def ex_exchange_def split: if_splits)
  moreover have "sleep_for ex_lens_env d w = (Some e, w') \<Longrightarrow> as_http_error e = None" for d w e w'
    by (simp add: ex_lens_env_def)
  moreover have "markable (ClientSecret ex_lens_cfg)" "markable ''tok''" by code_simp+
  ultimately show ?thesis using lens_error_redacted [of ex_lens_env, OF _ _ _ _ ex_lens_do] by blast
qed

section \<open>Credentials and the token cache\<close>

definition token_request :: "lens_config \<Rightarrow> lens_request" where
  "token_request cfg = \<lparr>lq_url = TokenURL cfg, lq_body = token_payload cfg, lq_bearer = []\<rparr>"

definition graphql_request :: "lens_config \<Rightarrow> string \<Rightarrow> json \<Rightarrow> string \<Rightarrow> lens_request" where
  "graphql_request cfg document variables bearer =
     \<lparr>lq_url = GraphQLURL cfg, lq_body = query_body document variables, lq_bearer = bearer\<rparr>"

lemma read_clock_state [simp]:
  assumes "read_clock env st = (t, st')"
  shows "lt_sent st' = lt_sent st" "lt_token st' = lt_token st" "lt_expiresAt st' = lt_expiresAt st" "lt_tel st' = lt_tel st"
  using assms by (auto simp: read_clock_def Let_def split: prod.splits)

lemma emit_refresh_state:
  assumes "emit_refresh env cfg n st = (r, st')"
  shows "lt_sent st' = lt_sent st" "lt_token st' = lt_token st" "lt_expiresAt st' = lt_expiresAt st"
  using assms by (auto simp: emit_refresh_def Let_def split: prod.splits option.splits)

lemma store_token_sent: "store_token env cfg doc st = (r, st') \<Longrightarrow> lt_sent st' = lt_sent st"
  by (auto simp: store_token_def Let_def dest: emit_refresh_state split: prod.splits option.splits if_splits)

lemma store_token_Inr:
  assumes "store_token env cfg doc st = (Inr t, st')"
  shows "t = AccessToken doc" "t \<noteq> []" "lt_token st' = t" "0 < ExpiresIn doc"
    "lt_expiresAt st' = fst (clock env (lt_net st)) + seconds64 (ExpiresIn doc)"
proof -
  obtain now w where c: "clock env (lt_net st) = (now, w)" by (rule prod.exhaust)
  let ?st = "st\<lparr>lt_net := w, lt_token := AccessToken doc, lt_expiresAt := now + seconds64 (ExpiresIn doc)\<rparr>"
  obtain r st2 where e: "emit_refresh env cfg (ExpiresIn doc) ?st = (r, st2)" by (rule prod.exhaust)
  have h: "AccessToken doc \<noteq> [] \<and> 0 < ExpiresIn doc \<and> t = lt_token st2 \<and> st' = st2"
    using assms c e by (cases r) (auto simp: store_token_def read_clock_def split: if_splits)
  show "t = AccessToken doc" "t \<noteq> []" "lt_token st' = t" "0 < ExpiresIn doc"
    "lt_expiresAt st' = fst (clock env (lt_net st)) + seconds64 (ExpiresIn doc)"
    using h emit_refresh_state [OF e] c by simp_all
qed

lemma mint_token_sent:
  assumes "mint_token env cfg st = (r, st')"
  shows "\<exists>i \<le> nat (MaxAttempts cfg). lt_sent st' = lt_sent st @ replicate i (token_request cfg)"
proof -
  obtain r1 st1 where d: "lens_do env cfg (TokenURL cfg) (token_payload cfg) [] st = (r1, st1)" by (rule prod.exhaust)
  have "lt_sent st' = lt_sent st1"
    using assms d by (auto simp: mint_token_def dest: store_token_sent split: sum.splits option.splits)
  moreover from lens_do_trace [OF d] have "\<exists>i \<le> nat (MaxAttempts cfg). lt_sent st1 = lt_sent st @ replicate i (token_request cfg)"
    by (auto simp: do_trace_def token_request_def)
  ultimately show ?thesis by simp
qed

lemma mint_token_Inr: "mint_token env cfg st = (Inr t, st') \<Longrightarrow> t \<noteq> [] \<and> lt_token st' = t"
  by (auto simp: mint_token_def dest: store_token_Inr(2,3) split: prod.splits sum.splits option.splits)

lemma accessToken_sent:
  assumes "accessToken env cfg st = (r, st')"
  shows "\<exists>i \<le> nat (MaxAttempts cfg). lt_sent st' = lt_sent st @ replicate i (token_request cfg)"
proof -
  obtain now st1 where c: "read_clock env st = (now, st1)" by (rule prod.exhaust)
  then consider "mint_token env cfg st = (r, st')" | "mint_token env cfg st1 = (r, st')" | "st' = st1"
    using assms by (auto simp: accessToken_def split: if_splits)
  then show ?thesis
    using mint_token_sent read_clock_state(1) [OF c] by cases (force, metis, auto intro: exI [of _ 0])
qed

lemma accessToken_Inr: "accessToken env cfg st = (Inr t, st') \<Longrightarrow> t \<noteq> [] \<and> lt_token st' = t"
  by (auto simp: accessToken_def Let_def dest: mint_token_Inr read_clock_state split: prod.splits if_splits)


text \<open>A cheap test: the keyword starts with a pair of letters that none of the documents has.\<close>

fun has_mu :: "string \<Rightarrow> bool" where
  "has_mu (c # d # s) \<longleftrightarrow>
     (c = CHR ''m'' \<or> c = CHR ''M'') \<and> (d = CHR ''u'' \<or> d = CHR ''U'') \<or> has_mu (d # s)"
| "has_mu _ = False"

lemma lower_char_mu:
  "lower_char c = CHR ''m'' \<longleftrightarrow> c = CHR ''m'' \<or> c = CHR ''M''"
  "lower_char c = CHR ''u'' \<longleftrightarrow> c = CHR ''u'' \<or> c = CHR ''U''"
proof -
  have "code (lower_char c) = (if is_upper c then code c + 32 else code c)"
    using code_char_of [of "code c + 32"] by (simp add: lower_char_def is_upper_def)
  moreover have "code (CHR ''m'') = 109" "code (CHR ''M'') = 77" "code (CHR ''u'') = 117" "code (CHR ''U'') = 85"
    by (simp_all add: code_def)
  ultimately show "lower_char c = CHR ''m'' \<longleftrightarrow> c = CHR ''m'' \<or> c = CHR ''M''"
    "lower_char c = CHR ''u'' \<longleftrightarrow> c = CHR ''u'' \<or> c = CHR ''U''"
    unfolding code_inject [symmetric] by (auto simp: is_upper_def split: if_splits)
qed

lemma no_pair_no_mutation: "\<not> has_mu s \<Longrightarrow> \<not> mutationKeyword s"
proof -
  have "mutation_from w s \<Longrightarrow> has_mu s" for w
  proof (induction w s rule: mutation_from.induct)
    case (2 w c cs)
    then show ?case
      by (cases cs) (auto simp: keyword_def lower_char_mu)
  qed simp
  then show "\<not> has_mu s \<Longrightarrow> \<not> mutationKeyword s" by (auto simp: mutationKeyword_def)
qed

lemma own_documents:
  "\<forall>own \<in> {tenantsQuery, devicesQuery, activeCallsQuery, firmwareQuery, cdr_query}. \<not> has_mu own"
proof -
  have "\<not> has_mu tenantsQuery" "\<not> has_mu activeCallsQuery" "\<not> has_mu firmwareQuery" "\<not> has_mu devicesQuery" "\<not> has_mu cdr_query"
    by (simp_all add: tenantsQuery_def activeCallsQuery_def firmwareQuery_def devicesQuery_def cdr_query_def)
  then show ?thesis by blast
qed



lemma seconds64_exact: "0 \<le> n \<Longrightarrow> n \<le> 9223372036 \<Longrightarrow> seconds64 n = n * 1000000000"
  unfolding seconds64_def signed_of_int by (simp add: signed_take_bit_int_eq_self_iff)

text \<open>A longer lifetime wraps: the token is stored as expired and every later call mints another.\<close>

lemma seconds64_wraps: "seconds64 9223372037 = - 9223372036709551616"
  by code_simp

text \<open>
  Token lifetime. A token stored at time \<open>t0\<close> with a lifetime of \<open>n\<close> seconds, at most 9223372036, is
  handed out again without a request exactly until one minute before \<open>t0 + n\<close>; from then on a new one
  is minted.
\<close>

theorem token_lifetime:
  assumes "store_token env cfg doc st = (Inr t, st1)" "ExpiresIn doc \<le> 9223372036" "clock env (lt_net st) = (t0, w0)"
    and "lt_token st2 = lt_token st1" "lt_expiresAt st2 = lt_expiresAt st1" "clock env (lt_net st2) = (now, w2)"
  shows "accessToken env cfg st2 =
    (if now + 60 * 1000000000 < t0 + ExpiresIn doc * 1000000000
     then (Inr (AccessToken doc), st2\<lparr>lt_net := w2\<rparr>)
     else mint_token env cfg (st2\<lparr>lt_net := w2\<rparr>))"
proof -
  note st = store_token_Inr [OF assms(1)]
  have "lt_expiresAt st2 = t0 + ExpiresIn doc * 1000000000"
    using st(4,5) assms(2,3,5) seconds64_exact [of "ExpiresIn doc"] by simp
  with st(1-3) assms(4,6) show ?thesis by (simp add: accessToken_def read_clock_def)
qed

theorem token_lifetime_witness:
  "accessToken ex_lens_env ex_lens_cfg (ex_lens_st\<lparr>lt_token := ''tok'', lt_expiresAt := 3600000000000, lt_net := 7\<rparr>) =
     (Inr ''tok'', ex_lens_st\<lparr>lt_token := ''tok'', lt_expiresAt := 3600000000000, lt_net := 7\<rparr>)"
proof -
  have "seconds64 3600 = 3600000000000" by (simp add: seconds64_exact)
  then have "store_token ex_lens_env ex_lens_cfg \<lparr>AccessToken = ''tok'', ExpiresIn = 3600\<rparr> ex_lens_st =
      (Inr ''tok'', ex_lens_st\<lparr>lt_token := ''tok'', lt_expiresAt := 3600000000000\<rparr>)"
    by (simp add: store_token_def read_clock_def emit_refresh_def ex_lens_env_def ex_lens_cfg_def ex_lens_st_def)
  from token_lifetime [OF this, of 0 0 "ex_lens_st\<lparr>lt_token := ''tok'', lt_expiresAt := 3600000000000, lt_net := 7\<rparr>" 7 7]
  show ?thesis by (simp add: ex_lens_env_def ex_lens_st_def)
qed

section \<open>Device pages\<close>

lemma devices_loop_finite:
  assumes "devices_loop env cfg tid tok run = Some r"
  shows "\<exists>n. run_steps (devices_step env cfg tid) n tok run = Some r"
proof (rule devices_loop.raw_induct
    [where P = "\<lambda>env cfg tid tok run r. \<exists>n. run_steps (devices_step env cfg tid) n tok run = Some r", OF _ assms])
  fix loop :: "'a lens_env \<Rightarrow> lens_config \<Rightarrow> string \<Rightarrow> string option \<Rightarrow> 'a devices_run \<Rightarrow>
      (lens_device list result \<times> 'a lens_st) option"
    and env cfg tid tok run r
  assume IH: "\<And>env cfg tid tok run r. loop env cfg tid tok run = Some r \<Longrightarrow>
      \<exists>n. run_steps (devices_step env cfg tid) n tok run = Some r"
    and eq: "(case devices_step env cfg tid tok run of Inl r \<Rightarrow> Some r
        | Inr p \<Rightarrow> loop env cfg tid (fst p) (snd p)) = Some r"
  show "\<exists>n. run_steps (devices_step env cfg tid) n tok run = Some r"
  proof (cases "devices_step env cfg tid tok run")
    case (Inl x)
    with eq show ?thesis by (intro exI [of _ 1]) simp
  next
    case (Inr p)
    with eq IH obtain n where "run_steps (devices_step env cfg tid) n (fst p) (snd p) = Some r"
      by (metis sum.simps(6))
    with Inr show ?thesis by (intro exI [of _ "Suc n"]) (simp add: case_prod_unfold)
  qed
qed

interpretation device_pages: cursor_loop "devices_step env cfg tid" "devices_loop env cfg tid" for env cfg tid
proof
  show "devices_loop env cfg tid c s =
      (case devices_step env cfg tid c s of Inl r \<Rightarrow> Some r | Inr (c', s') \<Rightarrow> devices_loop env cfg tid c' s')" for c s
    by (subst devices_loop.simps) (simp add: case_prod_unfold split: sum.splits)
qed (rule devices_loop_finite)

text \<open>The pages a walk reads: each page's devices, in order, up to the page that says it is the last.\<close>

inductive pages_of :: "'w lens_env \<Rightarrow> lens_config \<Rightarrow> string \<Rightarrow> string option \<Rightarrow> 'w lens_st \<Rightarrow> lens_device list list \<Rightarrow> 'w lens_st \<Rightarrow> bool"
  for env cfg tid where
  last_page: "fetch_devices env cfg tid tok st = (Inr page, st') \<Longrightarrow> \<not> dp_HasNextPage page \<Longrightarrow>
     pages_of env cfg tid tok st [dp_Edges page] st'"
| more_pages: "fetch_devices env cfg tid tok st = (Inr page, st') \<Longrightarrow> dp_HasNextPage page \<Longrightarrow>
     dp_NextToken page = Some t \<Longrightarrow> t \<noteq> [] \<Longrightarrow> pages_of env cfg tid (Some t) st' ps st'' \<Longrightarrow>
     pages_of env cfg tid tok st (dp_Edges page # ps) st''"

lemma devices_loop_pages:
  "pages_of env cfg tid tok st ps st' \<Longrightarrow> devices_loop env cfg tid tok (acc, st) = Some (Inr (acc @ concat ps), st')"
proof (induction arbitrary: acc rule: pages_of.induct)
  case (last_page tok st page st')
  then show ?case by (subst device_pages.loop_unfold) (simp add: devices_step_def)
next
  case (more_pages tok st page st' t ps st'')
  then have "devices_step env cfg tid tok (acc, st) = Inr (Some t, acc @ dp_Edges page, st')"
    by (simp add: devices_step_def)
  with more_pages.IH [of "acc @ dp_Edges page"] show ?case by (subst device_pages.loop_unfold) simp
qed

lemma run_steps_pages:
  "run_steps (devices_step env cfg tid) n tok (acc, st) = Some (Inr ds, st') \<Longrightarrow>
     \<exists>ps. pages_of env cfg tid tok st ps st' \<and> ds = acc @ concat ps"
proof (induction n arbitrary: tok acc st)
  case (Suc n)
  obtain r st1 where f: "fetch_devices env cfg tid tok st = (r, st1)" by (rule prod.exhaust)
  with Suc.prems obtain page where page: "r = Inr page" by (cases r) (auto simp: devices_step_def)
  show ?case
  proof (cases "dp_HasNextPage page")
    case False
    with Suc.prems f page have "pages_of env cfg tid tok st [dp_Edges page] st'" "ds = acc @ dp_Edges page"
      by (auto simp: devices_step_def intro: last_page)
    then show ?thesis by (intro exI [of _ "[dp_Edges page]"]) simp
  next
    case True
    with Suc.prems f page obtain t where t: "dp_NextToken page = Some t" "t \<noteq> []"
      "run_steps (devices_step env cfg tid) n (Some t) (acc @ dp_Edges page, st1) = Some (Inr ds, st')"
      by (auto simp: devices_step_def [of env cfg tid tok "(acc, st)"] split: option.splits if_splits)
    with Suc.IH obtain ps where "pages_of env cfg tid (Some t) st1 ps st'" "ds = acc @ dp_Edges page @ concat ps"
      by fastforce
    with f page True t show ?thesis by (intro exI [of _ "dp_Edges page # ps"]) (auto intro: more_pages)
  qed
qed simp

text \<open>
  C37 (device inventory). \<^verbatim>\<open>Devices\<close> returns a list exactly when the cursor leads from page to page to a
  last one, and then the list is those pages' devices in the order they were read.
\<close>

theorem devices_all_pages:
  "Devices env cfg tid st = Some (Inr ds, st') \<longleftrightarrow>
     (\<exists>ps. pages_of env cfg tid None st ps st' \<and> ds = concat ps)"
proof
  assume "Devices env cfg tid st = Some (Inr ds, st')"
  then obtain n where "run_steps (devices_step env cfg tid) n None ([], st) = Some (Inr ds, st')"
    unfolding Devices_def using device_pages.loop_finite by blast
  from run_steps_pages [OF this] show "\<exists>ps. pages_of env cfg tid None st ps st' \<and> ds = concat ps" by simp
next
  assume "\<exists>ps. pages_of env cfg tid None st ps st' \<and> ds = concat ps"
  then obtain ps where "pages_of env cfg tid None st ps st'" "ds = concat ps" by blast
  with devices_loop_pages [of env cfg tid None st ps st' "[]"]
  show "Devices env cfg tid st = Some (Inr ds, st')" by (simp add: Devices_def)
qed

end
