(* ===== verification/ConfigModel.thy ===== *)
theory ConfigModel
  imports GoStrings
begin

text \<open>
  \<^verbatim>\<open>internal/config\<close>: the configuration structs with their defaults, the order in which defaults, file and
  environment are loaded, the names of the environment variables, and \<^verbatim>\<open>Validate\<close>; and \<^verbatim>\<open>envName\<close> of
  \<^verbatim>\<open>internal/configdoc/main.go\<close>, which documents those names.

  Durations are nanoseconds. \<^verbatim>\<open>phone.targets\<close> is an association list with distinct keys. The koanf and
  mapstructure libraries are parameters (\<open>koanf_env\<close>): a store, what the sources put into it, and its
  decoding into the structs.
\<close>

section \<open>Data\<close>

definition second :: int where "second = 1000000000"
definition minute :: int where "minute = 60 * second"
definition hour :: int where "hour = 60 * minute"

record log_config =
  log_Level :: string
  log_Format :: string

record retry_config =
  retry_MaxAttempts :: int
  retry_MinBackoff :: int
  retry_MaxBackoff :: int

record stream_section =
  stream_Enabled :: bool
  stream_AckTimeout :: int
  section_MinBackoff :: int
  section_MaxBackoff :: int

record lens_section =
  lens_TokenURL :: string
  lens_GraphQLURL :: string
  lens_WebSocketURL :: string
  lens_ClientID :: string
  lens_ClientSecret :: string
  lens_Tenants :: "string list"
  lens_PageSize :: int
  lens_RequestTimeout :: int
  lens_Retry :: retry_config
  lens_Stream :: stream_section

record phone_auth_config =
  auth_Username :: string
  auth_Password :: string
  auth_FromLensPolicy :: bool

record phone_tls_config =
  tls_VerifyChain :: bool
  tls_CAFile :: string

record phone_section =
  phone_Enabled :: bool
  phone_Targets :: "(string \<times> string) list"
  phone_ConfigParams :: "string list"
  phone_RequestTimeout :: int
  phone_Auth :: phone_auth_config
  phone_TLS :: phone_tls_config

record collector_config =
  iv_LensDevices :: int
  iv_LensActiveCalls :: int
  iv_LensFirmware :: int
  iv_LensCDR :: int
  iv_PhoneStatus :: int
  iv_PhoneLines :: int
  iv_PhoneConfig :: int
  iv_PhoneCallLogs :: int
  iv_PhoneNetworkInfo :: int
  iv_SelfObs :: int

record otlp_config =
  otlp_Endpoint :: string
  otlp_Protocol :: string
  otlp_Insecure :: bool
  otlp_ExportInterval :: int
  otlp_InstanceID :: string
  otlp_Token :: string

record pyroscope_config =
  pyro_Endpoint :: string
  pyro_Application :: string
  pyro_BasicAuthUser :: string
  pyro_BasicAuthPassword :: string

record config =
  cfg_Log :: log_config
  cfg_Lens :: lens_section
  cfg_Phone :: phone_section
  cfg_Collectors :: collector_config
  cfg_OTLP :: otlp_config
  cfg_Profiling :: pyroscope_config
  cfg_StateDir :: string
  cfg_MaxDevices :: int

definition Default :: config where
  "Default =
     \<lparr>cfg_Log = \<lparr>log_Level = ''info'', log_Format = ''json''\<rparr>,
      cfg_Lens = \<lparr>lens_TokenURL = ''https://login.lens.poly.com/oauth/token'',
        lens_GraphQLURL = ''https://api.silica-prod01.io.lens.poly.com/graphql'',
        lens_WebSocketURL = ''wss://api.silica-prod01.io.lens.poly.com/graphql'',
        lens_ClientID = [], lens_ClientSecret = [], lens_Tenants = [],
        lens_PageSize = 10, lens_RequestTimeout = 30 * second,
        lens_Retry = \<lparr>retry_MaxAttempts = 4, retry_MinBackoff = second, retry_MaxBackoff = 30 * second\<rparr>,
        lens_Stream = \<lparr>stream_Enabled = True, stream_AckTimeout = 10 * second, section_MinBackoff = second, section_MaxBackoff = minute\<rparr>\<rparr>,
      cfg_Phone = \<lparr>phone_Enabled = True, phone_Targets = [],
        phone_ConfigParams = [''reg.1.address'', ''reg.2.address'', ''reg.1.label'', ''device.syslog.serverName'', ''tcpIpApp.sntp.address'', ''softkey.1.enable''],
        phone_RequestTimeout = 15 * second,
        phone_Auth = \<lparr>auth_Username = ''Polycom'', auth_Password = [], auth_FromLensPolicy = True\<rparr>,
        phone_TLS = \<lparr>tls_VerifyChain = False, tls_CAFile = []\<rparr>\<rparr>,
      cfg_Collectors = \<lparr>iv_LensDevices = minute, iv_LensActiveCalls = minute, iv_LensFirmware = 24 * hour, iv_LensCDR = hour,
        iv_PhoneStatus = minute, iv_PhoneLines = minute, iv_PhoneConfig = 5 * minute, iv_PhoneCallLogs = 5 * minute,
        iv_PhoneNetworkInfo = 5 * minute, iv_SelfObs = minute\<rparr>,
      cfg_OTLP = \<lparr>otlp_Endpoint = [], otlp_Protocol = ''http'', otlp_Insecure = False, otlp_ExportInterval = 15 * second,
        otlp_InstanceID = [], otlp_Token = []\<rparr>,
      cfg_Profiling = \<lparr>pyro_Endpoint = [], pyro_Application = ''polylens2otel'', pyro_BasicAuthUser = [], pyro_BasicAuthPassword = []\<rparr>,
      cfg_StateDir = ''/var/lib/polylens2otel'', cfg_MaxDevices = 500\<rparr>"

section \<open>Environment variables\<close>

definition EnvPrefix :: string where
  "EnvPrefix = ''PL2O_''"

definition keyDelim :: string where
  "keyDelim = ''.''"

definition trim_prefix :: "string \<Rightarrow> string \<Rightarrow> string" where
  "trim_prefix p s = (if prefix p s then drop (length p) s else s)"

definition envTransform :: "string \<Rightarrow> string \<Rightarrow> string \<times> string" where
  "envTransform key val = (replace_all ''__'' keyDelim (to_lower (trim_prefix EnvPrefix key)), val)"

definition envName :: "string \<Rightarrow> string" where
  "envName key = EnvPrefix @ to_upper (replace_all ''.'' ''__'' key)"

section \<open>Loading\<close>

definition yamlSecrets :: "string list" where
  "yamlSecrets = [''lens.client_secret'', ''phone.auth.password'', ''otlp.grafana_cloud.token'',
     ''profiling.pyroscope.basic_auth_password'']"

record 'k koanf_env =
  koanf_New :: 'k
  load_structs :: "config \<Rightarrow> 'k \<Rightarrow> 'k result"
  stat_file :: "string \<Rightarrow> goerr option"
  load_yaml :: "string \<Rightarrow> 'k \<Rightarrow> 'k result"
  koanf_Exists :: "'k \<Rightarrow> string \<Rightarrow> bool"
  environ :: "(string \<times> string) list"
  load_pairs :: "(string \<times> string) list \<Rightarrow> 'k \<Rightarrow> 'k result"
  koanf_Unmarshal :: "'k \<Rightarrow> config result"

definition wrap_result :: "string \<Rightarrow> 'a result \<Rightarrow> 'a result" where
  "wrap_result m r = (case r of Inl e \<Rightarrow> Inl (Wrap m e) | Inr a \<Rightarrow> Inr a)"

text \<open>The secret keys of the file are looked for in a store that holds the file alone.\<close>

definition load_file :: "'k koanf_env \<Rightarrow> string \<Rightarrow> 'k \<Rightarrow> 'k result" where
  "load_file env path k =
     (if path = [] then Inr k
      else (case stat_file env path of
          Some e \<Rightarrow> Inl (Wrap ''config file'' e)
        | None \<Rightarrow>
            bind_result (wrap_result ''parse config'' (load_yaml env path (koanf_New env)))
              (\<lambda>fileOnly.
                 case find (koanf_Exists env fileOnly) yamlSecrets of
                   Some key \<Rightarrow> Inl (Msg (key @ '' is secret and must be supplied through '' @ EnvPrefix @ '' environment variables''))
                 | None \<Rightarrow> wrap_result ''load config'' (load_yaml env path k))))"

definition prefixed :: "'k koanf_env \<Rightarrow> (string \<times> string) list" where
  "prefixed env = filter (\<lambda>(k, v). prefix EnvPrefix k) (environ env)"

definition Load :: "'k koanf_env \<Rightarrow> string \<Rightarrow> config result" where
  "Load env path =
     bind_result (wrap_result ''load defaults'' (load_structs env Default (koanf_New env))) (\<lambda>k1.
     bind_result (load_file env path k1) (\<lambda>k2.
     bind_result (wrap_result ''load environment'' (load_pairs env (map (\<lambda>(k, v). envTransform k v) (prefixed env)) k2)) (\<lambda>k3.
     wrap_result ''decode config'' (koanf_Unmarshal env k3))))"

section \<open>Validation\<close>

definition maxPhoneConfigParams :: nat where
  "maxPhoneConfigParams = 50"

definition validatePhoneConfigParams :: "string list \<Rightarrow> goerr option" where
  "validatePhoneConfigParams params =
     (if length params > maxPhoneConfigParams then Some (Msg ''phone.config_params must contain at most 50 parameters'') else None)"

definition isStaticPhoneMAC :: "string \<Rightarrow> bool" where
  "isStaticPhoneMAC v \<longleftrightarrow> length v = 12 \<and> hex_ok v"

definition blank :: "string \<Rightarrow> bool" where
  "blank s \<longleftrightarrow> trim_space s = []"

text \<open>
  The keys found missing. The first three come out of a Go map and appear in the message in any order;
  they are listed here in the order of the code.
\<close>

definition missing_keys :: "config \<Rightarrow> string list" where
  "missing_keys c =
     map fst (filter (\<lambda>kv. blank (snd kv))
       [(''otlp.endpoint'', otlp_Endpoint (cfg_OTLP c)), (''otlp.grafana_cloud.instance_id'', otlp_InstanceID (cfg_OTLP c)),
        (''otlp.grafana_cloud.token'', otlp_Token (cfg_OTLP c))]) @
     (if phone_Enabled (cfg_Phone c) \<and> blank (auth_Password (phone_Auth (cfg_Phone c))) then [''phone.auth.password''] else []) @
     (let id_set = \<not> blank (lens_ClientID (cfg_Lens c)); secret_set = \<not> blank (lens_ClientSecret (cfg_Lens c)) in
      if id_set \<noteq> secret_set
      then (if \<not> id_set then [''lens.client_id''] else []) @ (if \<not> secret_set then [''lens.client_secret''] else [])
      else [])"

definition static_targets_error :: "config \<Rightarrow> goerr option" where
  "static_targets_error c =
     (if blank (lens_ClientID (cfg_Lens c)) \<and> phone_Enabled (cfg_Phone c) \<and> phone_Targets (cfg_Phone c) \<noteq> [] then
        if length (lens_Tenants (cfg_Lens c)) > 1
        then Some (Msg ''phone.targets without Lens credentials supports at most one lens.tenants entry'')
        else (case find (\<lambda>t. \<not> isStaticPhoneMAC (fst t)) (phone_Targets (cfg_Phone c)) of
            Some t \<Rightarrow> Some (Msg (''phone.targets key '' @ go_quote (fst t) @ '' must be a 12-hex-digit MAC when Lens credentials are absent''))
          | None \<Rightarrow> None)
      else None)"

definition Validate :: "config \<Rightarrow> goerr option" where
  "Validate c =
     (if missing_keys c \<noteq> [] then Some (Msg (''required configuration missing: '' @ join '', '' (missing_keys c)))
      else (case static_targets_error c of
          Some e \<Rightarrow> Some e
        | None \<Rightarrow>
            if lens_PageSize (cfg_Lens c) < 1 \<or> lens_PageSize (cfg_Lens c) > 5000 then Some (Msg ''lens.page_size must be between 1 and 5000'')
            else if cfg_MaxDevices c < 1 then Some (Msg ''cardinality.max_devices must be positive'')
            else if cfg_StateDir c = [] then Some (Msg ''state.dir is required'')
            else if otlp_Protocol (cfg_OTLP c) \<noteq> ''http'' \<and> otlp_Protocol (cfg_OTLP c) \<noteq> ''grpc''
            then Some (Msg ''otlp.protocol must be http or grpc'')
            else validatePhoneConfigParams (phone_ConfigParams (cfg_Phone c))))"

section \<open>The names of the variables\<close>

text \<open>A part of a key: lower-case letters, digits and single underscores, none at its end.\<close>

definition key_char :: "char \<Rightarrow> bool" where
  "key_char c \<longleftrightarrow> is_lower c \<or> is_digit c \<or> c = CHR ''_''"

fun key_part :: "string \<Rightarrow> bool" where
  "key_part [] = False"
| "key_part [c] = (key_char c \<and> c \<noteq> CHR ''_'')"
| "key_part (c # d # s) = (key_char c \<and> \<not> (c = CHR ''_'' \<and> d = CHR ''_'') \<and> key_part (d # s))"

lemma key_part_chars: "key_part p \<Longrightarrow> list_all key_char p"
  by (induction p rule: key_part.induct) auto

lemma key_part_not_Nil: "key_part p \<Longrightarrow> p \<noteq> []"
  by auto

lemma replace_none: "old \<noteq> [] \<Longrightarrow> hd old \<notin> set s \<Longrightarrow> replace_all old new (s @ t) = s @ replace_all old new t"
proof (induction s)
  case (Cons c s)
  then have "\<not> prefix old (c # s @ t)" by (cases old) auto
  with Cons show ?case by (simp add: replace_all_Cons)
qed simp

lemma replace_here: "old \<noteq> [] \<Longrightarrow> replace_all old new (old @ t) = new @ replace_all old new t"
  by (cases old) (simp_all add: replace_all_Cons)

lemma replace_dots: "\<forall>p \<in> set ps. CHR ''.'' \<notin> set p \<Longrightarrow> replace_all ''.'' new (join ''.'' ps) = join new ps"
proof (induction ps)
  case (Cons p ps)
  show ?case
  proof (cases "ps = []")
    case True
    with Cons.prems replace_none [of "''.''" p new "[]"] show ?thesis by simp
  next
    case False
    with Cons replace_none [of "''.''" p new "''.'' @ join ''.'' ps"] replace_here [of "''.''" new "join ''.'' ps"]
    show ?thesis by (simp add: join_Cons)
  qed
qed simp

lemma replace_part:
  "key_part p \<Longrightarrow> t = [] \<or> prefix ''__'' t \<Longrightarrow> replace_all ''__'' new (p @ t) = p @ replace_all ''__'' new t"
proof (induction p rule: key_part.induct)
  case (2 c)
  then show ?case by (auto simp: replace_all_Cons)
next
  case (3 c d s)
  then have "\<not> prefix ''__'' (c # d # s @ t)" by auto
  with 3 show ?case by (auto simp: replace_all_Cons [of "''__''" new c])
qed simp

lemma replace_underscores: "\<forall>p \<in> set ps. key_part p \<Longrightarrow> replace_all ''__'' new (join ''__'' ps) = join new ps"
proof (induction ps)
  case (Cons p ps)
  show ?case
  proof (cases "ps = []")
    case True
    with Cons.prems replace_part [of p "[]" new] show ?thesis by simp
  next
    case False
    with Cons replace_part [of p "''__'' @ join ''__'' ps" new] replace_here [of "''__''" new "join ''__'' ps"]
    show ?thesis by (simp add: join_Cons)
  qed
qed simp

lemma upper_lower_ascii: "list_all (\<lambda>c. is_ascii c \<and> \<not> is_upper c) s \<Longrightarrow> to_lower (to_upper s) = s"
proof -
  assume h: "list_all (\<lambda>c. is_ascii c \<and> \<not> is_upper c) s"
  then have "to_upper s = map upper_char s" "list_all is_ascii (map upper_char s)"
    by (simp_all add: to_upper_ascii list_all_iff is_ascii_upper_char)
  then have "to_lower (to_upper s) = map (\<lambda>c. lower_char (upper_char c)) s" by (simp add: to_lower_ascii)
  also have "\<dots> = map (\<lambda>c. c) s" using h unfolding lower_upper_char by (intro map_cong) (simp_all add: lower_char_def list_all_iff)
  finally show ?thesis by simp
qed

lemma key_char_plain: "key_char c \<Longrightarrow> is_ascii c \<and> \<not> is_upper c"
  by (auto simp: key_char_def char_defs)

lemma key_char_not_dot: "key_char c \<Longrightarrow> c \<noteq> CHR ''.''"
  by (auto simp: key_char_def char_defs)

lemma join_chars: "\<forall>p \<in> set ps. list_all P p \<Longrightarrow> list_all P sep \<Longrightarrow> list_all P (join sep ps)"
proof (induction ps)
  case (Cons p ps)
  then show ?case by (cases "ps = []") (simp_all add: join_Cons)
qed simp

text \<open>The name of a variable leads back to the key it was made from.\<close>

lemma envTransform_envName:
  assumes "\<forall>p \<in> set ps. key_part p"
  shows "envTransform (envName (join ''.'' ps)) v = (join ''.'' ps, v)"
proof -
  have c: "\<forall>p \<in> set ps. list_all key_char p" using assms key_part_chars by blast
  then have "\<forall>p \<in> set ps. CHR ''.'' \<notin> set p" using key_char_not_dot by (fastforce simp: list_all_iff)
  then have n: "envName (join ''.'' ps) = EnvPrefix @ to_upper (join ''__'' ps)"
    by (simp add: envName_def replace_dots)
  have "list_all (\<lambda>c. is_ascii c \<and> \<not> is_upper c) (join ''__'' ps)"
    by (rule join_chars) (use c key_char_plain in \<open>auto simp: list_all_iff char_defs\<close>)
  then have "to_lower (to_upper (join ''__'' ps)) = join ''__'' ps" by (rule upper_lower_ascii)
  with n replace_underscores [OF assms, of keyDelim] show ?thesis
    by (simp add: envTransform_def trim_prefix_def keyDelim_def)
qed

text \<open>The keys of the configuration: the tags of the structs, joined by dots.\<close>

definition config_keys :: "string list" where
  "config_keys =
     [''log.level'', ''log.format'', ''lens.token_url'', ''lens.graphql_url'',
      ''lens.websocket_url'', ''lens.client_id'', ''lens.client_secret'', ''lens.tenants'',
      ''lens.page_size'', ''lens.request_timeout'', ''lens.retry.max_attempts'', ''lens.retry.min_backoff'',
      ''lens.retry.max_backoff'', ''lens.stream.enabled'', ''lens.stream.ack_timeout'', ''lens.stream.min_backoff'',
      ''lens.stream.max_backoff'', ''phone.enabled'', ''phone.targets'', ''phone.config_params'',
      ''phone.request_timeout'', ''phone.auth.username'', ''phone.auth.password'', ''phone.auth.from_lens_policy'',
      ''phone.tls.verify_chain'', ''phone.tls.ca_file'', ''collectors.lens_devices'', ''collectors.lens_active_calls'',
      ''collectors.lens_firmware'', ''collectors.lens_cdr'', ''collectors.phone_status'', ''collectors.phone_lines'',
      ''collectors.phone_config'', ''collectors.phone_call_logs'', ''collectors.phone_network_info'', ''collectors.selfobs_internal'',
      ''otlp.endpoint'', ''otlp.protocol'', ''otlp.insecure'', ''otlp.export_interval'',
      ''otlp.grafana_cloud.instance_id'', ''otlp.grafana_cloud.token'', ''profiling.pyroscope.endpoint'', ''profiling.pyroscope.application'',
      ''profiling.pyroscope.basic_auth_user'', ''profiling.pyroscope.basic_auth_password'', ''state.dir'', ''cardinality.max_devices'']"

lemma config_keys_parts: "list_all (\<lambda>k. list_all key_part (split_on (CHR ''.'') k)) config_keys"
  by code_simp

text \<open>
  C27 (environment variables). For every configuration key, the variable that the generated reference names
  for it is read by the loader as that key.
\<close>

theorem env_names_roundtrip:
  "list_all (\<lambda>k. envTransform (envName k) v = (k, v)) config_keys"
proof -
  have "envTransform (envName k) v = (k, v)" if "k \<in> set config_keys" for k
    using envTransform_envName [of "split_on (CHR ''.'') k" v] config_keys_parts that
    by (simp add: join_split_on list_all_iff)
  then show ?thesis by (simp add: list_all_iff)
qed

section \<open>Secrets in the file\<close>

text \<open>
  No secrets in the file. A configuration file that sets one of the secret keys is refused, with an error
  that names a secret key and does not depend on its value or on anything else the file sets.
\<close>

theorem load_refuses_file_secrets:
  assumes "path \<noteq> []" "stat_file env path = None" "load_structs env Default (koanf_New env) = Inr k1"
    and "load_yaml env path (koanf_New env) = Inr fileOnly" "key \<in> set yamlSecrets" "koanf_Exists env fileOnly key"
  shows "\<exists>k \<in> set yamlSecrets.
    Load env path = Inl (Msg (k @ '' is secret and must be supplied through '' @ EnvPrefix @ '' environment variables''))"
proof -
  obtain k where "find (koanf_Exists env fileOnly) yamlSecrets = Some k" "k \<in> set yamlSecrets"
    using assms(5,6) by (cases "find (koanf_Exists env fileOnly) yamlSecrets") (auto simp: find_None_iff find_Some_iff)
  with assms(1-4) show ?thesis by (auto simp: Load_def load_file_def wrap_result_def)
qed

definition ex_koanf :: "string list koanf_env" where
  "ex_koanf = \<lparr>koanf_New = [], load_structs = (\<lambda>_ k. Inr k), stat_file = (\<lambda>_. None), load_yaml = (\<lambda>_ k. Inr (''lens.client_secret'' # k)),
     koanf_Exists = (\<lambda>k key. key \<in> set k), environ = [], load_pairs = (\<lambda>ps k. Inr (map fst ps @ k)), koanf_Unmarshal = (\<lambda>_. Inr Default)\<rparr>"

lemma load_refuses_file_secrets_witness:
  "\<exists>k. Load ex_koanf ''config.yaml'' = Inl (Msg (k @ '' is secret and must be supplied through '' @ EnvPrefix @ '' environment variables''))"
  using load_refuses_file_secrets [of "''config.yaml''" ex_koanf "[]" "[''lens.client_secret'']" "''lens.client_secret''"]
  by (auto simp: ex_koanf_def yamlSecrets_def)

section \<open>What validation promises\<close>

text \<open>
  C22 (valid configurations). A configuration passes \<^verbatim>\<open>Validate\<close> exactly when the required values are set, the Lens
  credentials come together, static targets without them are twelve hexadecimal digits under at most one
  tenant, and the numbers and the protocol are in range. Polling intervals are not looked at.
\<close>

theorem Validate_iff:
  "Validate c = None \<longleftrightarrow>
     \<not> blank (otlp_Endpoint (cfg_OTLP c)) \<and> \<not> blank (otlp_InstanceID (cfg_OTLP c)) \<and> \<not> blank (otlp_Token (cfg_OTLP c)) \<and>
     (phone_Enabled (cfg_Phone c) \<longrightarrow> \<not> blank (auth_Password (phone_Auth (cfg_Phone c)))) \<and>
     blank (lens_ClientID (cfg_Lens c)) = blank (lens_ClientSecret (cfg_Lens c)) \<and>
     (blank (lens_ClientID (cfg_Lens c)) \<and> phone_Enabled (cfg_Phone c) \<and> phone_Targets (cfg_Phone c) \<noteq> [] \<longrightarrow>
        length (lens_Tenants (cfg_Lens c)) \<le> 1 \<and> (\<forall>t \<in> set (phone_Targets (cfg_Phone c)). isStaticPhoneMAC (fst t))) \<and>
     1 \<le> lens_PageSize (cfg_Lens c) \<and> lens_PageSize (cfg_Lens c) \<le> 5000 \<and> 1 \<le> cfg_MaxDevices c \<and> cfg_StateDir c \<noteq> [] \<and>
     (otlp_Protocol (cfg_OTLP c) = ''http'' \<or> otlp_Protocol (cfg_OTLP c) = ''grpc'') \<and>
     length (phone_ConfigParams (cfg_Phone c)) \<le> 50"
proof -
  have m: "missing_keys c = [] \<longleftrightarrow>
      \<not> blank (otlp_Endpoint (cfg_OTLP c)) \<and> \<not> blank (otlp_InstanceID (cfg_OTLP c)) \<and> \<not> blank (otlp_Token (cfg_OTLP c)) \<and>
      (phone_Enabled (cfg_Phone c) \<longrightarrow> \<not> blank (auth_Password (phone_Auth (cfg_Phone c)))) \<and>
      blank (lens_ClientID (cfg_Lens c)) = blank (lens_ClientSecret (cfg_Lens c))"
    by (auto simp: missing_keys_def Let_def)
  have s: "static_targets_error c = None \<longleftrightarrow>
      (blank (lens_ClientID (cfg_Lens c)) \<and> phone_Enabled (cfg_Phone c) \<and> phone_Targets (cfg_Phone c) \<noteq> [] \<longrightarrow>
        length (lens_Tenants (cfg_Lens c)) \<le> 1 \<and> (\<forall>t \<in> set (phone_Targets (cfg_Phone c)). isStaticPhoneMAC (fst t)))"
    by (auto simp: static_targets_error_def find_None_iff find_Some_iff split: option.splits)
  have p: "validatePhoneConfigParams ps = None \<longleftrightarrow> length ps \<le> 50" for ps
    by (simp add: validatePhoneConfigParams_def maxPhoneConfigParams_def not_less)
  have "Validate c = None \<longleftrightarrow> missing_keys c = [] \<and> static_targets_error c = None \<and>
      1 \<le> lens_PageSize (cfg_Lens c) \<and> lens_PageSize (cfg_Lens c) \<le> 5000 \<and> 1 \<le> cfg_MaxDevices c \<and> cfg_StateDir c \<noteq> [] \<and>
      (otlp_Protocol (cfg_OTLP c) = ''http'' \<or> otlp_Protocol (cfg_OTLP c) = ''grpc'') \<and>
      validatePhoneConfigParams (phone_ConfigParams (cfg_Phone c)) = None"
    by (auto simp: Validate_def split: option.splits)
  then show ?thesis unfolding m s p by (simp only: conj_assoc)
qed

definition ex_config :: config where
  "ex_config = Default
     \<lparr>cfg_OTLP := (cfg_OTLP Default)\<lparr>otlp_Endpoint := ''https://otlp'', otlp_InstanceID := ''1'', otlp_Token := ''t''\<rparr>,
      cfg_Phone := (cfg_Phone Default)\<lparr>phone_Targets := [(''0004f2000001'', ''10.0.0.1'')],
        phone_Auth := (phone_Auth (cfg_Phone Default))\<lparr>auth_Password := ''pw''\<rparr>\<rparr>\<rparr>"

lemma ex_config_valid: "Validate ex_config = None"
  by code_simp

lemma Validate_iff_witness: "Validate ex_config = None \<and> list_all (\<lambda>t. isStaticPhoneMAC (fst t)) (phone_Targets (cfg_Phone ex_config))"
proof -
  have "blank (lens_ClientID (cfg_Lens ex_config))" "phone_Enabled (cfg_Phone ex_config)" "phone_Targets (cfg_Phone ex_config) \<noteq> []"
    by code_simp+
  with ex_config_valid Validate_iff [of ex_config] show ?thesis unfolding list_all_iff by blast
qed

end
