(* ===== verification/LensCollectors.thy ===== *)
theory LensCollectors
  imports LensClient PhoneApi ConfigModel "HOL-Library.Multiset"
begin

text \<open>
  \<^verbatim>\<open>internal/collectors/lens/register.go\<close>: the three polling Lens collectors (devices, active calls, firmware), the
  listing of the devices of all tenants they share, and their settings.

  The client interface is a record of functions (\<open>lens_api\<close>); the listing of a tenant's devices may not
  return, which is \<open>None\<close>, and \<^verbatim>\<open>Tenants\<close> may be missing, as in the type assertion of \<^verbatim>\<open>resolveTenants\<close>. The
  clock and the order in which Go walks the map of call states are parameters.
\<close>

section \<open>Data\<close>

definition lens_serviceName :: string where "lens_serviceName = ''lens''"
definition devicesID :: string where "devicesID = ''lens.devices''"
definition activeCallsID :: string where "activeCallsID = ''lens.active_calls''"
definition firmwareID :: string where "firmwareID = ''lens.firmware''"

definition errClientUnavailable :: goerr where
  "errClientUnavailable = Msg ''lens collector requires the lens service''"

record 'w lens_api =
  api_Devices :: "string \<Rightarrow> 'w \<Rightarrow> (lens_device list result \<times> 'w) option"
  api_ActiveCalls :: "string \<Rightarrow> 'w \<Rightarrow> call list result \<times> 'w"
  api_LatestFirmware :: "string \<Rightarrow> 'w \<Rightarrow> firmware result \<times> 'w"
  api_Tenants :: "('w \<Rightarrow> tenant list result \<times> 'w) option"

text \<open>The Lens client as that interface.\<close>

definition lens_client_api :: "'w lens_env \<Rightarrow> lens_config \<Rightarrow> 'w lens_st lens_api" where
  "lens_client_api env cfg =
     \<lparr>api_Devices = Devices env cfg, api_ActiveCalls = ActiveCalls env cfg, api_LatestFirmware = LatestFirmware env cfg,
      api_Tenants = Some (Tenants env cfg)\<rparr>"

record base_collector =
  bc_id :: string
  bc_interval :: int
  bc_tenantIDs :: "string list"
  bc_maxDevices :: int

record lens_collector_config =
  lcc_Tenants :: "string list"
  lcc_LensDevices :: int
  lcc_LensActiveCalls :: int
  lcc_LensFirmware :: int
  lcc_MaxDevices :: int

definition collectorConfig :: "config option \<Rightarrow> lens_collector_config" where
  "collectorConfig c =
     (case c of
        None \<Rightarrow> \<lparr>lcc_Tenants = [], lcc_LensDevices = minute, lcc_LensActiveCalls = minute, lcc_LensFirmware = 24 * hour, lcc_MaxDevices = 1\<rparr>
      | Some cfg \<Rightarrow>
          \<lparr>lcc_Tenants = lens_Tenants (cfg_Lens cfg), lcc_LensDevices = iv_LensDevices (cfg_Collectors cfg),
           lcc_LensActiveCalls = iv_LensActiveCalls (cfg_Collectors cfg), lcc_LensFirmware = iv_LensFirmware (cfg_Collectors cfg),
           lcc_MaxDevices = cfg_MaxDevices cfg\<rparr>)"

text \<open>The three collectors a registration adds, in their order.\<close>

definition lens_collectors :: "config option \<Rightarrow> base_collector list" where
  "lens_collectors c =
     (let cfg = collectorConfig c;
          mk = (\<lambda>i iv. \<lparr>bc_id = i, bc_interval = iv, bc_tenantIDs = lcc_Tenants cfg, bc_maxDevices = lcc_MaxDevices cfg\<rparr>) in
      [mk devicesID (lcc_LensDevices cfg), mk activeCallsID (lcc_LensActiveCalls cfg), mk firmwareID (lcc_LensFirmware cfg)])"

type_synonym device_tenant = "string \<times> lens_device"

section \<open>The devices of all tenants\<close>

definition resolveTenants :: "'w lens_api \<Rightarrow> base_collector \<Rightarrow> 'w \<Rightarrow> string list result \<times> 'w" where
  "resolveTenants api c w =
     (if bc_tenantIDs c \<noteq> [] then (Inr (bc_tenantIDs c), w)
      else (case api_Tenants api of
          None \<Rightarrow> (Inl (Msg ''lens tenant discovery requires a client with Tenants''), w)
        | Some lookup \<Rightarrow>
            (case lookup w of
               (Inl e, w') \<Rightarrow> (Inl (Wrap ''list Lens tenants'' e), w')
             | (Inr tenants, w') \<Rightarrow> (Inr (map tenant_ID tenants), w'))))"

fun tenant_devices :: "'w lens_api \<Rightarrow> string list \<Rightarrow> 'w \<Rightarrow> (device_tenant list result \<times> 'w) option" where
  "tenant_devices api [] w = Some (Inr [], w)"
| "tenant_devices api (t # ts) w =
     (case api_Devices api t w of
        None \<Rightarrow> None
      | Some (Inl e, w1) \<Rightarrow> Some (Inl (Wrap (''list devices for tenant '' @ t) e), w1)
      | Some (Inr found, w1) \<Rightarrow>
          (case tenant_devices api ts w1 of
             None \<Rightarrow> None
           | Some (Inl e, w2) \<Rightarrow> Some (Inl e, w2)
           | Some (Inr rest, w2) \<Rightarrow> Some (Inr (map (Pair t) found @ rest), w2)))"

definition too_many :: "meter \<Rightarrow> emitter \<Rightarrow> int \<Rightarrow> int \<Rightarrow> 'w phone_run \<Rightarrow> goerr \<times> 'w phone_run" where
  "too_many m em n mx s =
     (case emitGauge m em MetricAPIUnexpected (FNum 1) [Attr AttrSource ''lens''] s of
        (Some e, s') \<Rightarrow> (e, s')
      | (None, s') \<Rightarrow> (Msg (''lens device count '' @ int_digits n @ '' exceeds cardinality.max_devices '' @ int_digits mx), s'))"

definition base_devices :: "meter \<Rightarrow> 'w lens_api option \<Rightarrow> base_collector \<Rightarrow> emitter \<Rightarrow> 'w phone_run \<Rightarrow>
    (device_tenant list result \<times> 'w phone_run) option" where
  "base_devices m client c em s =
     (case client of
        None \<Rightarrow> Some (Inl errClientUnavailable, s)
      | Some api \<Rightarrow>
          (case resolveTenants api c (snd s) of
             (Inl e, w1) \<Rightarrow> Some (Inl e, (fst s, w1))
           | (Inr ts, w1) \<Rightarrow>
               (case tenant_devices api ts w1 of
                  None \<Rightarrow> None
                | Some (Inl e, w2) \<Rightarrow> Some (Inl e, (fst s, w2))
                | Some (Inr ds, w2) \<Rightarrow>
                    if int (length ds) > bc_maxDevices c
                    then (let (e, s') = too_many m em (int (length ds)) (bc_maxDevices c) (fst s, w2) in Some (Inl e, s'))
                    else Some (Inr ds, (fst s, w2)))))"

section \<open>The collectors\<close>

definition withDevice :: "emitter \<Rightarrow> lens_device \<Rightarrow> emitter" where
  "withDevice em d =
     with_device \<lparr>dev_ID = ld_ID d, dev_Name = ld_Name d, dev_MAC = ld_MACAddress d, dev_Model = ld_HardwareModel d,
       dev_Site = (case ld_Site d of None \<Rightarrow> [] | Some s \<Rightarrow> site_Name s), dev_IP = InternalIP d\<rparr> em"

definition entry_emitter :: "emitter \<Rightarrow> device_tenant \<Rightarrow> emitter" where
  "entry_emitter em entry = withDevice (with_tenant (fst entry) em) (snd entry)"

definition emitAge :: "meter \<Rightarrow> ('w \<Rightarrow> gotime \<times> 'w) \<Rightarrow> emitter \<Rightarrow> string \<Rightarrow> string \<Rightarrow> 'w phone_run fallible" where
  "emitAge m now em name timestamp s =
     (case parse_rfc3339 timestamp of
        None \<Rightarrow> (None, s)
      | Some observed \<Rightarrow>
          (let (t, w) = now (snd s); d = time_sub t observed in
           emitGauge m em name (if d < 0 then FNum 0 else FSeconds d) [] (fst s, w)))"

definition device_entry :: "meter \<Rightarrow> ('w \<Rightarrow> gotime \<times> 'w) \<Rightarrow> emitter \<Rightarrow> device_tenant \<Rightarrow> 'w phone_run fallible" where
  "device_entry m now em entry =
     (let de = entry_emitter em entry; d = snd entry in
      and_then (emitGauge m de MetricLensDeviceConnected (FNum (if Connected d then 1 else 0)) [])
      (and_then (emitAge m now de MetricLensDeviceLastDetectedSeconds (LastDetected d))
      (and_then (emitAge m now de MetricLensDeviceLastConfigRequestSeconds (LastConfigRequestDate d))
        (emitGauge m de MetricLensDeviceFirmwareInfo (FNum 1)
           [Attr AttrVersion (SoftwareVersion d), Attr AttrBuild (SoftwareBuild d)]))))"

definition for_devices :: "meter \<Rightarrow> 'w lens_api option \<Rightarrow> base_collector \<Rightarrow> emitter \<Rightarrow> (device_tenant \<Rightarrow> 'w phone_run fallible) \<Rightarrow>
    'w phone_run \<Rightarrow> (goerr option \<times> 'w phone_run) option" where
  "for_devices m client c em body s =
     (case base_devices m client c em s of
        None \<Rightarrow> None
      | Some (Inl e, s1) \<Rightarrow> Some (Some e, s1)
      | Some (Inr ds, s1) \<Rightarrow> Some (for_each body ds s1))"

definition devices_collect :: "meter \<Rightarrow> ('w \<Rightarrow> gotime \<times> 'w) \<Rightarrow> 'w lens_api option \<Rightarrow> base_collector \<Rightarrow> emitter \<Rightarrow> 'w phone_run \<Rightarrow>
    (goerr option \<times> 'w phone_run) option" where
  "devices_collect m now client c em = for_devices m client c em (device_entry m now em)"

text \<open>The number of calls in each state, and the states in the order Go visits them.\<close>

definition count_state :: "call list \<Rightarrow> string \<Rightarrow> int" where
  "count_state calls st = int (length (filter (\<lambda>c. call_State c = st) calls))"

definition call_states :: "(string list \<Rightarrow> string list) \<Rightarrow> call list \<Rightarrow> string list" where
  "call_states order calls = order (distinct_by id {} (map call_State calls))"

definition calls_entry :: "meter \<Rightarrow> (string list \<Rightarrow> string list) \<Rightarrow> 'w lens_api \<Rightarrow> emitter \<Rightarrow> device_tenant \<Rightarrow> 'w phone_run fallible" where
  "calls_entry m order api em entry s =
     (case api_ActiveCalls api (ld_ID (snd entry)) (snd s) of
        (Inl e, w) \<Rightarrow> (Some (Wrap (''list active calls for device '' @ ld_ID (snd entry)) e), (fst s, w))
      | (Inr calls, w) \<Rightarrow>
          for_each (\<lambda>st. emitGauge m (entry_emitter em entry) MetricLensDeviceActiveCalls (FNum (count_state calls st)) [Attr AttrState st])
            (call_states order calls) (fst s, w))"

definition active_calls_collect :: "meter \<Rightarrow> (string list \<Rightarrow> string list) \<Rightarrow> 'w lens_api option \<Rightarrow> base_collector \<Rightarrow> emitter \<Rightarrow>
    'w phone_run \<Rightarrow> (goerr option \<times> 'w phone_run) option" where
  "active_calls_collect m order client c em =
     for_devices m client c em (\<lambda>entry s. case client of None \<Rightarrow> (Some errClientUnavailable, s) | Some api \<Rightarrow> calls_entry m order api em entry s)"

definition firmware_entry :: "meter \<Rightarrow> 'w lens_api \<Rightarrow> emitter \<Rightarrow> device_tenant \<Rightarrow> 'w phone_run fallible" where
  "firmware_entry m api em entry s =
     (case api_LatestFirmware api (ProductID (snd entry)) (snd s) of
        (Inl e, w) \<Rightarrow> (Some (Wrap (''get latest firmware for device '' @ ld_ID (snd entry)) e), (fst s, w))
      | (Inr fw, w) \<Rightarrow>
          emitGauge m (entry_emitter em entry) MetricLensDeviceFirmwareCurrent
            (FNum (if SoftwareVersion (snd entry) = fw_Version fw then 1 else 0)) [] (fst s, w))"

definition firmware_collect :: "meter \<Rightarrow> 'w lens_api option \<Rightarrow> base_collector \<Rightarrow> emitter \<Rightarrow> 'w phone_run \<Rightarrow>
    (goerr option \<times> 'w phone_run) option" where
  "firmware_collect m client c em =
     for_devices m client c em (\<lambda>entry s. case client of None \<Rightarrow> (Some errClientUnavailable, s) | Some api \<Rightarrow> firmware_entry m api em entry s)"

section \<open>One record per device\<close>

lemma emitGauge_trace_other:
  "emitGauge m em name v attrs s = (r, s') \<Longrightarrow> name \<noteq> n \<Longrightarrow> gauge_trace n (fst s') = gauge_trace n (fst s)"
  by (auto simp: emitGauge_def split: prod.splits intro: gauge_trace_other)

lemma emitGauge_trace:
  "emitGauge m em n v attrs s = (None, s') \<Longrightarrow> gauge_trace n (fst s') = gauge_trace n (fst s) @ gauge_sigs em n v attrs"
  by (auto simp: emitGauge_def gauge_sigs_def split: prod.splits dest: gauge_trace_gauge)

lemma emitAge_trace_other:
  "emitAge m now em name ts s = (r, s') \<Longrightarrow> name \<noteq> n \<Longrightarrow> gauge_trace n (fst s') = gauge_trace n (fst s)"
  by (auto simp: emitAge_def Let_def split: option.splits prod.splits dest: emitGauge_trace_other)

definition connected_sigs :: "emitter \<Rightarrow> device_tenant \<Rightarrow> signal list" where
  "connected_sigs em entry =
     gauge_sigs (entry_emitter em entry) MetricLensDeviceConnected (FNum (if Connected (snd entry) then 1 else 0)) []"

lemma device_entry_trace:
  assumes "device_entry m now em entry s = (None, s')"
  shows "gauge_trace MetricLensDeviceConnected (fst s') = gauge_trace MetricLensDeviceConnected (fst s) @ connected_sigs em entry"
proof -
  from assms obtain s1 s2 s3 where
    "emitGauge m (entry_emitter em entry) MetricLensDeviceConnected (FNum (if Connected (snd entry) then 1 else 0)) [] s = (None, s1)"
    "emitAge m now (entry_emitter em entry) MetricLensDeviceLastDetectedSeconds (LastDetected (snd entry)) s1 = (None, s2)"
    "emitAge m now (entry_emitter em entry) MetricLensDeviceLastConfigRequestSeconds (LastConfigRequestDate (snd entry)) s2 = (None, s3)"
    "emitGauge m (entry_emitter em entry) MetricLensDeviceFirmwareInfo (FNum 1)
       [Attr AttrVersion (SoftwareVersion (snd entry)), Attr AttrBuild (SoftwareBuild (snd entry))] s3 = (None, s')"
    by (auto simp: device_entry_def Let_def and_then_None)
  then show ?thesis
    using emitGauge_trace emitAge_trace_other emitGauge_trace_other
    by (simp add: connected_sigs_def emitGauge_trace emitAge_trace_other [where n = MetricLensDeviceConnected]
        emitGauge_trace_other [where n = MetricLensDeviceConnected])
qed

lemma too_many_emits:
  assumes "too_many m em n mx s = (e, s')"
  obtains r where "emitGauge m em MetricAPIUnexpected (FNum 1) [Attr AttrSource ''lens''] s = (r, s')"
  using assms by (cases "emitGauge m em MetricAPIUnexpected (FNum 1) [Attr AttrSource ''lens''] s")
    (auto simp: too_many_def split: option.splits)

lemma too_many_trace:
  "too_many m em n mx s = (e, s') \<Longrightarrow> gauge_trace MetricLensDeviceConnected (fst s') = gauge_trace MetricLensDeviceConnected (fst s)"
  by (erule too_many_emits) (auto dest: emitGauge_trace_other [where n = MetricLensDeviceConnected])


section \<open>The tenant boundary\<close>

text \<open>
  What the loop over the devices needs of its body: that it hands over signals with a tenant only. The loop
  then does so as well, whether it ends, fails or finds too many devices.
\<close>

locale tagged_body =
  fixes em :: emitter and body :: "device_tenant \<Rightarrow> 'w phone_run fallible"
  assumes body_tagged: "derived em \<Longrightarrow> body entry s = (r, s') \<Longrightarrow> adds_tagged (fst s) (fst s')"
begin

lemma for_each_tagged:
  assumes "derived em" "for_each body ds s = (r, s')"
  shows "adds_tagged (fst s) (fst s')"
  using assms(2) by (rule for_each_inv [where I = "\<lambda>t. adds_tagged (fst s) (fst t)"])
    (auto intro: adds_tagged_trans body_tagged [OF assms(1)])

lemma for_devices_tagged:
  assumes d: "derived em" and f: "for_devices m client c em body s = Some (r, s')"
  shows "adds_tagged (fst s) (fst s')"
proof -
  have t: "adds_tagged (fst s) (fst s1)" if "too_many m em n mx (fst s, w) = (e, s1)" for n mx w e s1
    using that by (rule too_many_emits) (use emitGauge_tagged [OF d] in fastforce)
  have b: "adds_tagged (fst s) (fst s1)" if "base_devices m client c em s = Some (x, s1)" for x s1
    using that by (auto simp: base_devices_def Let_def split: option.splits prod.splits sum.splits if_splits dest: t)
  show ?thesis
  proof (cases "base_devices m client c em s")
    case None
    with f show ?thesis by (simp add: for_devices_def)
  next
    case (Some p)
    obtain x s1 where p: "p = (x, s1)" by (rule prod.exhaust)
    note t1 = b [OF Some [unfolded p]]
    show ?thesis
    proof (cases x)
      case (Inl e)
      with f Some p t1 show ?thesis by (simp add: for_devices_def)
    next
      case (Inr ds)
      with f Some p have "for_each body ds s1 = (r, s')" by (simp add: for_devices_def)
      from adds_tagged_trans [OF t1 for_each_tagged [OF d this]] show ?thesis .
    qed
  qed
qed

end

lemma derived_entry: "derived em \<Longrightarrow> derived (entry_emitter em entry)"
  by (simp add: entry_emitter_def withDevice_def derived_device derived_tenant)

lemmas entry_gauge_tagged = emitGauge_tagged [OF derived_entry]

lemma emitAge_tagged:
  assumes "derived em" "emitAge m now em name ts s = (r, s')"
  shows "adds_tagged (fst s) (fst s')"
proof (cases "parse_rfc3339 ts")
  case (Some x)
  obtain t w where "now (snd s) = (t, w)" by (rule prod.exhaust)
  with assms(2) Some have "\<exists>v. emitGauge m em name v [] (fst s, w) = (r, s')" by (auto simp: emitAge_def Let_def)
  with emitGauge_tagged [OF assms(1)] show ?thesis by fastforce
qed (use assms in \<open>simp add: emitAge_def\<close>)

interpretation device_body: tagged_body em "device_entry m now em" for em m now
proof
  fix entry and s s' :: "'a phone_run" and r
  assume d: "derived em" and e: "device_entry m now em entry s = (r, s')"
  let ?I = "\<lambda>t. adds_tagged (fst s) (fst t)"
  have g: "?I t'" if "emitGauge m (entry_emitter em entry) name v attrs t = (r, t')" "?I t" for name v attrs r t t'
    using adds_tagged_trans [OF that(2) entry_gauge_tagged [OF d that(1)]] .
  have a: "?I t'" if "emitAge m now (entry_emitter em entry) name ts t = (r, t')" "?I t" for name ts r t t'
    using adds_tagged_trans [OF that(2) emitAge_tagged [OF derived_entry [OF d] that(1)]] .
  show "?I s'"
    using e unfolding device_entry_def Let_def by (auto elim!: and_then_inv [where I = ?I] intro: g a)
qed

interpretation calls_body: tagged_body em "\<lambda>entry s. case client of None \<Rightarrow> (Some errClientUnavailable, s) | Some api \<Rightarrow> calls_entry m order api em entry s"
  for em client m order
proof
  fix entry and s s' :: "'a phone_run" and r
  assume d: "derived em"
    and e: "(case client of None \<Rightarrow> (Some errClientUnavailable, s) | Some api \<Rightarrow> calls_entry m order api em entry s) = (r, s')"
  show "adds_tagged (fst s) (fst s')"
  proof (cases client)
    case (Some api)
    obtain x w where x: "api_ActiveCalls api (ld_ID (snd entry)) (snd s) = (x, w)" by (rule prod.exhaust)
    show ?thesis
    proof (cases x)
      case (Inr calls)
      with e Some x have "for_each (\<lambda>st. emitGauge m (entry_emitter em entry) MetricLensDeviceActiveCalls (FNum (count_state calls st)) [Attr AttrState st])
            (call_states order calls) (fst s, w) = (r, s')"
        by (simp add: calls_entry_def)
      then show ?thesis
        by (rule for_each_inv [where I = "\<lambda>t. adds_tagged (fst s) (fst t)"]) (auto intro: adds_tagged_trans entry_gauge_tagged [OF d])
    qed (use e Some x in \<open>auto simp: calls_entry_def\<close>)
  qed (use e in simp)
qed

interpretation firmware_body: tagged_body em "\<lambda>entry s. case client of None \<Rightarrow> (Some errClientUnavailable, s) | Some api \<Rightarrow> firmware_entry m api em entry s"
  for em client m
proof
  fix entry and s s' :: "'a phone_run" and r
  assume d: "derived em"
    and e: "(case client of None \<Rightarrow> (Some errClientUnavailable, s) | Some api \<Rightarrow> firmware_entry m api em entry s) = (r, s')"
  show "adds_tagged (fst s) (fst s')"
  proof (cases client)
    case (Some api)
    obtain x w where x: "api_LatestFirmware api (ProductID (snd entry)) (snd s) = (x, w)" by (rule prod.exhaust)
    show ?thesis
    proof (cases x)
      case (Inr fw)
      with e Some x have "emitGauge m (entry_emitter em entry) MetricLensDeviceFirmwareCurrent
          (FNum (if SoftwareVersion (snd entry) = fw_Version fw then 1 else 0)) [] (fst s, w) = (r, s')"
        by (simp add: firmware_entry_def)
      from entry_gauge_tagged [OF d this] show ?thesis by simp
    qed (use e Some x in \<open>auto simp: firmware_entry_def\<close>)
  qed (use e in simp)
qed

text \<open>
  No Lens signal without a tenant. Whatever Lens answers and however the run ends, every signal the three
  polling collectors hand to the SDK, through an emitter derived from the one made at start-up, carries a
  tenant identifier.
\<close>

theorem lens_signals_tenant_tagged:
  assumes "derived em"
    and "devices_collect m now client c em s = Some (r, s') \<or> active_calls_collect m order client c em s = Some (r, s') \<or>
      firmware_collect m client c em s = Some (r, s')"
  shows "\<exists>sigs. out (fst s') = out (fst s) @ sigs \<and> list_all tenant_tagged sigs"
  unfolding adds_tagged_def [symmetric]
  using assms(2) unfolding devices_collect_def active_calls_collect_def firmware_collect_def
  by (elim disjE) (erule device_body.for_devices_tagged [OF assms(1)] calls_body.for_devices_tagged [OF assms(1)]
      firmware_body.for_devices_tagged [OF assms(1)])+

section \<open>Call states\<close>

lemma sum_count_state:
  "distinct sts \<Longrightarrow> call_State ` set calls \<subseteq> set sts \<Longrightarrow> sum_list (map (count_state calls) sts) = int (length calls)"
proof (induction calls)
  case Nil
  then show ?case by (simp add: count_state_def)
next
  case (Cons c cs)
  have "count_state (c # cs) = (\<lambda>st. (if call_State c = st then 1 else 0) + count_state cs st)"
    by (auto simp: count_state_def)
  then have "sum_list (map (count_state (c # cs)) sts) =
      sum_list (map (\<lambda>st. if call_State c = st then 1 else 0) sts) + sum_list (map (count_state cs) sts)"
    by (simp add: sum_list_addf)
  with Cons show ?case by (simp add: sum_list_distinct_conv_sum_set)
qed

text \<open>
  C21 (active calls by state). For a device whose calls Lens lists, and whatever order Go gives the map of states,
  a run that returns without error has recorded one value for each state that occurs and none for another; each value
  is the number of calls in that state, and the values add up to the number of calls.
\<close>

theorem active_calls_by_state:
  assumes "\<And>xs. mset (order xs) = mset xs"
    and "api_ActiveCalls api (ld_ID (snd entry)) (snd s) = (Inr calls, w)"
    and "calls_entry m order api em entry s = (None, s')"
  shows "\<exists>sts. distinct sts \<and> set sts = call_State ` set calls \<and> sum_list (map (count_state calls) sts) = int (length calls) \<and>
    out (fst s') = out (fst s) @ concat (map (\<lambda>st. gauge_sigs (entry_emitter em entry) MetricLensDeviceActiveCalls
      (FNum (count_state calls st)) [Attr AttrState st]) sts)"
proof -
  let ?d = "distinct_by id {} (map call_State calls)" and ?sts = "call_states order calls"
  have ms: "mset ?sts = mset ?d" by (simp add: call_states_def assms(1))
  have d: "distinct ?sts" using distinct_distinct_by [of id "{}" "map call_State calls"] mset_eq_imp_distinct_iff [OF ms] by simp
  have s: "set ?sts = call_State ` set calls"
    using mset_eq_setD [OF ms] distinct_by_keys [of id "{}" "map call_State calls"] by simp
  have l: "for_each (\<lambda>st. emitGauge m (entry_emitter em entry) MetricLensDeviceActiveCalls (FNum (count_state calls st)) [Attr AttrState st])
      ?sts (fst s, w) = (None, s')"
    using assms(2,3) by (simp add: calls_entry_def)
  have "out (fst s') = out (fst (fst s, w)) @ concat (map (\<lambda>st. gauge_sigs (entry_emitter em entry) MetricLensDeviceActiveCalls
      (FNum (count_state calls st)) [Attr AttrState st]) ?sts)"
    by (rule for_each_trace [where t = "\<lambda>s. out (fst s)", OF l]) (simp add: emitGauge_ok)
  with d s sum_count_state [OF d] show ?thesis by (intro exI [of _ ?sts]) simp
qed

section \<open>Example values\<close>

definition ex_polled_device :: lens_device where
  "ex_polled_device = zero_lens_device\<lparr>ld_ID := ''d1'', Connected := True, ProductID := ''p'', SoftwareVersion := ''8.1''\<rparr>"

definition ex_polled_calls :: "call list" where
  "ex_polled_calls = [\<lparr>call_ID = ''1'', call_State = ''HELD''\<rparr>, \<lparr>call_ID = ''2'', call_State = ''ACTIVE''\<rparr>, \<lparr>call_ID = ''3'', call_State = ''HELD''\<rparr>]"

definition ex_lens_api :: "nat lens_api" where
  "ex_lens_api = \<lparr>api_Devices = (\<lambda>t w. Some (Inr [ex_polled_device], w + 1)), api_ActiveCalls = (\<lambda>d w. (Inr ex_polled_calls, w + 1)),
     api_LatestFirmware = (\<lambda>p w. (Inr \<lparr>fw_Version = ''8.1'', ReleaseChannel = None\<rparr>, w + 1)), api_Tenants = None\<rparr>"

definition ex_base :: base_collector where
  "ex_base = \<lparr>bc_id = devicesID, bc_interval = minute, bc_tenantIDs = [''t'', ''u''], bc_maxDevices = 2\<rparr>"

definition ex_now :: "nat \<Rightarrow> gotime \<times> nat" where
  "ex_now w = (\<lparr>t_unix = 0, t_nsec = 0, t_off = 0\<rparr>, w + 1)"

lemma ex_polled:
  "resolveTenants ex_lens_api ex_base 0 = (Inr [''t'', ''u''], 0)"
  "tenant_devices ex_lens_api [''t'', ''u''] 0 = Some (Inr [(''t'', ex_polled_device), (''u'', ex_polled_device)], 2)"
  by (simp_all add: resolveTenants_def ex_lens_api_def ex_base_def)

lemma ex_emit: "fst (emitGauge ex_meter em name v attrs s) = None"
  by (simp add: emitGauge_def case_prod_unfold Let_def gauge_succeeds ex_meter_def)

lemma and_then_never_fails:
  assumes "\<And>s. fst (f s) = None" "\<And>s. fst (g s) = None"
  shows "fst (and_then f g s) = None"
  using assms(1) [of s] assms(2) by (cases "f s") (simp add: and_then_def)

lemma for_each_never_fails:
  assumes "\<And>x s. fst (h x s) = None"
  shows "fst (for_each h xs s) = None"
  by (induction xs arbitrary: s) (simp_all add: and_then_never_fails assms)

lemma ex_devices: "\<exists>s'. devices_collect ex_meter ex_now (Some ex_lens_api) ex_base ex_emitter (ex_tel, 0) = Some (None, s')"
proof -
  have "fst (emitAge ex_meter ex_now em name ts s) = None" for em name ts s
    using ex_emit by (cases "parse_rfc3339 ts") (auto simp: emitAge_def Let_def case_prod_unfold)
  then have "fst (device_entry ex_meter ex_now ex_emitter e s) = None" for e s
    unfolding device_entry_def Let_def by (intro and_then_never_fails ex_emit) auto
  then have f: "fst (for_each (device_entry ex_meter ex_now ex_emitter) xs s) = None" for xs s
    by (rule for_each_never_fails)
  have b: "base_devices ex_meter (Some ex_lens_api) ex_base ex_emitter (ex_tel, 0) =
      Some (Inr [(''t'', ex_polled_device), (''u'', ex_polled_device)], (ex_tel, 2))"
    unfolding base_devices_def by (simp only: option.case snd_conv ex_polled prod.case sum.case) (simp add: ex_base_def)
  show ?thesis
    unfolding devices_collect_def for_devices_def b option.case prod.case sum.case by (metis f prod.collapse)
qed


lemma lens_signals_tenant_tagged_witness:
  "\<exists>s' sigs. devices_collect ex_meter ex_now (Some ex_lens_api) ex_base ex_emitter (ex_tel, 0) = Some (None, s') \<and>
    out (fst s') = sigs \<and> list_all tenant_tagged sigs"
proof -
  obtain s' where s: "devices_collect ex_meter ex_now (Some ex_lens_api) ex_base ex_emitter (ex_tel, 0) = Some (None, s')"
    using ex_devices by blast
  have d: "derived ex_emitter" unfolding ex_emitter_def by (rule derived_new)
  from lens_signals_tenant_tagged [OF d disjI1 [OF s]] s show ?thesis by (auto simp: ex_tel_def)
qed

lemma active_calls_by_state_witness:
  "\<exists>s' sts. calls_entry ex_meter rev ex_lens_api ex_emitter (''t'', ex_polled_device) (ex_tel, 0) = (None, s') \<and>
    distinct sts \<and> set sts = {''HELD'', ''ACTIVE''} \<and> sum_list (map (count_state ex_polled_calls) sts) = 3 \<and>
    out (fst s') = concat (map (\<lambda>st. gauge_sigs (entry_emitter ex_emitter (''t'', ex_polled_device)) MetricLensDeviceActiveCalls
      (FNum (count_state ex_polled_calls st)) [Attr AttrState st]) sts)"
proof -
  have f: "fst (for_each (\<lambda>st. emitGauge ex_meter em name (v st) (a st)) xs s) = None" for em name v a xs and s :: "nat phone_run"
    by (rule for_each_never_fails) (rule ex_emit)
  obtain s' where s: "calls_entry ex_meter rev ex_lens_api ex_emitter (''t'', ex_polled_device) (ex_tel, 0) = (None, s')"
    by (simp add: calls_entry_def ex_lens_api_def prod_eq_iff f)
  have c: "api_ActiveCalls ex_lens_api (ld_ID (snd (''t'', ex_polled_device))) (snd (ex_tel, 0::nat)) = (Inr ex_polled_calls, 1)"
    by (simp add: ex_lens_api_def)
  have st: "call_State ` set ex_polled_calls = {''HELD'', ''ACTIVE''}" "int (length ex_polled_calls) = 3"
    by (auto simp: ex_polled_calls_def)
  from active_calls_by_state [OF mset_rev c s, unfolded st] s show ?thesis by (simp add: ex_tel_def)
qed

end
