(* ===== verification/PhoneCollectors.thy ===== *)
theory PhoneCollectors
  imports PhoneApi
begin

text \<open>
  The phone collectors without durable state: \<^verbatim>\<open>phone.status\<close>, \<^verbatim>\<open>phone.lines\<close> and
  \<^verbatim>\<open>phone.config\<close> of \<^verbatim>\<open>internal/collectors/phone/collectors.go\<close> and \<^verbatim>\<open>phone.network_info\<close> of
  \<^verbatim>\<open>internal/collectors/phone/networkinfo.go\<close>. Each \<^verbatim>\<open>Collect\<close> is a loop over the targets that
  stops at the first error.
\<close>

section \<open>Reading the phone's numbers\<close>

definition StatusID :: string where "StatusID = ''phone.status''"
definition LinesID :: string where "LinesID = ''phone.lines''"
definition ConfigID :: string where "ConfigID = ''phone.config''"
definition NetworkInfoID :: string where "NetworkInfoID = ''phone.network_info''"

definition apiStates :: "state list" where
  "apiStates = [StateOK, StateAPIDisabled, StateAuthFailed, StateUnreachable]"

definition ConfigAllowlist :: "string list" where
  "ConfigAllowlist =
     [''reg.1.address'', ''reg.2.address'', ''reg.1.label'', ''device.syslog.serverName'',
      ''tcpIpApp.sntp.address'', ''softkey.1.enable'']"

definition validState :: "state \<Rightarrow> bool" where
  "validState st \<longleftrightarrow> st = StateOK \<or> st = StateAPIDisabled \<or> st = StateAuthFailed \<or> st = StateUnreachable"

text \<open>The \<^verbatim>\<open>float64\<close> of a 64-bit count is given by the count.\<close>

definition float64 :: "64 word \<Rightarrow> metric_value" where
  "float64 w = FNum (uint w)"

definition parseCounter :: "string \<Rightarrow> metric_value result" where
  "parseCounter raw =
     (case parse_uint (trim_space raw) of
        None \<Rightarrow> Inl (Wrap (''parse unsigned counter '' @ go_quote raw) (Msg ''invalid syntax or range''))
      | Some w \<Rightarrow> Inr (float64 w))"

definition parseUptime :: "string \<Rightarrow> metric_value result" where
  "parseUptime raw =
     (let fs = str_fields (to_lower raw) in
      if length fs \<noteq> 3 \<or> fs ! 1 \<noteq> ''day'' \<and> fs ! 1 \<noteq> ''days'' then Inl (Msg (''parse uptime '' @ go_quote raw))
      else (case parse_uint (fs ! 0) of
          None \<Rightarrow> Inl (Wrap (''parse uptime days '' @ go_quote (fs ! 0)) (Msg ''invalid syntax or range''))
        | Some days \<Rightarrow>
            let clock = split_on (CHR '':'') (fs ! 2) in
            if length clock \<noteq> 3 then Inl (Msg (''parse uptime clock '' @ go_quote (fs ! 2)))
            else (case parse_uint (clock ! 0) of
                None \<Rightarrow> Inl (Msg (''parse uptime hours '' @ go_quote (clock ! 0)))
              | Some hours \<Rightarrow>
                  if hours > 23 then Inl (Msg (''parse uptime hours '' @ go_quote (clock ! 0)))
                  else (case parse_uint (clock ! 1) of
                      None \<Rightarrow> Inl (Msg (''parse uptime minutes '' @ go_quote (clock ! 1)))
                    | Some minutes \<Rightarrow>
                        if minutes > 59 then Inl (Msg (''parse uptime minutes '' @ go_quote (clock ! 1)))
                        else (case parse_uint (clock ! 2) of
                            None \<Rightarrow> Inl (Msg (''parse uptime seconds '' @ go_quote (clock ! 2)))
                          | Some seconds \<Rightarrow>
                              if seconds > 59 then Inl (Msg (''parse uptime seconds '' @ go_quote (clock ! 2)))
                              else Inr (float64 (days * 86400 + hours * 3600 + minutes * 60 + seconds)))))))"

section \<open>The collectors\<close>

definition phone_error :: "'w target \<Rightarrow> string \<Rightarrow> goerr \<Rightarrow> goerr" where
  "phone_error tgt what e = Wrap (''phone '' @ device_id tgt @ '' '' @ what) e"

definition status_stats :: "meter \<Rightarrow> emitter \<Rightarrow> 'w target \<Rightarrow> 'w phone_run fallible" where
  "status_stats m em tgt s =
     (case NetworkStats (tgt_API tgt) (snd s) of
        (Inl e, w) \<Rightarrow> (Some (phone_error tgt ''network stats'' e), (fst s, w))
      | (Inr stats, w) \<Rightarrow>
          (case parseUptime (UpTime stats) of
             Inl e \<Rightarrow> (Some (phone_error tgt ''network uptime'' e), (fst s, w))
           | Inr uptime \<Rightarrow>
               (case parseCounter (RxPackets stats) of
                  Inl e \<Rightarrow> (Some (phone_error tgt ''received packet count'' e), (fst s, w))
                | Inr rx \<Rightarrow>
                    (case parseCounter (TxPackets stats) of
                       Inl e \<Rightarrow> (Some (phone_error tgt ''transmitted packet count'' e), (fst s, w))
                     | Inr tx \<Rightarrow>
                         let de = targetEmitter em tgt in
                         and_then (emitGauge m de MetricPhoneUptimeSeconds uptime [])
                           (and_then (emitCounter m de MetricPhoneNetworkPackets rx [Attr AttrDirection ''rx''])
                             (emitCounter m de MetricPhoneNetworkPackets tx [Attr AttrDirection ''tx'']))
                           (fst s, w)))))"

definition status_state :: "state \<times> goerr option \<Rightarrow> state" where
  "status_state p = (if snd p \<noteq> None \<or> \<not> validState (fst p) then StateUnreachable else fst p)"

definition state_gauge :: "meter \<Rightarrow> emitter \<Rightarrow> state \<Rightarrow> state \<Rightarrow> 'w phone_run fallible" where
  "state_gauge m de st candidate =
     emitGauge m de MetricPhoneAPIState (FNum (if candidate = st then 1 else 0)) [Attr AttrState candidate]"

definition status_target :: "meter \<Rightarrow> emitter \<Rightarrow> 'w target \<Rightarrow> 'w phone_run fallible" where
  "status_target m em tgt s =
     (let (p, w) = Probe (tgt_API tgt) (snd s); st = status_state p in
      and_then (for_each (state_gauge m (targetEmitter em tgt) st) apiStates)
        (\<lambda>s. if st \<noteq> StateOK then (None, s) else status_stats m em tgt s) (fst s, w))"

definition status_collect :: "meter \<Rightarrow> emitter \<Rightarrow> 'w target list \<Rightarrow> 'w phone_run fallible" where
  "status_collect m em targets = for_each (status_target m em) targets"

text \<open>The other collectors skip a phone whose probe fails or gives another state than \<^verbatim>\<open>ok\<close>.\<close>

definition when_ok :: "('w target \<Rightarrow> 'w phone_run fallible) \<Rightarrow> 'w target \<Rightarrow> 'w phone_run fallible" where
  "when_ok f tgt s =
     (let ((st, err), w) = Probe (tgt_API tgt) (snd s) in
      if err \<noteq> None \<or> st \<noteq> StateOK then (None, (fst s, w)) else f tgt (fst s, w))"

fun unique_from :: "string set \<Rightarrow> line list \<Rightarrow> line list" where
  "unique_from seen [] = []"
| "unique_from seen (l # ls) =
     (if LineNumber l = [] then l # unique_from seen ls
      else if LineNumber l \<in> seen then unique_from seen ls
      else l # unique_from (insert (LineNumber l) seen) ls)"

definition uniqueLines :: "line list \<Rightarrow> line list" where
  "uniqueLines ls = unique_from {} ls"

definition line_gauge :: "meter \<Rightarrow> emitter \<Rightarrow> line \<Rightarrow> 'w phone_run fallible" where
  "line_gauge m de l =
     emitGauge m de MetricPhoneLineRegistered
       (FNum (if equal_fold (RegistrationStatus l) ''registered'' then 1 else 0))
       [Attr AttrLine (LineNumber l), Attr AttrLabel (Label l), Attr AttrSIPAddress (SIPAddress l)]"

definition lines_target :: "meter \<Rightarrow> emitter \<Rightarrow> 'w target \<Rightarrow> 'w phone_run fallible" where
  "lines_target m em tgt s =
     (case LineInfo (tgt_API tgt) (snd s) of
        (Inl e, w) \<Rightarrow> (Some (phone_error tgt ''line info'' e), (fst s, w))
      | (Inr ls, w) \<Rightarrow>
          let ls = uniqueLines ls; de = targetEmitter em tgt in
          and_then (emitGauge m de MetricPhoneLinesTotal (FNum (int (length ls))) [])
            (for_each (line_gauge m de) ls) (fst s, w))"

definition lines_collect :: "meter \<Rightarrow> emitter \<Rightarrow> 'w target list \<Rightarrow> 'w phone_run fallible" where
  "lines_collect m em targets = for_each (when_ok (lines_target m em)) targets"

definition param_gauge :: "meter \<Rightarrow> emitter \<Rightarrow> 'w target \<Rightarrow> (string \<rightharpoonup> config_param) \<Rightarrow> string \<Rightarrow> 'w phone_run fallible" where
  "param_gauge m em tgt params name s =
     (case params name of
        None \<Rightarrow> (Some (Msg (''phone '' @ device_id tgt @ '' config get omitted parameter '' @ go_quote name)), s)
      | Some p \<Rightarrow>
          emitGauge m (targetEmitter em tgt) MetricPhoneConfigParamSource (FNum 1)
            [Attr AttrParam name, Attr AttrSource (cp_Source p)] s)"

definition config_target :: "meter \<Rightarrow> emitter \<Rightarrow> string list \<Rightarrow> 'w target \<Rightarrow> 'w phone_run fallible" where
  "config_target m em names tgt s =
     (case ConfigGet (tgt_API tgt) names (snd s) of
        (Inl e, w) \<Rightarrow> (Some (phone_error tgt ''config get'' e), (fst s, w))
      | (Inr (params, invalid), w) \<Rightarrow>
          if invalid \<noteq> [] then
            (Some (Msg (''phone '' @ device_id tgt @ '' config get invalid parameters: '' @ join '', '' invalid)), (fst s, w))
          else for_each (param_gauge m em tgt params) names (fst s, w))"

definition config_collect :: "meter \<Rightarrow> emitter \<Rightarrow> string list \<Rightarrow> 'w target list \<Rightarrow> 'w phone_run fallible" where
  "config_collect m em names targets = for_each (when_ok (config_target m em names)) targets"

definition network_info_target :: "meter \<Rightarrow> emitter \<Rightarrow> 'w target \<Rightarrow> 'w phone_run fallible" where
  "network_info_target m em tgt s =
     (case NetworkInfo (tgt_API tgt) (snd s) of
        (Inl e, w) \<Rightarrow> (Some (phone_error tgt ''network info'' e), (fst s, w))
      | (Inr info, w) \<Rightarrow>
          let tgt = tgt\<lparr>tgt_Device := (tgt_Device tgt)\<lparr>dev_IP := []\<rparr>\<rparr> in
          emitGauge m (targetEmitter em tgt) MetricPhoneNetworkInfo (FNum 1)
            [Attr AttrDHCPEnabled (DHCP info), Attr AttrDHCPServer (DHCPServer info),
             Attr AttrDefaultGateway (DefaultGateway info), Attr AttrSubnetMask (SubnetMask info),
             Attr AttrBootServerOption (DHCPBootServerOption info)] (fst s, w))"

definition network_info_collect :: "meter \<Rightarrow> emitter \<Rightarrow> 'w target list \<Rightarrow> 'w phone_run fallible" where
  "network_info_collect m em targets = for_each (when_ok (network_info_target m em)) targets"

definition minutes :: "int \<Rightarrow> int" where
  "minutes n = n * 60 * 1000000000"

text \<open>\<^verbatim>\<open>NewNetworkInfo\<close>: the interval in nanoseconds.\<close>

definition network_info_interval :: "'w target list \<Rightarrow> int" where
  "network_info_interval targets =
     (case targets of t # _ \<Rightarrow> if NetworkInfoInterval t > 0 then NetworkInfoInterval t else minutes 5 | [] \<Rightarrow> minutes 5)"

section \<open>What the collectors emit\<close>

definition state_sigs :: "emitter \<Rightarrow> state \<Rightarrow> signal list" where
  "state_sigs de st =
     concat (map (\<lambda>c. gauge_sigs de MetricPhoneAPIState (FNum (if c = st then 1 else 0)) [Attr AttrState c]) apiStates)"

lemma state_gauges_ok:
  assumes "for_each (state_gauge m de st) apiStates s = (None, s')"
  shows "out (fst s') = out (fst s) @ state_sigs de st"
  unfolding state_sigs_def
  by (rule for_each_trace [where t = "\<lambda>s. out (fst s)", OF assms]) (auto simp: state_gauge_def dest: emitGauge_ok)

lemma status_state_valid: "validState (status_state p)"
  by (simp add: status_state_def validState_def)

text \<open>What the answer to \<^verbatim>\<open>network/stats\<close> is turned into, when it can be read.\<close>

definition stats_sigs :: "emitter \<Rightarrow> network_stats \<Rightarrow> signal list option" where
  "stats_sigs de stats =
     (case (parseUptime (UpTime stats), parseCounter (RxPackets stats), parseCounter (TxPackets stats)) of
        (Inr uptime, Inr rx, Inr tx) \<Rightarrow>
          Some (gauge_sigs de MetricPhoneUptimeSeconds uptime [] @
            counter_sigs de MetricPhoneNetworkPackets rx [Attr AttrDirection ''rx''] @
            counter_sigs de MetricPhoneNetworkPackets tx [Attr AttrDirection ''tx''])
      | _ \<Rightarrow> None)"

lemma status_stats_ok:
  assumes "status_stats m em tgt s = (None, s')"
  shows "\<exists>stats rest. fst (NetworkStats (tgt_API tgt) (snd s)) = Inr stats \<and>
    stats_sigs (targetEmitter em tgt) stats = Some rest \<and> out (fst s') = out (fst s) @ rest"
proof -
  from assms obtain stats uptime rx tx w where n: "NetworkStats (tgt_API tgt) (snd s) = (Inr stats, w)"
    and p: "parseUptime (UpTime stats) = Inr uptime" "parseCounter (RxPackets stats) = Inr rx" "parseCounter (TxPackets stats) = Inr tx"
    by (auto simp: status_stats_def split: prod.splits sum.splits)
  with assms show ?thesis
    by (auto simp: status_stats_def stats_sigs_def and_then_None Let_def dest!: emitGauge_ok emitCounter_ok)
qed

definition status_sigs :: "emitter \<Rightarrow> 'w target \<Rightarrow> state \<Rightarrow> signal list \<Rightarrow> bool" where
  "status_sigs em tgt st rest \<longleftrightarrow>
     (if st = StateOK
      then \<exists>w stats. fst (NetworkStats (tgt_API tgt) w) = Inr stats \<and> stats_sigs (targetEmitter em tgt) stats = Some rest
      else rest = [])"

lemma status_target_ok:
  assumes "status_target m em tgt s = (None, s')"
  shows "\<exists>rest. out (fst s') = out (fst s) @ state_sigs (targetEmitter em tgt) (status_state (fst (Probe (tgt_API tgt) (snd s)))) @ rest \<and>
    status_sigs em tgt (status_state (fst (Probe (tgt_API tgt) (snd s)))) rest"
proof -
  obtain p w where p: "Probe (tgt_API tgt) (snd s) = (p, w)" by fastforce
  let ?st = "status_state p"
  from assms p obtain s1 where
    g: "for_each (state_gauge m (targetEmitter em tgt) ?st) apiStates (fst s, w) = (None, s1)"
    and r: "(if ?st \<noteq> StateOK then (None, s1) else status_stats m em tgt s1) = (None, s')"
    by (auto simp: status_target_def Let_def and_then_None)
  have o: "out (fst s1) = out (fst s) @ state_sigs (targetEmitter em tgt) ?st" using state_gauges_ok [OF g] by simp
  show ?thesis
  proof (cases "?st = StateOK")
    case True
    then have "status_stats m em tgt s1 = (None, s')" using r by simp
    from status_stats_ok [OF this] o p True show ?thesis by (auto simp: status_sigs_def)
  next
    case False
    with r o p show ?thesis by (auto simp: status_sigs_def)
  qed
qed

lemma one_hot: "validState st \<Longrightarrow> length (filter (\<lambda>c. c = st) apiStates) = 1"
  by (auto simp: validState_def apiStates_def state_defs)

lemma param_gauge_ok:
  assumes "param_gauge m em tgt params name s = (None, s')"
  shows "out (fst s') = out (fst s) @ gauge_sigs (targetEmitter em tgt) MetricPhoneConfigParamSource (FNum 1)
      [Attr AttrParam name, Attr AttrSource (cp_Source (the (params name)))]"
  using assms by (auto simp: param_gauge_def split: option.splits dest: emitGauge_ok)

lemma config_target_ok:
  assumes "config_target m em names tgt s = (None, s')"
  shows "\<exists>params. fst (ConfigGet (tgt_API tgt) names (snd s)) = Inr (params, []) \<and> set names \<subseteq> dom params \<and>
    out (fst s') = out (fst s) @ concat (map (\<lambda>name. gauge_sigs (targetEmitter em tgt) MetricPhoneConfigParamSource (FNum 1)
      [Attr AttrParam name, Attr AttrSource (cp_Source (the (params name)))]) names)"
proof -
  from assms obtain params w where
    c: "ConfigGet (tgt_API tgt) names (snd s) = (Inr (params, []), w)"
    and f: "for_each (param_gauge m em tgt params) names (fst s, w) = (None, s')"
    by (auto simp: config_target_def split: prod.splits sum.splits if_splits)
  have "set names \<subseteq> dom params"
    using for_each_all [OF f] by (fastforce simp: param_gauge_def split: option.splits)
  moreover have "out (fst s') = out (fst s) @ concat (map (\<lambda>name. gauge_sigs (targetEmitter em tgt) MetricPhoneConfigParamSource (FNum 1)
      [Attr AttrParam name, Attr AttrSource (cp_Source (the (params name)))]) names)"
    by (rule for_each_trace [where t = "\<lambda>s. out (fst s)", OF f, simplified fst_conv]) (rule param_gauge_ok)
  ultimately show ?thesis using c by auto
qed

lemma lines_target_ok:
  assumes "lines_target m em tgt s = (None, s')"
  shows "\<exists>ls. fst (LineInfo (tgt_API tgt) (snd s)) = Inr ls \<and>
    out (fst s') = out (fst s) @
      gauge_sigs (targetEmitter em tgt) MetricPhoneLinesTotal (FNum (int (length (uniqueLines ls)))) [] @
      concat (map (\<lambda>l. gauge_sigs (targetEmitter em tgt) MetricPhoneLineRegistered
        (FNum (if equal_fold (RegistrationStatus l) ''registered'' then 1 else 0))
        [Attr AttrLine (LineNumber l), Attr AttrLabel (Label l), Attr AttrSIPAddress (SIPAddress l)]) (uniqueLines ls))"
proof -
  from assms obtain ls w s1 where l: "LineInfo (tgt_API tgt) (snd s) = (Inr ls, w)"
    and g: "emitGauge m (targetEmitter em tgt) MetricPhoneLinesTotal (FNum (int (length (uniqueLines ls)))) [] (fst s, w) = (None, s1)"
    and f: "for_each (line_gauge m (targetEmitter em tgt)) (uniqueLines ls) s1 = (None, s')"
    by (auto simp: lines_target_def Let_def and_then_None split: prod.splits sum.splits)
  have "out (fst s') = out (fst s1) @ concat (map (\<lambda>l. gauge_sigs (targetEmitter em tgt) MetricPhoneLineRegistered
        (FNum (if equal_fold (RegistrationStatus l) ''registered'' then 1 else 0))
        [Attr AttrLine (LineNumber l), Attr AttrLabel (Label l), Attr AttrSIPAddress (SIPAddress l)]) (uniqueLines ls))"
    by (rule for_each_trace [where t = "\<lambda>s. out (fst s)", OF f]) (auto simp: line_gauge_def dest: emitGauge_ok)
  with emitGauge_ok [OF g] l show ?thesis by auto
qed

section \<open>The tenant boundary\<close>

definition tagged_step :: "'w phone_run fallible \<Rightarrow> bool" where
  "tagged_step f \<longleftrightarrow> (\<forall>s. adds_tagged (fst s) (fst (snd (f s))))"

lemma tagged_stepD: "tagged_step f \<Longrightarrow> fst s = t \<Longrightarrow> adds_tagged t (fst (snd (f s)))"
  by (cases s) (auto simp: tagged_step_def)

lemma tagged_and_then: "tagged_step f \<Longrightarrow> tagged_step g \<Longrightarrow> tagged_step (and_then f g)"
  unfolding tagged_step_def and_then_def
  by (auto split: prod.splits option.splits) (metis adds_tagged_trans fst_conv snd_conv)+

lemma tagged_for_each: "(\<And>x. tagged_step (f x)) \<Longrightarrow> tagged_step (for_each f xs)"
proof (induction xs)
  case Nil
  show ?case by (simp add: tagged_step_def)
next
  case (Cons x xs)
  have "for_each f (x # xs) = and_then (f x) (for_each f xs)" by (rule ext) simp
  with Cons show ?case by (simp add: tagged_and_then)
qed

lemma tagged_emitGauge: "derived em \<Longrightarrow> tagged_step (emitGauge m em name value attrs)"
  by (metis emitGauge_tagged prod.collapse tagged_step_def)

lemma tagged_emitCounter: "derived em \<Longrightarrow> tagged_step (emitCounter m em name value attrs)"
  by (metis emitCounter_tagged prod.collapse tagged_step_def)

lemma tagged_when_ok: "(\<And>tgt. tagged_step (f tgt)) \<Longrightarrow> tagged_step (when_ok f tgt)"
  by (auto simp: tagged_step_def [of "when_ok f tgt"] when_ok_def Let_def split: prod.splits intro: tagged_stepD)

lemmas tagged_intros = tagged_and_then tagged_for_each tagged_emitGauge tagged_emitCounter derived_targetEmitter

lemma tagged_status_stats: "derived em \<Longrightarrow> tagged_step (status_stats m em tgt)"
  unfolding tagged_step_def [of "status_stats m em tgt"] status_stats_def Let_def
  by (auto split: prod.splits sum.splits intro!: tagged_stepD tagged_intros)

lemma tagged_if: "tagged_step g \<Longrightarrow> tagged_step (\<lambda>s. if b then (None, s) else g s)"
  by (simp add: tagged_step_def)

lemma tagged_status_target: "derived em \<Longrightarrow> tagged_step (status_target m em tgt)"
  unfolding tagged_step_def [of "status_target m em tgt"] status_target_def Let_def state_gauge_def
  by (auto split: prod.splits intro!: tagged_stepD tagged_if tagged_status_stats tagged_intros)

lemma tagged_lines_target: "derived em \<Longrightarrow> tagged_step (lines_target m em tgt)"
  unfolding tagged_step_def [of "lines_target m em tgt"] lines_target_def line_gauge_def Let_def
  by (auto split: prod.splits sum.splits intro!: tagged_stepD tagged_intros)

lemma tagged_param_gauge: "derived em \<Longrightarrow> tagged_step (param_gauge m em tgt params name)"
  unfolding tagged_step_def [of "param_gauge m em tgt params name"] param_gauge_def
  by (auto split: option.splits intro!: tagged_stepD tagged_intros)

lemma tagged_config_target: "derived em \<Longrightarrow> tagged_step (config_target m em names tgt)"
  unfolding tagged_step_def [of "config_target m em names tgt"] config_target_def
  by (auto split: prod.splits sum.splits intro!: tagged_stepD tagged_for_each tagged_param_gauge)

lemma tagged_network_info_target: "derived em \<Longrightarrow> tagged_step (network_info_target m em tgt)"
  unfolding tagged_step_def [of "network_info_target m em tgt"] network_info_target_def Let_def
  by (auto split: prod.splits sum.splits intro!: tagged_stepD tagged_intros)

lemma collectors_tagged:
  assumes "derived em"
  shows "tagged_step (status_collect m em targets)" "tagged_step (lines_collect m em targets)"
    "tagged_step (config_collect m em names targets)" "tagged_step (network_info_collect m em targets)"
  using assms
  by (auto simp: status_collect_def lines_collect_def config_collect_def network_info_collect_def
      intro!: tagged_for_each tagged_when_ok tagged_status_target tagged_lines_target tagged_config_target
        tagged_network_info_target)

section \<open>Lines\<close>

lemma unique_from_unnumbered: "filter (\<lambda>l. LineNumber l = []) (unique_from seen ls) = filter (\<lambda>l. LineNumber l = []) ls"
  by (induction seen ls rule: unique_from.induct) auto

lemma unique_from_numbered:
  "filter (\<lambda>l. LineNumber l \<noteq> []) (unique_from seen ls) = distinct_by LineNumber seen (filter (\<lambda>l. LineNumber l \<noteq> []) ls)"
  by (induction seen ls rule: unique_from.induct) auto

lemma subseq_unique_from: "subseq (unique_from seen ls) ls"
  by (induction seen ls rule: unique_from.induct) auto

section \<open>Addresses\<close>

definition readdress :: "string \<Rightarrow> 'w target \<Rightarrow> 'w target" where
  "readdress ip tgt =
     tgt\<lparr>tgt_Device := (tgt_Device tgt)\<lparr>dev_IP := ip\<rparr>,
         tgt_API := (tgt_API tgt)\<lparr>NetworkInfo := (\<lambda>w. case NetworkInfo (tgt_API tgt) w of
             (Inl e, w') \<Rightarrow> (Inl e, w') | (Inr info, w') \<Rightarrow> (Inr (info\<lparr>IPV4Address := ip\<rparr>), w'))\<rparr>\<rparr>"

lemma network_info_readdress: "when_ok (network_info_target m em) (readdress ip tgt) = when_ok (network_info_target m em) tgt"
  by (rule ext)
    (auto simp: when_ok_def network_info_target_def readdress_def Let_def targetEmitter_def phone_error_def device_id_def
      split: prod.splits sum.splits)

lemma network_info_collect_readdress:
  "network_info_collect m em (map (readdress ip) targets) = network_info_collect m em targets"
proof (rule ext)
  show "network_info_collect m em (map (readdress ip) targets) s = network_info_collect m em targets s" for s
    unfolding network_info_collect_def
    by (induction targets arbitrary: s) (auto simp: network_info_readdress and_then_def split: prod.splits option.splits)
qed

section \<open>Uptime\<close>

lemma digit_plain: "is_digit c \<Longrightarrow> plain_char c \<and> is_ascii c \<and> lower_char c = c \<and> c \<noteq> CHR '':''"
  by (auto simp: char_defs plain_char_def)

lemma format_uint_digits: "list_all is_digit (format_uint w)" "format_uint w \<noteq> []"
  by (simp_all add: format_uint_def int_digits_digits)

lemma token_digits: "list_all is_digit s \<Longrightarrow> s \<noteq> [] \<Longrightarrow> token s"
  by (auto simp: token_def list_all_iff digit_plain)

definition uptime_text :: "64 word \<Rightarrow> 64 word \<Rightarrow> 64 word \<Rightarrow> 64 word \<Rightarrow> string" where
  "uptime_text d h m s =
     format_uint d @ '' days '' @ format_uint h @ '':'' @ format_uint m @ '':'' @ format_uint s"

lemma to_lower_uptime: "to_lower (uptime_text d h m s) = uptime_text d h m s"
proof -
  have "list_all (\<lambda>c. is_ascii c \<and> lower_char c = c) (format_uint w)" for w
    using format_uint_digits(1) [of w] by (auto simp: list_all_iff digit_plain)
  then have "list_all (\<lambda>c. is_ascii c \<and> lower_char c = c) (uptime_text d h m s)"
    by (auto simp: uptime_text_def char_defs)
  then show ?thesis by (subst to_lower_ascii) (auto simp: list_all_iff map_idI)
qed

lemma fields_uptime:
  "str_fields (uptime_text d h m s) =
     [format_uint d, ''days'', format_uint h @ '':'' @ format_uint m @ '':'' @ format_uint s]"
proof -
  let ?clock = "format_uint h @ '':'' @ format_uint m @ '':'' @ format_uint s"
  have t: "token (format_uint w)" for w using format_uint_digits by (rule token_digits)
  then have "token ?clock" by (auto simp: token_def plain_char_def code_def)
  moreover have "token ''days''" by (simp add: token_def plain_char_def code_def)
  ultimately show ?thesis
    using str_fields_token [OF t [of d], of "''days '' @ ?clock"] str_fields_token [of "''days''" ?clock]
    by (simp add: uptime_text_def str_fields_last)
qed

lemma clock_uptime:
  "split_on (CHR '':'') (format_uint h @ '':'' @ format_uint m @ '':'' @ format_uint s) =
     [format_uint h, format_uint m, format_uint s]"
proof -
  have "CHR '':'' \<notin> set (format_uint w)" for w
    using format_uint_digits(1) [of w] by (auto simp: list_all_iff char_defs)
  then show ?thesis by (simp add: split_on_append split_on_none)
qed

lemma parseUptime_text:
  assumes "h \<le> 23" "m \<le> 59" "s \<le> 59"
  shows "parseUptime (uptime_text d h m s) = Inr (float64 (d * 86400 + h * 3600 + m * 60 + s))"
  using assms clock_uptime [of h m s] unfolding parseUptime_def to_lower_uptime fields_uptime Let_def
  by (simp add: parse_format_uint not_less [symmetric])

lemma uptime_no_wrap:
  assumes "uint d \<le> 213503982334600" "h \<le> 23" "m \<le> 59" "s \<le> 59"
  shows "uint (d * 86400 + h * 3600 + m * 60 + s :: 64 word) = uint d * 86400 + uint h * 3600 + uint m * 60 + uint s"
proof -
  have "uint h \<le> 23" "uint m \<le> 59" "uint s \<le> 59" using assms by (simp_all add: word_le_def)
  moreover have "0 \<le> uint d" "0 \<le> uint h" "0 \<le> uint m" "0 \<le> uint s" by simp_all
  ultimately have b: "0 \<le> uint d * 86400 + uint h * 3600 + uint m * 60 + uint s"
    "uint d * 86400 + uint h * 3600 + uint m * 60 + uint s < 2 ^ 64"
    using assms(1) by auto
  have e: "d * 86400 + h * 3600 + m * 60 + s = (of_int (uint d * 86400 + uint h * 3600 + uint m * 60 + uint s) :: 64 word)"
    by simp
  show ?thesis unfolding e uint_word_of_int using b by simp
qed

section \<open>An example phone\<close>

definition ex_stats :: network_stats where
  "ex_stats = \<lparr>UpTime = ''1 day 02:03:04'', RxPackets = ''7'', TxPackets = ''9''\<rparr>"

definition ex_api :: "unit phone_api" where
  "ex_api = \<lparr>Probe = (\<lambda>w. ((StateOK, None), w)), NetworkStats = (\<lambda>w. (Inr ex_stats, w)),
     NetworkInfo = (\<lambda>w. (Inl (Msg ''none''), w)), CallLogs = (\<lambda>w. (Inl (Msg ''none''), w)),
     LineInfo = (\<lambda>w. (Inr [], w)),
     ConfigGet = (\<lambda>names w. (Inr (\<lambda>n. if n \<in> set names then Some \<lparr>cp_Value = ''Europe/London'', cp_Source = ''web''\<rparr> else None, []), w))\<rparr>"

definition ex_device :: device where
  "ex_device = \<lparr>dev_ID = ''d1'', dev_Name = ''n'', dev_MAC = ''0004F2000001'', dev_Model = ''Edge'', dev_Site = [], dev_IP = ''10.0.0.1''\<rparr>"

definition ex_target :: "unit target" where
  "ex_target = \<lparr>TenantID = ''t'', tgt_Device = ex_device, tgt_API = ex_api, StateDir = ''state'',
     CallLogsInterval = 0, NetworkInfoInterval = 0\<rparr>"

lemma ex_status: "fst (status_target ex_meter ex_emitter ex_target (ex_tel, ())) = None"
  by code_simp

section \<open>Properties\<close>

text \<open>
  One phone in \<^verbatim>\<open>phone.status\<close>. A turn of the status loop that does not fail emits, for each
  of the four states, one gauge per tenant scope, 1 for exactly one of them, the state
  the probe gave (\<^verbatim>\<open>unreachable\<close> when it failed or is unknown), and then, only for a phone whose
  state is \<^verbatim>\<open>ok\<close>, the uptime and the packet counters it reported.
\<close>

theorem status_one_hot:
  assumes "status_target m em tgt s = (None, s')"
  shows "\<exists>st rest. st = status_state (fst (Probe (tgt_API tgt) (snd s))) \<and>
    length (filter (\<lambda>c. c = st) apiStates) = 1 \<and> distinct apiStates \<and>
    out (fst s') = out (fst s) @ concat (map (\<lambda>c. gauge_sigs (targetEmitter em tgt) MetricPhoneAPIState
        (FNum (if c = st then 1 else 0)) [Attr AttrState c]) apiStates) @ rest \<and>
    (if st = StateOK
     then \<exists>w stats. fst (NetworkStats (tgt_API tgt) w) = Inr stats \<and> stats_sigs (targetEmitter em tgt) stats = Some rest
     else rest = [])"
proof -
  have "distinct apiStates" by (simp add: apiStates_def state_defs)
  with status_target_ok [OF assms] one_hot [OF status_state_valid] show ?thesis
    unfolding state_sigs_def status_sigs_def by blast
qed

lemma status_one_hot_witness:
  "\<exists>s' st rest. status_target ex_meter ex_emitter ex_target (ex_tel, ()) = (None, s') \<and>
    length (filter (\<lambda>c. c = st) apiStates) = 1 \<and>
    out (fst s') = out ex_tel @ concat (map (\<lambda>c. gauge_sigs (targetEmitter ex_emitter ex_target) MetricPhoneAPIState
        (FNum (if c = st then 1 else 0)) [Attr AttrState c]) apiStates) @ rest"
proof -
  obtain s' where s: "status_target ex_meter ex_emitter ex_target (ex_tel, ()) = (None, s')"
    using ex_status by (metis prod.collapse)
  from status_one_hot [OF s] s show ?thesis by auto
qed


text \<open>
  Uptime. The uptime of \<open>d\<close> days and a clock time is read as its seconds, exactly, for up to
  213503982334600 days; more days than that wrap in 64 bits.
\<close>

theorem parseUptime_exact:
  assumes "h \<le> 23" "mi \<le> 59" "sec \<le> 59" "uint d \<le> 213503982334600"
  shows "parseUptime (uptime_text d h mi sec) = Inr (FNum (uint d * 86400 + uint h * 3600 + uint mi * 60 + uint sec))"
  using parseUptime_text [OF assms(1-3)] uptime_no_wrap [OF assms(4,1-3)] by (simp add: float64_def)

lemma parseUptime_exact_witness:
  "parseUptime (uptime_text 1 2 3 4) = Inr (FNum 93784)"
  using parseUptime_exact [of 2 3 4 1] by simp

text \<open>
  Uptime that wraps. A phone that reports 213503982334602 days is taken to be up
  for 61184 seconds: the multiplication by 86400 wraps in 64 bits and no error is returned.
\<close>

lemma parseUptime_wraps:
  "parseUptime ''213503982334602 days 00:00:00'' = Inr (FNum 61184)"
  by code_simp

text \<open>
  No host address. What \<^verbatim>\<open>phone.network_info\<close> emits does not depend on the phones' addresses,
  neither those of the target devices nor those in the phones' answers.
\<close>

theorem network_info_hides_address:
  "network_info_collect m em (map (readdress ip) targets) = network_info_collect m em targets"
  by (rule network_info_collect_readdress)

text \<open>
  Tenant boundary of the phone collectors. With an emitter made by the program, every
  signal the four collectors hand to the SDK, on success and on failure, has a non-empty
  tenant attribute.
\<close>

theorem phone_signals_tenant_tagged:
  assumes "derived em"
    "f \<in> {status_collect m em targets, lines_collect m em targets, config_collect m em names targets, network_info_collect m em targets}"
    "f (tel, w) = (r, (tel', w'))"
  shows "\<exists>sigs. out tel' = out tel @ sigs \<and> list_all (\<lambda>s. list_ex tenant_attr (signal_attrs s)) sigs"
proof -
  have "tagged_step f" using assms(2) collectors_tagged [OF assms(1)] by auto
  from tagged_stepD [OF this, of "(tel, w)" tel] assms(3) show ?thesis
    by (simp add: adds_tagged_def tenant_tagged_def [abs_def])
qed

lemma phone_signals_tenant_tagged_witness:
  "\<exists>r tel' sigs. status_collect ex_meter ex_emitter [ex_target] (ex_tel, ()) = (r, (tel', ())) \<and> out tel' = sigs \<and>
     list_all (\<lambda>s. list_ex tenant_attr (signal_attrs s)) sigs"
proof -
  obtain r tel' where r: "status_collect ex_meter ex_emitter [ex_target] (ex_tel, ()) = (r, (tel', ()))"
    by (metis prod.collapse unit.exhaust)
  have d: "derived ex_emitter" unfolding ex_emitter_def by (rule derived_new)
  obtain sigs where "out tel' = out ex_tel @ sigs" "list_all (\<lambda>s. list_ex tenant_attr (signal_attrs s)) sigs"
    using phone_signals_tenant_tagged [of ex_emitter "status_collect ex_meter ex_emitter [ex_target]" ex_meter
        "[ex_target]" "[]" ex_tel "()" r tel' "()"] d r by auto
  with r show ?thesis by (auto simp: ex_tel_def)
qed

end
