(* ===== verification/PhoneCallLogs.thy ===== *)
theory PhoneCallLogs
  imports PhoneCollectors StateFiles Checkpoints
begin

text \<open>
  \<^verbatim>\<open>internal/collectors/phone/calllogs.go\<close>: the collector that emits one log per new row of a
  phone's call log and keeps a watermark file per tenant and phone. The parameters are the
  SHA-256 digest in hexadecimal, the text of a raw JSON value and the zone database
  behind \<^verbatim>\<open>time.LoadLocation\<close>.
\<close>

section \<open>Data\<close>

definition callLogsID :: string where "callLogsID = ''phone.call_logs''"
definition callLogWatermarkVersion :: int where "callLogWatermarkVersion = 1"
definition phoneTimezoneParam :: string where "phoneTimezoneParam = ''tcpIpApp.sntp.olsonTimezoneID''"

record call_log_env =
  cl_sha256hex :: "string \<Rightarrow> string"
  raw_text :: "json \<Rightarrow> string"
  LoadLocation :: "string \<Rightarrow> location result"

record call_logs_collector =
  cl_stateDir :: string
  cl_interval :: int

record call_log_entry =
  direction :: string
  raw :: json

record call_log_row =
  clr_LineNumber :: string
  clr_StartTime :: string
  RemotePartyName :: string
  RemotePartyNumber :: string
  clr_Duration :: string

record call_log_watermark =
  Version :: int
  clw_StartTime :: string
  clw_Keys :: "string list"

definition zero_row :: call_log_row where
  "zero_row = \<lparr>clr_LineNumber = [], clr_StartTime = [], RemotePartyName = [], RemotePartyNumber = [], clr_Duration = []\<rparr>"

definition dec_row :: "call_log_row decoder" where
  "dec_row = dec_struct
     [fld ''LineNumber'' dec_string clr_LineNumber (\<lambda>v r. r\<lparr>clr_LineNumber := v\<rparr>),
      fld ''StartTime'' dec_string clr_StartTime (\<lambda>v r. r\<lparr>clr_StartTime := v\<rparr>),
      fld ''RemotePartyName'' dec_string RemotePartyName (\<lambda>v r. r\<lparr>RemotePartyName := v\<rparr>),
      fld ''RemotePartyNumber'' dec_string RemotePartyNumber (\<lambda>v r. r\<lparr>RemotePartyNumber := v\<rparr>),
      fld ''Duration'' dec_string clr_Duration (\<lambda>v r. r\<lparr>clr_Duration := v\<rparr>)]"

definition dec_call_log_watermark :: "call_log_watermark decoder" where
  "dec_call_log_watermark = dec_struct
     [fld ''version'' dec_int Version (\<lambda>v w. w\<lparr>Version := v\<rparr>),
      fld ''start_time'' dec_string clw_StartTime (\<lambda>v w. w\<lparr>clw_StartTime := v\<rparr>),
      fld ''keys'' (dec_list [] dec_string) clw_Keys (\<lambda>v w. w\<lparr>clw_Keys := v\<rparr>)]"

definition json_int :: "int \<Rightarrow> json" where
  "json_int n = JNum (if n < 0 then CHR ''-'' # int_digits (- n) else int_digits n)"

definition call_log_watermark_json :: "call_log_watermark \<Rightarrow> json" where
  "call_log_watermark_json w =
     JObj [(''version'', json_int (Version w)), (''start_time'', JStr (clw_StartTime w)),
       (''keys'', if clw_Keys w = [] then JNull else JArr (map JStr (clw_Keys w)))]"

section \<open>Operations\<close>

definition callLogEntries :: "call_logs \<Rightarrow> call_log_entry list" where
  "callLogEntries cls =
     map (\<lambda>r. \<lparr>direction = ''placed'', raw = r\<rparr>) (Placed cls) @
     map (\<lambda>r. \<lparr>direction = ''received'', raw = r\<rparr>) (Received cls) @
     map (\<lambda>r. \<lparr>direction = ''missed'', raw = r\<rparr>) (Missed cls)"

definition phoneLocation :: "call_log_env \<Rightarrow> 'w phone_api \<Rightarrow> 'w \<Rightarrow> location result \<times> 'w" where
  "phoneLocation env api w =
     (case ConfigGet api [phoneTimezoneParam] w of
        (Inl e, w) \<Rightarrow> (Inl e, w)
      | (Inr (params, invalid), w) \<Rightarrow>
          if phoneTimezoneParam \<in> set invalid then (Inl (Msg (''unsupported parameter '' @ go_quote phoneTimezoneParam)), w)
          else
            let name = trim_space (case params phoneTimezoneParam of None \<Rightarrow> [] | Some p \<Rightarrow> cp_Value p) in
            if name = [] then (Inl (Msg (''missing parameter '' @ go_quote phoneTimezoneParam)), w)
            else (case LoadLocation env name of
                Inl e \<Rightarrow> (Inl (Wrap (''load '' @ go_quote name) e), w)
              | Inr loc \<Rightarrow> (Inr loc, w)))"

definition parseCallLog :: "json \<Rightarrow> location \<Rightarrow> (call_log_row \<times> gotime) option" where
  "parseCallLog j loc =
     (case dec_row zero_row j of
        None \<Rightarrow> None
      | Some row \<Rightarrow>
          (case parse_in_location loc (clr_StartTime row) of None \<Rightarrow> None | Some start \<Rightarrow> Some (row, start)))"

definition remoteParty :: "call_log_row \<Rightarrow> string" where
  "remoteParty row = (if RemotePartyName row \<noteq> [] then RemotePartyName row else RemotePartyNumber row)"

definition durationSeconds :: "string \<Rightarrow> string" where
  "durationSeconds s =
     (case str_fields s of
        [] \<Rightarrow> ''0''
      | f # _ \<Rightarrow> (case parse_uint f of None \<Rightarrow> ''0'' | Some seconds \<Rightarrow> format_uint seconds))"

definition callLogKey :: "string \<Rightarrow> string \<Rightarrow> string" where
  "callLogKey deviceID startTime = deviceID @ key_sep @ startTime"

definition callLogIsNew :: "string \<Rightarrow> gotime \<Rightarrow> call_log_watermark \<Rightarrow> string set \<Rightarrow> bool" where
  "callLogIsNew key start wm seen =
     (if key \<in> seen then False
      else if clw_StartTime wm = [] then True
      else (case parse_rfc3339 (clw_StartTime wm) of None \<Rightarrow> True | Some checkpoint \<Rightarrow> \<not> time_before start checkpoint))"

definition callLogAdvance :: "string \<Rightarrow> gotime \<Rightarrow> call_log_watermark \<Rightarrow> call_log_watermark" where
  "callLogAdvance key start wm =
     (if clw_StartTime wm = [] then wm\<lparr>clw_StartTime := format_rfc3339 start, clw_Keys := [key]\<rparr>
      else (case parse_rfc3339 (clw_StartTime wm) of
          None \<Rightarrow> wm\<lparr>clw_StartTime := format_rfc3339 start, clw_Keys := [key]\<rparr>
        | Some checkpoint \<Rightarrow>
            if time_after start checkpoint then wm\<lparr>clw_StartTime := format_rfc3339 start, clw_Keys := [key]\<rparr>
            else if time_equal start checkpoint then wm\<lparr>clw_Keys := clw_Keys wm @ [key]\<rparr> else wm))"

definition call_log_dir :: "call_logs_collector \<Rightarrow> path" where
  "call_log_dir c = [cl_stateDir c, callLogsID]"

definition call_log_hash :: "call_log_env \<Rightarrow> 'w target \<Rightarrow> string" where
  "call_log_hash env tgt = cl_sha256hex env (TenantID tgt @ key_sep @ device_id tgt)"

definition callLogPath :: "call_log_env \<Rightarrow> call_logs_collector \<Rightarrow> 'w target \<Rightarrow> path" where
  "callLogPath env c tgt = call_log_dir c @ [call_log_hash env tgt @ ''.json'']"

definition migrateLegacyCallLogWatermark :: "location \<Rightarrow> call_log_watermark \<Rightarrow> call_log_watermark" where
  "migrateLegacyCallLogWatermark loc wm =
     (let wm = wm\<lparr>Version := callLogWatermarkVersion\<rparr> in
      case parse_rfc3339 (clw_StartTime wm) of
        None \<Rightarrow> wm
      | Some legacy \<Rightarrow>
          wm\<lparr>clw_StartTime := format_rfc3339 (date_in loc (t_unix legacy + t_off legacy) (t_nsec legacy))\<rparr>)"

definition fresh_watermark :: call_log_watermark where
  "fresh_watermark = \<lparr>Version = callLogWatermarkVersion, clw_StartTime = [], clw_Keys = []\<rparr>"

definition loadCallLogWatermark :: "call_log_env \<Rightarrow> fs_env \<Rightarrow> call_logs_collector \<Rightarrow> 'w target \<Rightarrow> location \<Rightarrow> fs \<Rightarrow>
    call_log_watermark result" where
  "loadCallLogWatermark env fse c tgt loc f =
     (if cl_stateDir c = [] then Inr fresh_watermark
      else (case read_doc fse (callLogPath env c tgt) f of
          Inl e \<Rightarrow> Inl e
        | Inr None \<Rightarrow> Inr fresh_watermark
        | Inr (Some j) \<Rightarrow>
            (case dec_call_log_watermark \<lparr>Version = 0, clw_StartTime = [], clw_Keys = []\<rparr> j of
               None \<Rightarrow> Inl (Msg ''json type error'')
             | Some wm \<Rightarrow> Inr (if Version wm = 0 then migrateLegacyCallLogWatermark loc wm else wm))))"

definition saveCallLogWatermark :: "call_log_env \<Rightarrow> fs_env \<Rightarrow> call_logs_collector \<Rightarrow> 'w target \<Rightarrow> call_log_watermark \<Rightarrow>
    fs \<Rightarrow> goerr option \<times> fs list" where
  "saveCallLogWatermark env fse c tgt wm f =
     (if cl_stateDir c = [] then (None, [f])
      else save_doc fse (call_log_dir c) (call_log_hash env tgt @ ''.json'')
        (call_log_watermark_json (wm\<lparr>Version := callLogWatermarkVersion\<rparr>)) f)"

text \<open>The state of the loop over the entries: the checkpoint, which moves, the keys, the counts and the telemetry.\<close>

record call_log_run =
  cl_wm :: call_log_watermark
  cl_seen :: "string set"
  cl_calls :: "string \<Rightarrow> int"
  cl_tel :: instruments

definition call_attrs :: "call_log_entry \<Rightarrow> call_log_row \<Rightarrow> attr list" where
  "call_attrs entry row =
     [Attr AttrDirection (direction entry), Attr AttrRemoteParty (remoteParty row), Attr AttrLine (clr_LineNumber row),
      Attr AttrDurationSeconds (durationSeconds (clr_Duration row)), Attr AttrDisposition (direction entry),
      Attr AttrStartedAt (clr_StartTime row)]"

definition process_entry :: "call_log_env \<Rightarrow> emitter \<Rightarrow> location \<Rightarrow> string \<Rightarrow> call_log_entry \<Rightarrow> call_log_run fallible" where
  "process_entry env de loc dev entry st =
     (case parseCallLog (raw entry) loc of
        None \<Rightarrow> (None, st)
      | Some (row, start) \<Rightarrow>
          let key = callLogKey dev (clr_StartTime row) in
          if \<not> callLogIsNew key start (cl_wm st) (cl_seen st) then (None, st)
          else (case log_event de LogPhoneCallRecord (raw_text env (raw entry)) start (call_attrs entry row) (cl_tel st) of
              (Some e, tel) \<Rightarrow> (Some (Wrap (''emit phone '' @ dev @ '' call record'') e), st\<lparr>cl_tel := tel\<rparr>)
            | (None, tel) \<Rightarrow>
                (None, \<lparr>cl_wm = callLogAdvance key start (cl_wm st), cl_seen = insert key (cl_seen st),
                        cl_calls = (cl_calls st)(direction entry := cl_calls st (direction entry) + 1), cl_tel = tel\<rparr>)))"

definition call_counter :: "meter \<Rightarrow> emitter \<Rightarrow> string \<Rightarrow> string \<Rightarrow> call_log_run fallible" where
  "call_counter m de dev dir st =
     (if cl_calls st dir = 0 then (None, st)
      else (case counter m de MetricPhoneCallsTotal (FNum (cl_calls st dir)) [Attr AttrDirection dir] (cl_tel st) of
          (Some e, tel) \<Rightarrow> (Some (Wrap (''emit phone '' @ dev @ '' call metric'') e), st\<lparr>cl_tel := tel\<rparr>)
        | (None, tel) \<Rightarrow> (None, st\<lparr>cl_tel := tel\<rparr>)))"

type_synonym 'w call_log_state = "instruments \<times> 'w \<times> fs"

definition call_logs_target :: "call_log_env \<Rightarrow> fs_env \<Rightarrow> meter \<Rightarrow> call_logs_collector \<Rightarrow> emitter \<Rightarrow> 'w target \<Rightarrow>
    'w call_log_state fallible" where
  "call_logs_target env fse m c em tgt s =
     (let (tel, w, f) = s; dev = device_id tgt; ((state, err), w) = Probe (tgt_API tgt) w in
      if err \<noteq> None \<or> state \<noteq> StateOK then (None, (tel, w, f))
      else (case phoneLocation env (tgt_API tgt) w of
          (Inl e, w) \<Rightarrow> (Some (Wrap (''phone '' @ dev @ '' call-log timezone'') e), (tel, w, f))
        | (Inr loc, w) \<Rightarrow>
            (case loadCallLogWatermark env fse c tgt loc f of
               Inl e \<Rightarrow> (Some (Wrap (''load phone '' @ dev @ '' call-log watermark'') e), (tel, w, f))
             | Inr checkpoint \<Rightarrow>
                 (case CallLogs (tgt_API tgt) w of
                    (Inl e, w) \<Rightarrow> (Some (Wrap (''phone '' @ dev @ '' call logs'') e), (tel, w, f))
                  | (Inr cls, w) \<Rightarrow>
                      let de = targetEmitter em tgt;
                          st = \<lparr>cl_wm = checkpoint, cl_seen = set (clw_Keys checkpoint), cl_calls = (\<lambda>_. 0), cl_tel = tel\<rparr> in
                      (case and_then (for_each (process_entry env de loc dev) (callLogEntries cls))
                              (for_each (call_counter m de dev) [''placed'', ''received'', ''missed'']) st of
                         (Some e, st) \<Rightarrow> (Some e, (cl_tel st, w, f))
                       | (None, st) \<Rightarrow>
                           (case saveCallLogWatermark env fse c tgt (cl_wm st) f of
                              (None, fs) \<Rightarrow> (None, (cl_tel st, w, last fs))
                            | (Some e, fs) \<Rightarrow>
                                (Some (Wrap (''persist phone '' @ dev @ '' call-log watermark'') e), (cl_tel st, w, last fs))))))))"

definition call_logs_collect :: "call_log_env \<Rightarrow> fs_env \<Rightarrow> meter \<Rightarrow> call_logs_collector \<Rightarrow> emitter \<Rightarrow> 'w target list \<Rightarrow>
    'w call_log_state fallible" where
  "call_logs_collect env fse m c em targets = for_each (call_logs_target env fse m c em) targets"

definition NewCallLogs :: "'w target list \<Rightarrow> call_logs_collector" where
  "NewCallLogs targets =
     (case targets of
        [] \<Rightarrow> \<lparr>cl_stateDir = [], cl_interval = minutes 5\<rparr>
      | t # _ \<Rightarrow> \<lparr>cl_stateDir = StateDir t, cl_interval = (if CallLogsInterval t > 0 then CallLogsInterval t else minutes 5)\<rparr>)"

section \<open>The checkpoint\<close>

interpretation call_mark: checkpoint_ops clw_StartTime clw_Keys callLogIsNew callLogAdvance
  by unfold_locales
    (auto simp: callLogIsNew_def callLogAdvance_def time_cmp_defs split: option.splits)

abbreviation call_wm_mark :: "call_log_watermark \<Rightarrow> mark" where
  "call_wm_mark wm \<equiv> mark_from (clw_StartTime wm) (clw_Keys wm)"

text \<open>The key and the start of an entry that can be read.\<close>

definition entry_key :: "string \<Rightarrow> location \<Rightarrow> call_log_entry \<Rightarrow> (string \<times> gotime) option" where
  "entry_key dev loc e = map_option (\<lambda>(row, start). (callLogKey dev (clr_StartTime row), start)) (parseCallLog (raw e) loc)"

text \<open>The key determines the start.\<close>

lemma entry_key_start:
  assumes "entry_key dev loc e = Some (k, t)" shows "parse_in_location loc (key_start k) = Some t"
  using assms key_start_record [OF parse_in_location_chars]
  by (auto simp: entry_key_def parseCallLog_def callLogKey_def split: option.splits)

lemma entry_key_inject: "entry_key dev loc e = Some (k, t) \<Longrightarrow> entry_key dev loc e' = Some (k, t') \<Longrightarrow> t = t'"
  by (metis entry_key_start option.inject)

section \<open>The entries a run takes\<close>

text \<open>
  The entries that are logged: those not before the checkpoint as it stands when they are
  reached, and with no key seen.
\<close>

fun taken :: "(call_log_entry \<Rightarrow> (string \<times> gotime) option) \<Rightarrow> mark \<Rightarrow> string set \<Rightarrow> call_log_entry list \<Rightarrow> call_log_entry list" where
  "taken key mk seen [] = []"
| "taken key mk seen (e # es) =
     (case key e of
        None \<Rightarrow> taken key mk seen es
      | Some (k, t) \<Rightarrow>
          if k \<notin> seen \<and> mark_fresh mk (instant t)
          then e # taken key (mark_advance k (instant t) mk) (insert k seen) es
          else taken key mk seen es)"

definition key_of :: "(call_log_entry \<Rightarrow> (string \<times> gotime) option) \<Rightarrow> call_log_entry \<Rightarrow> string" where
  "key_of key e = (case key e of None \<Rightarrow> [] | Some (k, _) \<Rightarrow> k)"

definition fresh_entry :: "(call_log_entry \<Rightarrow> (string \<times> gotime) option) \<Rightarrow> mark \<Rightarrow> call_log_entry \<Rightarrow> bool" where
  "fresh_entry key mk e = (case key e of None \<Rightarrow> False | Some (_, t) \<Rightarrow> mark_fresh mk (instant t))"

definition entry_mark :: "(call_log_entry \<Rightarrow> (string \<times> gotime) option) \<Rightarrow> call_log_entry \<Rightarrow> mark \<Rightarrow> mark" where
  "entry_mark key e mk = (case key e of None \<Rightarrow> mk | Some (k, t) \<Rightarrow> mark_advance k (instant t) mk)"

lemma taken_Cons:
  "taken key mk seen (e # es) =
     (if fresh_entry key mk e \<and> key_of key e \<notin> seen
      then e # taken key (entry_mark key e mk) (insert (key_of key e) seen) es
      else taken key mk seen es)"
  by (auto simp: fresh_entry_def key_of_def entry_mark_def split: option.splits)

declare taken.simps(2) [simp del]

lemma taken_fresh: "e \<in> set (taken key mk seen es) \<Longrightarrow> (\<exists>k t. key e = Some (k, t)) \<and> key_of key e \<notin> seen"
proof (induction es arbitrary: mk seen)
  case (Cons e' es)
  then show ?case by (auto simp: taken_Cons fresh_entry_def split: if_splits option.splits)
qed simp

lemma subseq_taken: "subseq (taken key mk seen es) es"
  by (induction es arbitrary: mk seen) (auto simp: taken_Cons)

lemma distinct_taken: "distinct (map (key_of key) (taken key mk seen es))"
  by (induction es arbitrary: mk seen) (auto simp: taken_Cons dest: taken_fresh)

lemma mark_keys_advance: "mark_keys (mark_advance k i mk) \<subseteq> insert k (mark_keys mk)"
  by (auto simp: mark_keys_def mark_advance_def split: option.splits if_splits)

lemma mark_keys_entry: "mark_keys (entry_mark key e mk) \<subseteq> insert (key_of key e) (mark_keys mk)"
  using mark_keys_advance by (fastforce simp: entry_mark_def key_of_def split: option.splits)

definition covered_entry :: "(call_log_entry \<Rightarrow> (string \<times> gotime) option) \<Rightarrow> mark \<Rightarrow> call_log_entry \<Rightarrow> bool" where
  "covered_entry key mk e = (case key e of None \<Rightarrow> False | Some (k, t) \<Rightarrow> covered mk k (instant t))"

lemma covered_entry_mark: "covered_entry key mk e \<Longrightarrow> covered_entry key (entry_mark key e' mk) e"
  by (auto simp: covered_entry_def entry_mark_def covered_advance split: option.splits)

lemma covered_entry_fold: "covered_entry key mk e \<Longrightarrow> covered_entry key (fold (entry_mark key) es mk) e"
  by (induction es arbitrary: mk) (auto intro: covered_entry_mark)

lemma covered_entry_same: "key e = Some p \<Longrightarrow> covered_entry key (entry_mark key e mk) e"
  by (cases p) (simp add: covered_entry_def entry_mark_def)

lemma entry_marks_cover:
  "e \<in> set es \<Longrightarrow> key e = Some p \<Longrightarrow> covered_entry key (fold (entry_mark key) es mk) e"
  by (induction es arbitrary: mk) (auto intro: covered_entry_fold covered_entry_same)

lemma taken_not_covered:
  "e \<in> set (taken key mk seen es) \<Longrightarrow> mark_keys mk \<subseteq> seen \<Longrightarrow> \<not> covered_entry key mk e"
proof (induction es arbitrary: mk seen)
  case (Cons e' es)
  show ?case
  proof (cases "fresh_entry key mk e' \<and> key_of key e' \<notin> seen")
    case True
    then have "\<not> covered_entry key mk e'"
      using covered_not_fresh Cons.prems(2)
      by (fastforce simp: covered_entry_def fresh_entry_def key_of_def split: option.splits)
    moreover have "mark_keys (entry_mark key e' mk) \<subseteq> insert (key_of key e') seen"
      using mark_keys_entry Cons.prems(2) by fast
    ultimately show ?thesis using Cons True covered_entry_mark by (simp add: taken_Cons) metis
  qed (use Cons in \<open>auto simp: taken_Cons\<close>)
qed simp

text \<open>With the entries in the order of their starts, the moving checkpoint loses nothing.\<close>

definition starts_before :: "(call_log_entry \<Rightarrow> (string \<times> gotime) option) \<Rightarrow> call_log_entry \<Rightarrow> call_log_entry \<Rightarrow> bool" where
  "starts_before key a b =
     (case (key a, key b) of (Some (_, s), Some (_, t)) \<Rightarrow> instant s \<le> instant t | _ \<Rightarrow> True)"

lemma mark_fresh_advance:
  "mark_fresh mk i \<Longrightarrow> i \<le> j \<Longrightarrow> mark_fresh (mark_advance k i mk) j = mark_fresh mk j"
  by (auto simp: mark_fresh_def mark_advance_def split: option.splits)

lemma fresh_entry_mark:
  "fresh_entry key mk e \<Longrightarrow> starts_before key e e' \<Longrightarrow> fresh_entry key (entry_mark key e mk) e' = fresh_entry key mk e'"
  by (auto simp: fresh_entry_def entry_mark_def starts_before_def mark_fresh_advance split: option.splits)

lemma taken_sorted:
  assumes "sorted_wrt (starts_before key) es"
  shows "taken key mk seen es = distinct_by (key_of key) seen (filter (fresh_entry key mk) es)"
  using assms
proof (induction es arbitrary: mk seen)
  case (Cons e es)
  have "filter (fresh_entry key (entry_mark key e mk)) es = filter (fresh_entry key mk) es" if "fresh_entry key mk e"
    by (rule filter_cong [OF refl]) (use Cons.prems that fresh_entry_mark in auto)
  with Cons show ?case by (auto simp: taken_Cons)
qed simp

text \<open>An entry that starts before one taken ahead of it is not taken, now or in any later run.\<close>

definition stale_entry :: "(call_log_entry \<Rightarrow> (string \<times> gotime) option) \<Rightarrow> mark \<Rightarrow> call_log_entry \<Rightarrow> bool" where
  "stale_entry key mk e \<longleftrightarrow> \<not> fresh_entry key mk e"

lemma stale_entry_mark: "stale_entry key mk e \<Longrightarrow> stale_entry key (entry_mark key e' mk) e"
  by (auto simp: stale_entry_def fresh_entry_def entry_mark_def dest: mark_advance_mono split: option.splits)

lemma stale_not_taken: "stale_entry key mk e \<Longrightarrow> e \<notin> set (taken key mk seen es)"
  by (induction es arbitrary: mk seen) (auto simp: taken_Cons stale_entry_mark, simp add: stale_entry_def)

lemma taken_stale:
  assumes "key e = Some (k, t)" "key e' = Some (k', t')" "instant t' < instant t"
  shows "stale_entry key (entry_mark key e mk) e'"
  using assms by (auto simp: stale_entry_def fresh_entry_def entry_mark_def mark_fresh_def mark_advance_def split: option.splits)

section \<open>The loop over the entries\<close>

definition good_entry :: "string \<Rightarrow> location \<Rightarrow> call_log_entry \<Rightarrow> bool" where
  "good_entry dev loc e = (case entry_key dev loc e of None \<Rightarrow> True | Some (_, t) \<Rightarrow> \<not> is_zero t \<and> printable t)"

definition advance_entry :: "string \<Rightarrow> location \<Rightarrow> call_log_entry \<Rightarrow> call_log_watermark \<Rightarrow> call_log_watermark" where
  "advance_entry dev loc e wm = (case entry_key dev loc e of None \<Rightarrow> wm | Some (k, t) \<Rightarrow> callLogAdvance k t wm)"

definition entry_logs :: "call_log_env \<Rightarrow> emitter \<Rightarrow> location \<Rightarrow> call_log_entry \<Rightarrow> signal list" where
  "entry_logs env de loc e =
     (case parseCallLog (raw e) loc of
        None \<Rightarrow> []
      | Some (row, start) \<Rightarrow>
          map (\<lambda>base. LogRecord (raw_text env (raw e)) start
            (Attr AttrEventName LogPhoneCallRecord # base @ call_attrs e row)) (scoped de))"

definition taken_by :: "string \<Rightarrow> location \<Rightarrow> call_log_watermark \<Rightarrow> string set \<Rightarrow> call_log_entry list \<Rightarrow> call_log_entry list" where
  "taken_by dev loc wm seen es = taken (entry_key dev loc) (call_wm_mark wm) seen es"

lemma mark_of_advance_entry:
  "good_entry dev loc e \<Longrightarrow> call_wm_mark (advance_entry dev loc e wm) = entry_mark (entry_key dev loc) e (call_wm_mark wm)"
  by (auto simp: good_entry_def advance_entry_def entry_mark_def call_mark.mark_of_advance split: option.splits)

lemma mark_of_advance_entries:
  "\<forall>e \<in> set es. good_entry dev loc e \<Longrightarrow>
     call_wm_mark (fold (advance_entry dev loc) es wm) = fold (entry_mark (entry_key dev loc)) es (call_wm_mark wm)"
  by (induction es arbitrary: wm) (auto simp: mark_of_advance_entry)

lemma process_entry_skip:
  assumes "\<not> (fresh_entry (entry_key dev loc) (call_wm_mark (cl_wm st)) e \<and> key_of (entry_key dev loc) e \<notin> cl_seen st)"
  shows "process_entry env de loc dev e st = (None, st)"
  using assms
  by (auto simp: process_entry_def entry_key_def fresh_entry_def key_of_def call_mark.is_new_iff Let_def split: option.splits prod.splits)

lemma process_entry_take:
  assumes "fresh_entry (entry_key dev loc) (call_wm_mark (cl_wm st)) e" "key_of (entry_key dev loc) e \<notin> cl_seen st" "good_entry dev loc e"
  shows "\<exists>tel. process_entry env de loc dev e st =
      (None, \<lparr>cl_wm = advance_entry dev loc e (cl_wm st), cl_seen = insert (key_of (entry_key dev loc) e) (cl_seen st),
              cl_calls = (cl_calls st)(direction e := cl_calls st (direction e) + 1), cl_tel = tel\<rparr>) \<and>
    logs tel = logs (cl_tel st) @ entry_logs env de loc e"
proof -
  from assms(1) obtain row t where p: "parseCallLog (raw e) loc = Some (row, t)"
    by (auto simp: fresh_entry_def entry_key_def split: option.splits)
  then have k: "entry_key dev loc e = Some (callLogKey dev (clr_StartTime row), t)" by (simp add: entry_key_def)
  then have nz: "\<not> is_zero t" using assms(3) by (simp add: good_entry_def)
  obtain tel where l: "log_event de LogPhoneCallRecord (raw_text env (raw e)) t (call_attrs e row) (cl_tel st) = (None, tel)"
    using log_event_succeeds [OF nz] by (metis prod.collapse)
  show ?thesis
    using logs_log_event [OF l] assms(1,2) p k l
    by (simp add: process_entry_def fresh_entry_def key_of_def call_mark.is_new_iff Let_def entry_logs_def advance_entry_def)
qed

definition count_direction :: "call_log_entry list \<Rightarrow> string \<Rightarrow> int" where
  "count_direction es d = int (length (filter (\<lambda>e. direction e = d) es))"

lemma process_entries_spec:
  assumes "\<forall>e \<in> set es. good_entry dev loc e"
  shows "\<exists>tel. for_each (process_entry env de loc dev) es st =
      (None, \<lparr>cl_wm = fold (advance_entry dev loc) (taken_by dev loc (cl_wm st) (cl_seen st) es) (cl_wm st),
              cl_seen = cl_seen st \<union> key_of (entry_key dev loc) ` set (taken_by dev loc (cl_wm st) (cl_seen st) es),
              cl_calls = (\<lambda>d. cl_calls st d + count_direction (taken_by dev loc (cl_wm st) (cl_seen st) es) d), cl_tel = tel\<rparr>) \<and>
    logs tel = logs (cl_tel st) @ concat (map (entry_logs env de loc) (taken_by dev loc (cl_wm st) (cl_seen st) es))"
  using assms
proof (induction es arbitrary: st)
  case Nil
  show ?case by (cases st) (simp add: taken_by_def count_direction_def)
next
  case (Cons e es)
  let ?key = "entry_key dev loc"
  show ?case
  proof (cases "fresh_entry ?key (call_wm_mark (cl_wm st)) e \<and> key_of ?key e \<notin> cl_seen st")
    case False
    have "taken_by dev loc (cl_wm st) (cl_seen st) (e # es) = taken_by dev loc (cl_wm st) (cl_seen st) es"
      using False by (auto simp: taken_by_def taken_Cons)
    with Cons.IH [of st] Cons.prems process_entry_skip [OF False, of env de] show ?thesis
      by (simp add: and_then_def)
  next
    case True
    with Cons.prems process_entry_take [of dev loc st e env de] obtain tel where
      p: "process_entry env de loc dev e st =
        (None, \<lparr>cl_wm = advance_entry dev loc e (cl_wm st), cl_seen = insert (key_of ?key e) (cl_seen st),
              cl_calls = (cl_calls st)(direction e := cl_calls st (direction e) + 1), cl_tel = tel\<rparr>)" (is "_ = (None, ?st)")
      and l: "logs tel = logs (cl_tel st) @ entry_logs env de loc e" by auto
    have t: "taken_by dev loc (cl_wm st) (cl_seen st) (e # es) = e # taken_by dev loc (cl_wm ?st) (cl_seen ?st) es"
      using True Cons.prems mark_of_advance_entry [of dev loc e "cl_wm st"] by (simp add: taken_by_def taken_Cons)
    have c: "(\<lambda>d. cl_calls ?st d + count_direction es' d) = (\<lambda>d. cl_calls st d + count_direction (e # es') d)" for es'
      by (rule ext) (simp add: count_direction_def)
    from Cons.IH [of ?st] Cons.prems p l t c show ?thesis by (auto simp: and_then_def)
  qed
qed

lemma call_counter_ok:
  assumes "\<And>st n. Float64Counter m st n = None"
  shows "\<exists>tel. call_counter m de dev d st = (None, st\<lparr>cl_tel := tel\<rparr>) \<and> logs tel = logs (cl_tel st)"
proof (cases "cl_calls st d = 0")
  case True
  then show ?thesis by (intro exI [of _ "cl_tel st"]) (simp add: call_counter_def)
next
  case False
  obtain r tel where c: "counter m de MetricPhoneCallsTotal (FNum (cl_calls st d)) [Attr AttrDirection d] (cl_tel st) = (r, tel)"
    by fastforce
  moreover have "r = None" using counter_succeeds [OF assms] c by (metis fst_conv)
  moreover have "logs tel = logs (cl_tel st)" using logs_counter c by (metis snd_conv)
  ultimately show ?thesis using False by (auto simp: call_counter_def)
qed

lemma call_counters_ok:
  assumes "\<And>st n. Float64Counter m st n = None"
  shows "\<exists>tel. for_each (call_counter m de dev) ds st = (None, st\<lparr>cl_tel := tel\<rparr>) \<and> logs tel = logs (cl_tel st)"
proof (induction ds arbitrary: st)
  case Nil
  show ?case by (cases st) simp
next
  case (Cons d ds)
  obtain tel where "call_counter m de dev d st = (None, st\<lparr>cl_tel := tel\<rparr>)" "logs tel = logs (cl_tel st)"
    using call_counter_ok [OF assms] by blast
  with Cons [of "st\<lparr>cl_tel := tel\<rparr>"] show ?case by (auto simp: and_then_def)
qed

section \<open>Files\<close>

lemma int_literal_digits: "0 \<le> n \<Longrightarrow> n < 2 ^ 63 \<Longrightarrow> int_literal (int_digits n) = Some n"
proof -
  assume n: "0 \<le> n" "n < 2 ^ 63"
  obtain c cs where d: "int_digits n = c # cs" by (cases "int_digits n") auto
  with int_digits_digits [of n] have "c \<noteq> CHR ''-''" by (auto simp: char_defs)
  with d n int_digits_digits [of n] digits_val_int_digits [OF n(1)] show ?thesis
    by (simp add: int_literal_def)
qed

lemma dec_call_log_watermark_json:
  assumes "Version wm = 1"
  shows "dec_call_log_watermark \<lparr>Version = 0, clw_StartTime = [], clw_Keys = []\<rparr> (call_log_watermark_json wm) = Some wm"
  using assms int_literal_digits [of 1]
  by (cases wm) (simp add: dec_call_log_watermark_def call_log_watermark_json_def dec_struct_def fld_def field_of_def
      go_simps dec_list_def dec_int_def json_int_def)

lemma load_after_save_call_logs:
  assumes "saveCallLogWatermark env fse c tgt wm f = (None, gs)" "fs_err fse (ReadFile (callLogPath env c tgt)) = None"
    "Version wm = 1" "cl_stateDir c \<noteq> []"
  shows "loadCallLogWatermark env fse c tgt loc (last gs) = Inr wm"
proof -
  have "wm\<lparr>Version := callLogWatermarkVersion\<rparr> = wm" using assms(3) by (cases wm) (simp add: callLogWatermarkVersion_def)
  with assms read_after_save [of fse "call_log_dir c" "call_log_hash env tgt" "call_log_watermark_json wm" f gs]
  show ?thesis
    by (simp add: saveCallLogWatermark_def callLogPath_def loadCallLogWatermark_def dec_call_log_watermark_json)
qed

section \<open>A run over one phone\<close>

definition phone_answers :: "call_log_env \<Rightarrow> 'w target \<Rightarrow> location \<Rightarrow> 'w \<Rightarrow> call_log_entry list \<Rightarrow> 'w \<Rightarrow> bool" where
  "phone_answers env tgt loc w es w' \<longleftrightarrow>
     (\<exists>w1 w2 cls. Probe (tgt_API tgt) w = ((StateOK, None), w1) \<and> phoneLocation env (tgt_API tgt) w1 = (Inr loc, w2) \<and>
        CallLogs (tgt_API tgt) w2 = (Inr cls, w') \<and> es = callLogEntries cls)"

definition meter_healthy :: "meter \<Rightarrow> bool" where
  "meter_healthy m \<longleftrightarrow> (\<forall>st n. Float64Counter m st n = None \<and> Float64Gauge m st n = None)"

definition next_watermark :: "string \<Rightarrow> location \<Rightarrow> call_log_watermark \<Rightarrow> call_log_entry list \<Rightarrow> call_log_watermark" where
  "next_watermark dev loc wm es =
     (fold (advance_entry dev loc) (taken_by dev loc wm (set (clw_Keys wm)) es) wm)\<lparr>Version := callLogWatermarkVersion\<rparr>"

lemma saveCallLogWatermark_version:
  "saveCallLogWatermark env fse c tgt (wm\<lparr>Version := callLogWatermarkVersion\<rparr>) f = saveCallLogWatermark env fse c tgt wm f"
  by (simp add: saveCallLogWatermark_def)

lemma save_call_logs_healthy: "fs_healthy fse \<Longrightarrow> \<exists>gs. saveCallLogWatermark env fse c tgt wm f = (None, gs)"
  by (simp add: saveCallLogWatermark_def save_doc_healthy)

lemma call_logs_target_ok:
  assumes a: "phone_answers env tgt loc w es w'" and g: "\<forall>e \<in> set es. good_entry (device_id tgt) loc e"
    and l: "loadCallLogWatermark env fse c tgt loc f = Inr wm" and h: "fs_healthy fse" "meter_healthy m" and d: "cl_stateDir c \<noteq> []"
  obtains tel' f' where "call_logs_target env fse m c em tgt (tel, w, f) = (None, (tel', w', f'))"
    "logs tel' = logs tel @ concat (map (entry_logs env (targetEmitter em tgt) loc) (taken_by (device_id tgt) loc wm (set (clw_Keys wm)) es))"
    "loadCallLogWatermark env fse c tgt loc f' = Inr (next_watermark (device_id tgt) loc wm es)"
proof -
  let ?dev = "device_id tgt" and ?de = "targetEmitter em tgt"
  let ?st = "\<lparr>cl_wm = wm, cl_seen = set (clw_Keys wm), cl_calls = (\<lambda>_. 0), cl_tel = tel\<rparr>"
  let ?wm = "fold (advance_entry ?dev loc) (taken_by ?dev loc wm (set (clw_Keys wm)) es) wm"
  from a obtain w1 w2 cls where q: "Probe (tgt_API tgt) w = ((StateOK, None), w1)"
    "phoneLocation env (tgt_API tgt) w1 = (Inr loc, w2)" "CallLogs (tgt_API tgt) w2 = (Inr cls, w')" "es = callLogEntries cls"
    by (auto simp: phone_answers_def)
  obtain st1 where p: "for_each (process_entry env ?de loc ?dev) es ?st = (None, st1)" "cl_wm st1 = ?wm"
    and lg: "logs (cl_tel st1) = logs tel @ concat (map (entry_logs env ?de loc) (taken_by ?dev loc wm (set (clw_Keys wm)) es))"
    using process_entries_spec [OF g, of env ?de ?st] by (auto simp del: for_each.simps)
  obtain tel' where cs: "for_each (call_counter m ?de ?dev) [''placed'', ''received'', ''missed''] st1 = (None, st1\<lparr>cl_tel := tel'\<rparr>)"
    "logs tel' = logs (cl_tel st1)"
    using call_counters_ok [of m ?de ?dev "[''placed'', ''received'', ''missed'']" st1] h(2) by (auto simp: meter_healthy_def)
  obtain gs where s: "saveCallLogWatermark env fse c tgt ?wm f = (None, gs)" using save_call_logs_healthy [OF h(1)] by blast
  have "call_logs_target env fse m c em tgt (tel, w, f) = (None, (tel', w', last gs))"
    using q l p cs s by (simp add: call_logs_target_def Let_def and_then_def del: for_each.simps)
  moreover have "loadCallLogWatermark env fse c tgt loc (last gs) = Inr (next_watermark ?dev loc wm es)"
  proof (rule load_after_save_call_logs [OF _ _ _ d])
    show "saveCallLogWatermark env fse c tgt (next_watermark ?dev loc wm es) f = (None, gs)"
      unfolding next_watermark_def saveCallLogWatermark_version by (rule s)
  qed (use h in \<open>simp_all add: fs_healthy_def next_watermark_def callLogWatermarkVersion_def\<close>)
  ultimately show ?thesis using that lg cs(2) by simp
qed

section \<open>Runs in sequence\<close>

fun call_history :: "string \<Rightarrow> location \<Rightarrow> call_log_watermark \<Rightarrow> call_log_entry list list \<Rightarrow> call_log_entry list" where
  "call_history dev loc wm [] = []"
| "call_history dev loc wm (es # batches) =
     taken_by dev loc wm (set (clw_Keys wm)) es @ call_history dev loc (next_watermark dev loc wm es) batches"

definition good_entries :: "string \<Rightarrow> location \<Rightarrow> call_log_entry list \<Rightarrow> bool" where
  "good_entries dev loc es \<longleftrightarrow> (\<forall>e \<in> set es. good_entry dev loc e)"

lemma next_watermark_mark:
  assumes "good_entries dev loc es"
  shows "call_wm_mark (next_watermark dev loc wm es) =
    fold (entry_mark (entry_key dev loc)) (taken_by dev loc wm (set (clw_Keys wm)) es) (call_wm_mark wm)"
  using assms mark_of_advance_entries [of "taken_by dev loc wm (set (clw_Keys wm)) es" dev loc wm]
    subseq_taken [THEN list_emb_set]
  by (fastforce simp: next_watermark_def taken_by_def good_entries_def)

lemma taken_by_not_covered:
  "e \<in> set (taken_by dev loc wm (set (clw_Keys wm)) es) \<Longrightarrow> \<not> covered_entry (entry_key dev loc) (call_wm_mark wm) e"
  unfolding taken_by_def by (rule taken_not_covered) (auto dest: subsetD [OF mark_keys_from])

lemma call_history_not_covered:
  assumes "list_all (good_entries dev loc) batches" "e \<in> set (call_history dev loc wm batches)"
  shows "\<not> covered_entry (entry_key dev loc) (call_wm_mark wm) e"
  using assms
proof (induction batches arbitrary: wm)
  case (Cons es batches)
  from Cons.prems consider "e \<in> set (taken_by dev loc wm (set (clw_Keys wm)) es)"
    | "e \<in> set (call_history dev loc (next_watermark dev loc wm es) batches)" by auto
  then show ?case
  proof cases
    case 1
    then show ?thesis by (rule taken_by_not_covered)
  next
    case 2
    with Cons.IH Cons.prems(1) have "\<not> covered_entry (entry_key dev loc) (call_wm_mark (next_watermark dev loc wm es)) e" by simp
    moreover have "good_entries dev loc es" using Cons.prems(1) by simp
    ultimately show ?thesis using covered_entry_fold next_watermark_mark by metis
  qed
qed simp

lemma call_history_key: "e \<in> set (call_history dev loc wm batches) \<Longrightarrow> \<exists>k t. entry_key dev loc e = Some (k, t)"
proof (induction batches arbitrary: wm)
  case (Cons es batches)
  then show ?case using taken_fresh unfolding taken_by_def by (auto simp: taken_by_def dest!: taken_fresh)
qed simp

lemma covered_entry_key:
  assumes "entry_key dev loc e = Some (k, t)" "entry_key dev loc e' = Some (k, t')" "covered_entry (entry_key dev loc) mk e"
  shows "covered_entry (entry_key dev loc) mk e'"
  using assms entry_key_inject [OF assms(1,2)] by (simp add: covered_entry_def)

lemma distinct_call_history:
  assumes "list_all (good_entries dev loc) batches"
  shows "distinct (map (key_of (entry_key dev loc)) (call_history dev loc wm batches))"
  using assms
proof (induction batches arbitrary: wm)
  case (Cons es batches)
  let ?key = "entry_key dev loc" and ?sel = "taken_by dev loc wm (set (clw_Keys wm)) es"
  have "key_of ?key e \<noteq> key_of ?key e'" if e: "e \<in> set ?sel" and e': "e' \<in> set (call_history dev loc (next_watermark dev loc wm es) batches)" for e e'
  proof
    assume eq: "key_of ?key e = key_of ?key e'"
    obtain k t where k: "?key e = Some (k, t)" using e taken_fresh unfolding taken_by_def by blast
    obtain t' where k': "?key e' = Some (k, t')" using call_history_key [OF e'] eq k by (auto simp: key_of_def)
    have "covered_entry ?key (call_wm_mark (next_watermark dev loc wm es)) e"
      using entry_marks_cover [of e ?sel ?key] e k next_watermark_mark [of dev loc es wm] Cons.prems by simp
    then show False using covered_entry_key [OF k k'] call_history_not_covered [OF _ e'] Cons.prems by simp
  qed
  moreover have "distinct (map (key_of ?key) ?sel)" by (simp add: taken_by_def distinct_taken)
  ultimately show ?case using Cons by auto
qed simp

lemma stale_entry_fold: "stale_entry key mk e \<Longrightarrow> stale_entry key (fold (entry_mark key) es mk) e"
  by (induction es arbitrary: mk) (auto intro: stale_entry_mark)

lemma stale_not_in_history:
  assumes "stale_entry (entry_key dev loc) (call_wm_mark wm) e" "list_all (good_entries dev loc) batches"
  shows "e \<notin> set (call_history dev loc wm batches)"
  using assms
proof (induction batches arbitrary: wm)
  case (Cons es batches)
  have "good_entries dev loc es" using Cons.prems by simp
  then have "stale_entry (entry_key dev loc) (call_wm_mark (next_watermark dev loc wm es)) e"
    using stale_entry_fold [OF Cons.prems(1)] by (simp add: next_watermark_mark)
  with Cons show ?case using stale_not_taken [OF Cons.prems(1)] by (simp add: taken_by_def)
qed simp

inductive phone_answers_seq :: "call_log_env \<Rightarrow> 'w target \<Rightarrow> location \<Rightarrow> 'w \<Rightarrow> call_log_entry list list \<Rightarrow> 'w \<Rightarrow> bool"
  for env tgt loc where
  answers_Nil: "phone_answers_seq env tgt loc w [] w"
| answers_Cons: "phone_answers env tgt loc w es w' \<Longrightarrow> phone_answers_seq env tgt loc w' batches w'' \<Longrightarrow>
     phone_answers_seq env tgt loc w (es # batches) w''"

fun call_logs_seq :: "call_log_env \<Rightarrow> fs_env \<Rightarrow> meter \<Rightarrow> call_logs_collector \<Rightarrow> emitter \<Rightarrow> 'w target \<Rightarrow> nat \<Rightarrow>
    'w call_log_state \<Rightarrow> 'w call_log_state option" where
  "call_logs_seq env fse m c em tgt 0 s = Some s"
| "call_logs_seq env fse m c em tgt (Suc n) s =
     (case call_logs_collect env fse m c em [tgt] s of
        (None, s') \<Rightarrow> call_logs_seq env fse m c em tgt n s'
      | (Some _, _) \<Rightarrow> None)"

lemma call_logs_seq_history:
  assumes "phone_answers_seq env tgt loc w batches w'" "list_all (good_entries (device_id tgt) loc) batches"
    "loadCallLogWatermark env fse c tgt loc f = Inr wm" "fs_healthy fse" "meter_healthy m" "cl_stateDir c \<noteq> []"
  shows "\<exists>tel' f'. call_logs_seq env fse m c em tgt (length batches) (tel, w, f) = Some (tel', w', f') \<and>
    logs tel' = logs tel @ concat (map (entry_logs env (targetEmitter em tgt) loc) (call_history (device_id tgt) loc wm batches))"
  using assms
proof (induction arbitrary: tel f wm)
  case (answers_Cons w es w' batches w'')
  have g: "\<forall>e \<in> set es. good_entry (device_id tgt) loc e" using answers_Cons.prems by (simp add: good_entries_def)
  obtain tel' f' where
    t: "call_logs_target env fse m c em tgt (tel, w, f) = (None, (tel', w', f'))"
      "logs tel' = logs tel @ concat (map (entry_logs env (targetEmitter em tgt) loc)
         (taken_by (device_id tgt) loc wm (set (clw_Keys wm)) es))"
    and l: "loadCallLogWatermark env fse c tgt loc f' = Inr (next_watermark (device_id tgt) loc wm es)"
    using call_logs_target_ok [OF answers_Cons.hyps(1) g answers_Cons.prems(2-5)] by metis
  from answers_Cons.IH [OF _ l, of tel'] answers_Cons.prems t show ?case
    by (auto simp: call_logs_collect_def and_then_def)
qed simp


section \<open>The migration of old checkpoints\<close>

lemma getnum_append: "getnum fixed s = Some (n, r) \<Longrightarrow> getnum fixed (s @ ''Z'') = Some (n, r @ ''Z'')"
  by (auto simp: getnum_def char_defs split: list.splits if_splits)

lemma skip_append: "skip c s = Some r \<Longrightarrow> skip c (s @ t) = Some (r @ t)"
  by (auto simp: skip_def split: list.splits if_splits)

lemma parse_year_append: "parse_year s = Some (y, r) \<Longrightarrow> parse_year (s @ t) = Some (y, r @ t)"
  by (auto simp: parse_year_def split: if_splits)

lemma digits_stop: "takeWhile is_digit (s @ ''Z'') = takeWhile is_digit s" "dropWhile is_digit (s @ ''Z'') = dropWhile is_digit s @ ''Z''"
  by (induction s) (auto simp: char_defs)

lemma parse_frac_append:
  assumes "parse_frac s = (n, r)" shows "parse_frac (s @ ''Z'') = (n, r @ ''Z'')"
proof (cases s)
  case Nil
  with assms show ?thesis by (simp add: parse_frac_def)
next
  case (Cons c u)
  show ?thesis
  proof (cases u)
    case Nil
    with assms Cons show ?thesis by (auto simp: parse_frac_def char_defs)
  next
    case c2: (Cons d v)
    show ?thesis using assms digits_stop [of "d # v"]
      by (auto simp: Cons c2 parse_frac_def frac_val_def split: if_splits simp del: takeWhile.simps dropWhile.simps)
  qed
qed

lemma parse_civil_append:
  assumes "parse_civil s = Some (days, sod, ns, r)"
  shows "parse_civil (s @ ''Z'') = Some (days, sod, ns, r @ ''Z'')"
proof -
  from assms obtain y s1 s2 mo s3 s4 d s5 s6 h s7 s8 mi s9 s10 sec s11 where
    p: "parse_year s = Some (y, s1)" "skip (CHR ''-'') s1 = Some s2" "getnum True s2 = Some (mo, s3)"
      "skip (CHR ''-'') s3 = Some s4" "getnum True s4 = Some (d, s5)" "skip (CHR ''T'') s5 = Some s6"
      "getnum False s6 = Some (h, s7)" "skip (CHR '':'') s7 = Some s8" "getnum True s8 = Some (mi, s9)"
      "skip (CHR '':'') s9 = Some s10" "getnum True s10 = Some (sec, s11)" "parse_frac s11 = (ns, r)"
    and b: "1 \<le> mo" "mo \<le> 12" "0 \<le> h" "h \<le> 23" "0 \<le> mi" "mi \<le> 59" "0 \<le> sec" "sec \<le> 59" "valid_date y mo d"
      "days = days_from_civil y mo d" "sod = h * 3600 + mi * 60 + sec"
    by (auto simp: parse_civil_def guard_range_def bind_eq_Some_conv Let_def split: if_splits prod.splits)
  note q = parse_year_append [OF p(1), of "''Z''"] skip_append [OF p(2), of "''Z''"] getnum_append [OF p(3)]
    skip_append [OF p(4), of "''Z''"] getnum_append [OF p(5)] skip_append [OF p(6), of "''Z''"] getnum_append [OF p(7)]
    skip_append [OF p(8), of "''Z''"] getnum_append [OF p(9)] skip_append [OF p(10), of "''Z''"] getnum_append [OF p(11)]
    parse_frac_append [OF p(12)]
  show ?thesis
    unfolding parse_civil_def guard_range_def using b by (simp add: q)
qed

text \<open>
  An old checkpoint is the wall-clock time of a call taken as UTC. Its migration gives the time
  that the same call has now that it is read in the phone's zone.
\<close>

lemma migrate_wall_clock:
  assumes "parse_in_location loc s = Some t" "parse_rfc3339 (s @ ''Z'') = Some legacy"
  shows "date_in loc (t_unix legacy + t_off legacy) (t_nsec legacy) = t"
proof -
  from assms(1) obtain days sod ns where c: "parse_civil s = Some (days, sod, ns, [])"
    and t: "t = date_in loc (days * 86400 + sod) ns"
    by (auto simp: parse_in_location_def bind_eq_Some_conv split: if_splits)
  from parse_civil_append [OF c] assms(2) have "legacy = \<lparr>t_unix = days * 86400 + sod, t_nsec = ns, t_off = 0\<rparr>"
    by (simp add: parse_rfc3339_def parse_zone_def)
  with t show ?thesis by simp
qed

lemma parse_zoned:
  assumes "parse_in_location loc s = Some t" shows "\<exists>legacy. parse_rfc3339 (s @ ''Z'') = Some legacy \<and> t_off legacy = 0"
proof -
  from assms obtain days sod ns where c: "parse_civil s = Some (days, sod, ns, [])"
    by (auto simp: parse_in_location_def bind_eq_Some_conv split: if_splits)
  from parse_civil_append [OF c] show ?thesis by (simp add: parse_rfc3339_def parse_zone_def)
qed

lemma printable_fixed_zone:
  assumes "parse_in_location (\<lambda>_. off) s = Some t" "off mod 60 = 0" "\<bar>off\<bar> < 90000"
  shows "printable t"
proof -
  from assms(1) obtain days sod ns where c: "parse_civil s = Some (days, sod, ns, [])"
    and t: "t = date_in (\<lambda>_. off) (days * 86400 + sod) ns"
    by (auto simp: parse_in_location_def bind_eq_Some_conv split: if_splits)
  have "t_unix t + t_off t = days * 86400 + sod" "t_off t = off" "t_nsec t = ns"
    by (simp_all add: t date_in_def Let_def)
  with parse_civil_Some [OF c] assms(2,3) show ?thesis by (auto simp: printable_def)
qed

section \<open>An example phone\<close>

definition ex_call :: "string \<Rightarrow> json" where
  "ex_call s = JObj [(''LineNumber'', JStr ''1''), (''StartTime'', JStr s), (''RemotePartyNumber'', JStr ''100''), (''Duration'', JStr ''12 s'')]"

definition ex_calls :: call_logs where
  "ex_calls = \<lparr>Missed = [], Received = [ex_call ''2024-05-01T10:00:00''], Placed = [ex_call ''2024-05-01T10:05:00'']\<rparr>"

definition ex_call_env :: call_log_env where
  "ex_call_env = \<lparr>cl_sha256hex = (\<lambda>s. s), raw_text = (\<lambda>_. ''{}''), LoadLocation = (\<lambda>_. Inr (\<lambda>_. 3600))\<rparr>"

definition ex_call_target :: "unit target" where
  "ex_call_target = ex_target\<lparr>tgt_API := ex_api\<lparr>CallLogs := (\<lambda>w. (Inr ex_calls, w))\<rparr>\<rparr>"

definition ex_call_collector :: call_logs_collector where
  "ex_call_collector = \<lparr>cl_stateDir = ''state'', cl_interval = 1\<rparr>"

definition ex_files :: fs_env where
  "ex_files = \<lparr>fs_err = (\<lambda>_. None), tmp_rand = (\<lambda>_ _. 7)\<rparr>"

abbreviation ex_zone :: location where
  "ex_zone \<equiv> (\<lambda>_. 3600)"

lemma ex_answers: "phone_answers ex_call_env ex_call_target ex_zone () (callLogEntries ex_calls) ()"
proof -
  have "phoneLocation ex_call_env (tgt_API ex_call_target) () = (Inr ex_zone, ())"
    by (simp add: phoneLocation_def ex_call_target_def ex_target_def ex_api_def ex_call_env_def phoneTimezoneParam_def
        trim_space_plain plain_char_def code_def)
  then show ?thesis by (auto simp: phone_answers_def ex_call_target_def ex_target_def ex_api_def)
qed

lemma ex_call_keys:
  "map (entry_key ''d1'' ex_zone) (callLogEntries ex_calls) =
     [Some (callLogKey ''d1'' ''2024-05-01T10:05:00'', \<lparr>t_unix = 1714554300, t_nsec = 0, t_off = 3600\<rparr>),
      Some (callLogKey ''d1'' ''2024-05-01T10:00:00'', \<lparr>t_unix = 1714554000, t_nsec = 0, t_off = 3600\<rparr>)]"
  by code_simp

lemma ex_good_calls: "good_entries ''d1'' ex_zone (callLogEntries ex_calls)"
proof -
  have "good_entry ''d1'' ex_zone e" if "e \<in> set (callLogEntries ex_calls)" for e
  proof -
    from that ex_call_keys obtain k t where k: "entry_key ''d1'' ex_zone e = Some (k, t)" and nz: "\<not> is_zero t"
      by (auto simp: callLogEntries_def ex_calls_def is_zero_def)
    with printable_fixed_zone [OF entry_key_start [OF k]] show ?thesis by (simp add: good_entry_def)
  qed
  then show ?thesis by (simp add: good_entries_def)
qed

lemma ex_call_device: "device_id ex_call_target = ''d1''"
  by (simp add: device_id_def ex_call_target_def ex_target_def ex_device_def)

lemma ex_call_load: "loadCallLogWatermark ex_call_env ex_files ex_call_collector ex_call_target ex_zone Map.empty = Inr fresh_watermark"
  by (simp add: loadCallLogWatermark_def read_doc_def)

lemma ex_healthy_env: "fs_healthy ex_files" "meter_healthy ex_meter" "cl_stateDir ex_call_collector \<noteq> []"
  by (simp_all add: fs_healthy_def ex_files_def meter_healthy_def ex_meter_def ex_call_collector_def)

section \<open>Properties\<close>



text \<open>
  Nothing lost in order. When the entries come in the order of their starts, a run takes, of
  each key it does not know, the first entry that is not before the stored checkpoint.
\<close>

theorem call_logs_in_order_complete:
  assumes "sorted_wrt (starts_before (entry_key dev loc)) es"
  shows "taken_by dev loc wm seen es =
    distinct_by (key_of (entry_key dev loc)) seen (filter (fresh_entry (entry_key dev loc) (call_wm_mark wm)) es)"
  unfolding taken_by_def by (rule taken_sorted [OF assms])

lemma call_logs_in_order_complete_witness:
  "taken_by ''d1'' ex_zone fresh_watermark {} (rev (callLogEntries ex_calls)) =
    distinct_by (key_of (entry_key ''d1'' ex_zone)) {}
      (filter (fresh_entry (entry_key ''d1'' ex_zone) (call_wm_mark fresh_watermark)) (rev (callLogEntries ex_calls)))"
proof (rule call_logs_in_order_complete)
  show "sorted_wrt (starts_before (entry_key ''d1'' ex_zone)) (rev (callLogEntries ex_calls))"
    using ex_call_keys by (simp add: starts_before_def callLogEntries_def ex_calls_def instant_def)
qed

text \<open>
  A call that is lost. The checkpoint a run compares with moves with the entries it takes,
  and placed calls come before received and missed ones. So a call that
  started before the first call of the answer is not logged, in that run or in any later
  one, even when the stored checkpoint did not cover it.
\<close>

theorem older_call_is_lost:
  assumes "entry_key dev loc e = Some (k, t)" "entry_key dev loc e' = Some (k', t')" "instant t' < instant t"
    and "k \<notin> set (clw_Keys wm)" "mark_fresh (call_wm_mark wm) (instant t)"
    and "list_all (good_entries dev loc) ((e # es) # batches)"
  shows "e' \<notin> set (call_history dev loc wm ((e # es) # batches))"
proof -
  let ?key = "entry_key dev loc"
  let ?sel = "taken_by dev loc wm (set (clw_Keys wm)) (e # es)"
  have sel: "?sel = e # taken ?key (entry_mark ?key e (call_wm_mark wm)) (insert k (set (clw_Keys wm))) es"
    using assms(1,4,5) by (simp add: taken_by_def taken_Cons fresh_entry_def key_of_def)
  have st: "stale_entry ?key (entry_mark ?key e (call_wm_mark wm)) e'" using taken_stale [OF assms(1-3)] .
  have "e' \<noteq> e" using assms(1-3) by auto
  then have "e' \<notin> set ?sel" using stale_not_taken [OF st] by (auto simp: sel)
  moreover have "stale_entry ?key (call_wm_mark (next_watermark dev loc wm (e # es))) e'"
    using st stale_entry_fold [OF st] next_watermark_mark [of dev loc "e # es" wm] assms(6) by (simp add: sel)
  then have "e' \<notin> set (call_history dev loc (next_watermark dev loc wm (e # es)) batches)"
    using assms(6) by (intro stale_not_in_history) auto
  ultimately show ?thesis by simp
qed

lemma older_call_is_lost_witness:
  "\<lparr>direction = ''received'', raw = ex_call ''2024-05-01T10:00:00''\<rparr> \<in> set (callLogEntries ex_calls) \<and>
   \<lparr>direction = ''received'', raw = ex_call ''2024-05-01T10:00:00''\<rparr> \<notin>
     set (call_history ''d1'' ex_zone fresh_watermark [callLogEntries ex_calls, callLogEntries ex_calls])"
proof -
  have e: "callLogEntries ex_calls = \<lparr>direction = ''placed'', raw = ex_call ''2024-05-01T10:05:00''\<rparr> #
      [\<lparr>direction = ''received'', raw = ex_call ''2024-05-01T10:00:00''\<rparr>]"
    by (simp add: callLogEntries_def ex_calls_def)
  have k: "entry_key ''d1'' ex_zone \<lparr>direction = ''placed'', raw = ex_call ''2024-05-01T10:05:00''\<rparr> =
      Some (callLogKey ''d1'' ''2024-05-01T10:05:00'', \<lparr>t_unix = 1714554300, t_nsec = 0, t_off = 3600\<rparr>)"
    "entry_key ''d1'' ex_zone \<lparr>direction = ''received'', raw = ex_call ''2024-05-01T10:00:00''\<rparr> =
      Some (callLogKey ''d1'' ''2024-05-01T10:00:00'', \<lparr>t_unix = 1714554000, t_nsec = 0, t_off = 3600\<rparr>)"
    using ex_call_keys unfolding e by simp_all
  have g: "list_all (good_entries ''d1'' ex_zone) [callLogEntries ex_calls, callLogEntries ex_calls]"
    using ex_good_calls by simp
  show ?thesis
    using older_call_is_lost [OF k _ _ _ g [unfolded e], of fresh_watermark] unfolding e
    by (simp add: fresh_watermark_def instant_def mark_from_def mark_fresh_def)
qed

text \<open>
  Migration. A checkpoint written before the version was recorded held the wall-clock time of a
  call as if it were UTC; migrating it gives the checkpoint of the same call read in the
  phone's zone, with its keys kept.
\<close>

theorem migrate_call_log_watermark:
  assumes "parse_in_location loc s = Some t" "clw_StartTime wm = s @ ''Z''"
  shows "migrateLegacyCallLogWatermark loc wm =
    \<lparr>Version = 1, clw_StartTime = format_rfc3339 t, clw_Keys = clw_Keys wm\<rparr>"
  using parse_zoned [OF assms(1)] migrate_wall_clock [OF assms(1)] assms(2)
  by (cases wm) (auto simp: migrateLegacyCallLogWatermark_def callLogWatermarkVersion_def)

lemma migrate_call_log_watermark_witness:
  "migrateLegacyCallLogWatermark ex_zone \<lparr>Version = 0, clw_StartTime = ''2024-05-01T10:00:00Z'', clw_Keys = [''k'']\<rparr> =
    \<lparr>Version = 1, clw_StartTime = ''2024-05-01T10:00:00+01:00'', clw_Keys = [''k'']\<rparr>"
proof -
  have p: "parse_in_location ex_zone ''2024-05-01T10:00:00'' = Some \<lparr>t_unix = 1714554000, t_nsec = 0, t_off = 3600\<rparr>"
    by code_simp
  have f: "format_rfc3339 \<lparr>t_unix = 1714554000, t_nsec = 0, t_off = 3600\<rparr> = ''2024-05-01T10:00:00+01:00''"
    by code_simp
  show ?thesis
    using migrate_call_log_watermark [OF p, of "\<lparr>Version = 0, clw_StartTime = ''2024-05-01T10:00:00Z'', clw_Keys = [''k'']\<rparr>"]
    by (simp add: f)
qed

end
