(* ===== verification/Registration.thy ===== *)
theory Registration
  imports Scheduler LensCollectors LensCDR PhoneCallLogs
begin

text \<open>
  The registration of the collectors: \<^verbatim>\<open>Deps\<close> of \<^verbatim>\<open>internal/collector/collector.go\<close>, the \<^verbatim>\<open>Register\<close> functions of the four
  collector packages and \<^verbatim>\<open>registerAll\<close> of \<^verbatim>\<open>cmd/polylens2otel/collectors_import.go\<close>; the collector of
  \<^verbatim>\<open>internal/collectors/selfobs\<close> and \<^verbatim>\<open>internal/version\<close>.

  The collectors share one world: the Lens client with its network, the network of the phones, and the files.
  A service is what the map \<^verbatim>\<open>Services\<close> holds under a name; a type assertion on it is a case distinction.
\<close>

section \<open>The shared world\<close>

record ('l, 'p) world =
  wd_lens :: "'l lens_st"
  wd_phone :: 'p
  wd_files :: fs

text \<open>The values the linker sets.\<close>

record version =
  ver_Version :: string
  ver_Commit :: string
  ver_BuildDate :: string

definition dev_version :: version where
  "dev_version = \<lparr>ver_Version = ''dev'', ver_Commit = ''unknown'', ver_BuildDate = ''unknown''\<rparr>"

definition version_String :: "version \<Rightarrow> string" where
  "version_String v = ver_Version v @ '' (commit='' @ ver_Commit v @ '', built='' @ ver_BuildDate v @ '')''"

record ('l, 'p) prog_env =
  pe_meter :: meter
  pe_now :: "('l, 'p) world \<Rightarrow> gotime \<times> ('l, 'p) world"
  pe_order :: "string list \<Rightarrow> string list"
  pe_cdr :: cdr_env
  pe_calls :: call_log_env
  pe_files :: fs_env
  pe_version :: version

definition on_lens :: "('l lens_st \<Rightarrow> 'a \<times> 'l lens_st) \<Rightarrow> ('l, 'p) world \<Rightarrow> 'a \<times> ('l, 'p) world" where
  "on_lens f w = (let (a, l) = f (wd_lens w) in (a, w\<lparr>wd_lens := l\<rparr>))"

definition on_files :: "('l, 'p) world call_log_state fallible \<Rightarrow> ('l, 'p) world phone_run \<Rightarrow> (outcome \<times> ('l, 'p) world phone_run) option" where
  "on_files f s =
     (let (r, tel, w, fs) = f (fst s, snd s, wd_files (snd s)) in Some (Finished r, (tel, w\<lparr>wd_files := fs\<rparr>)))"

definition as_outcome :: "(goerr option \<times> 's) option \<Rightarrow> (outcome \<times> 's) option" where
  "as_outcome r = (case r of None \<Rightarrow> None | Some (e, s) \<Rightarrow> Some (Finished e, s))"

text \<open>The Lens client as the interfaces the collectors take it for.\<close>

definition world_lens_api :: "'l lens_env \<Rightarrow> lens_config \<Rightarrow> ('l, 'p) world lens_api" where
  "world_lens_api env cfg =
     \<lparr>api_Devices = (\<lambda>t w. case Devices env cfg t (wd_lens w) of None \<Rightarrow> None | Some (r, l) \<Rightarrow> Some (r, w\<lparr>wd_lens := l\<rparr>)),
      api_ActiveCalls = (\<lambda>d. on_lens (ActiveCalls env cfg d)),
      api_LatestFirmware = (\<lambda>p. on_lens (LatestFirmware env cfg p)),
      api_Tenants = Some (on_lens (Tenants env cfg))\<rparr>"

definition world_query :: "'l lens_env \<Rightarrow> lens_config \<Rightarrow> ('l, 'p) world query_client" where
  "world_query env cfg document variables = on_lens (lens_Query env cfg document variables)"

section \<open>Dependencies\<close>

datatype ('l, 'p) service = LensService "'l lens_env" lens_config | TargetsService "('l, 'p) world target list"

record ('l, 'p) deps =
  dp_Config :: "config option"
  dp_Registry :: "('l, 'p) world registry option"
  dp_Services :: "(string \<rightharpoonup> ('l, 'p) service) option"

definition Service :: "('l, 'p) deps \<Rightarrow> string \<Rightarrow> ('l, 'p) service option" where
  "Service d name = (case dp_Services d of None \<Rightarrow> None | Some m \<Rightarrow> m name)"

definition lens_service :: "('l, 'p) service option \<Rightarrow> ('l lens_env \<times> lens_config) option" where
  "lens_service s = (case s of Some (LensService env cfg) \<Rightarrow> Some (env, cfg) | _ \<Rightarrow> None)"

definition targets_service :: "('l, 'p) service option \<Rightarrow> ('l, 'p) world target list option" where
  "targets_service s = (case s of Some (TargetsService ts) \<Rightarrow> Some ts | _ \<Rightarrow> None)"

section \<open>The collectors\<close>

text \<open>The methods of the base collector; the three Lens collectors, in the order of their registration.\<close>

definition base_entry :: "base_collector \<Rightarrow> (base_collector \<Rightarrow> emitter \<Rightarrow> 'w phone_run \<Rightarrow> (goerr option \<times> 'w phone_run) option) \<Rightarrow> 'w collector" where
  "base_entry b f = \<lparr>ID = bc_id b, Interval = bc_interval b, Collect = (\<lambda>em s. as_outcome (f b em s))\<rparr>"

definition lens_entries :: "('l, 'p) prog_env \<Rightarrow> 'l lens_env \<Rightarrow> lens_config \<Rightarrow> config option \<Rightarrow> ('l, 'p) world collector list" where
  "lens_entries pe env lc c =
     (let api = Some (world_lens_api env lc) in
      map2 base_entry (lens_collectors c)
        [devices_collect (pe_meter pe) (pe_now pe) api, active_calls_collect (pe_meter pe) (pe_order pe) api, firmware_collect (pe_meter pe) api])"

definition cdr_New :: "string \<Rightarrow> string \<Rightarrow> cdr_collector" where
  "cdr_New dir tid = \<lparr>stateDir = dir, tenantID = tid, interval = hour\<rparr>"

definition cdr_methods :: "('l, 'p) prog_env \<Rightarrow> ('l, 'p) world query_client \<Rightarrow> cdr_collector \<Rightarrow> ('l, 'p) world collector" where
  "cdr_methods pe q c =
     \<lparr>ID = collectorID, Interval = interval c,
      Collect = (\<lambda>em s.
        case collect (pe_cdr pe) (pe_files pe) (Some q) (pe_meter pe) c em (fst s) (snd s) (wd_files (snd s)) of
          None \<Rightarrow> None
        | Some (e, tel, w, f) \<Rightarrow> Some (Finished e, (tel, w\<lparr>wd_files := f\<rparr>)))\<rparr>"

definition cdr_entry :: "('l, 'p) prog_env \<Rightarrow> 'l lens_env \<Rightarrow> lens_config \<Rightarrow> config \<Rightarrow> string \<Rightarrow> ('l, 'p) world collector" where
  "cdr_entry pe env lc cfg tid =
     (let c = (cdr_New (cfg_StateDir cfg) tid)\<lparr>interval := iv_LensCDR (cfg_Collectors cfg)\<rparr> in
      cdr_methods pe (world_query env lc) c)"

text \<open>The constructors of the phone collectors.\<close>

definition NewStatus :: "meter \<Rightarrow> 'w target list \<Rightarrow> 'w collector" where
  "NewStatus m ts = \<lparr>ID = StatusID, Interval = minute, Collect = (\<lambda>em s. as_outcome (Some (status_collect m em ts s)))\<rparr>"

definition NewLines :: "meter \<Rightarrow> 'w target list \<Rightarrow> 'w collector" where
  "NewLines m ts = \<lparr>ID = LinesID, Interval = minute, Collect = (\<lambda>em s. as_outcome (Some (lines_collect m em ts s)))\<rparr>"

definition NewConfig :: "meter \<Rightarrow> 'w target list \<Rightarrow> string list \<Rightarrow> 'w collector" where
  "NewConfig m ts params = \<lparr>ID = ConfigID, Interval = 5 * minute, Collect = (\<lambda>em s. as_outcome (Some (config_collect m em params ts s)))\<rparr>"

definition call_logs_methods :: "('l, 'p) prog_env \<Rightarrow> call_logs_collector \<Rightarrow> ('l, 'p) world target list \<Rightarrow> ('l, 'p) world collector" where
  "call_logs_methods pe c ts =
     \<lparr>ID = callLogsID, Interval = cl_interval c,
      Collect = (\<lambda>em. on_files (call_logs_collect (pe_calls pe) (pe_files pe) (pe_meter pe) c em ts))\<rparr>"

definition NewNetworkInfo :: "meter \<Rightarrow> 'w target list \<Rightarrow> 'w collector" where
  "NewNetworkInfo m ts =
     \<lparr>ID = NetworkInfoID, Interval = network_info_interval ts, Collect = (\<lambda>em s. as_outcome (Some (network_info_collect m em ts s)))\<rparr>"

definition phone_entries :: "('l, 'p) prog_env \<Rightarrow> config \<Rightarrow> ('l, 'p) world target list \<Rightarrow> ('l, 'p) world collector list" where
  "phone_entries pe cfg ts =
     [NewStatus (pe_meter pe) ts, NewLines (pe_meter pe) ts, NewConfig (pe_meter pe) ts (phone_ConfigParams (cfg_Phone cfg)),
      call_logs_methods pe (NewCallLogs ts) ts, NewNetworkInfo (pe_meter pe) ts]"

lemmas lens_entry_defs = lens_entries_def base_entry_def
lemmas cdr_entry_defs = cdr_entry_def cdr_methods_def
lemmas phone_entry_defs = phone_entries_def NewStatus_def NewLines_def NewConfig_def call_logs_methods_def NewNetworkInfo_def

definition selfobs_collectorID :: string where
  "selfobs_collectorID = ''selfobs.internal''"

definition build_info_collect :: "meter \<Rightarrow> version \<Rightarrow> emitter \<Rightarrow> 'w phone_run fallible" where
  "build_info_collect m v em =
     emitGauge m em MetricBuildInfo (FNum 1)
       [Attr AttrVersion (ver_Version v), Attr AttrCommit (ver_Commit v), Attr AttrDate (ver_BuildDate v)]"

definition selfobs_entry :: "('l, 'p) prog_env \<Rightarrow> config option \<Rightarrow> ('l, 'p) world collector" where
  "selfobs_entry pe c =
     \<lparr>ID = selfobs_collectorID,
      Interval = (case c of Some cfg \<Rightarrow> if iv_SelfObs (cfg_Collectors cfg) > 0 then iv_SelfObs (cfg_Collectors cfg) else minute | None \<Rightarrow> minute),
      Collect = (\<lambda>em s. as_outcome (Some (build_info_collect (pe_meter pe) (pe_version pe) em s)))\<rparr>"

section \<open>Registration\<close>

text \<open>\<^verbatim>\<open>Register\<close> mutates the shared registry; here the dependencies with the registry after it are returned.\<close>

definition register_entries :: "('l, 'p) world collector list \<Rightarrow> ('l, 'p) deps \<Rightarrow> ('l, 'p) deps" where
  "register_entries cs d = d\<lparr>dp_Registry := (case dp_Registry d of None \<Rightarrow> None | Some r \<Rightarrow> Some (fold (\<lambda>c. Register (Some c)) cs r))\<rparr>"

definition lens_Register :: "('l, 'p) prog_env \<Rightarrow> ('l, 'p) deps \<Rightarrow> ('l, 'p) deps" where
  "lens_Register pe d =
     (if dp_Registry d = None then d
      else (case lens_service (Service d lens_serviceName) of
          None \<Rightarrow> d
        | Some (env, lc) \<Rightarrow> register_entries (lens_entries pe env lc (dp_Config d)) d))"

definition lenscdr_Register :: "('l, 'p) prog_env \<Rightarrow> ('l, 'p) deps \<Rightarrow> ('l, 'p) deps" where
  "lenscdr_Register pe d =
     (case dp_Config d of
        None \<Rightarrow> d
      | Some cfg \<Rightarrow>
          if dp_Registry d = None then d
          else (case lens_service (Service d ''lensclient'') of
              None \<Rightarrow> d
            | Some (env, lc) \<Rightarrow> register_entries (map (cdr_entry pe env lc cfg) (lens_Tenants (cfg_Lens cfg))) d))"

definition ServiceTargets :: string where
  "ServiceTargets = ''phone.targets''"

definition phone_Register :: "('l, 'p) prog_env \<Rightarrow> ('l, 'p) deps \<Rightarrow> ('l, 'p) deps" where
  "phone_Register pe d =
     (case dp_Config d of
        None \<Rightarrow> d
      | Some cfg \<Rightarrow>
          if \<not> phone_Enabled (cfg_Phone cfg) \<or> dp_Registry d = None then d
          else (case targets_service (Service d ServiceTargets) of
              None \<Rightarrow> d
            | Some ts \<Rightarrow> if ts = [] then d else register_entries (phone_entries pe cfg ts) d))"

definition selfobs_Register :: "('l, 'p) prog_env \<Rightarrow> ('l, 'p) deps \<Rightarrow> ('l, 'p) deps" where
  "selfobs_Register pe d =
     (if dp_Registry d = None then d else register_entries [selfobs_entry pe (dp_Config d)] d)"

definition registerAll :: "('l, 'p) prog_env \<Rightarrow> ('l, 'p) deps \<Rightarrow> ('l, 'p) deps" where
  "registerAll pe d = selfobs_Register pe (phone_Register pe (lenscdr_Register pe (lens_Register pe d)))"

section \<open>What is registered\<close>

lemma fold_Register: "fold (\<lambda>c. Register (Some c)) cs r = r @ cs"
  by (induction cs arbitrary: r) (auto simp: Register_def)

lemma register_entries_simps [simp]:
  "dp_Config (register_entries cs d) = dp_Config d"
  "dp_Services (register_entries cs d) = dp_Services d"
  "Service (register_entries cs d) = Service d"
  "dp_Registry d = Some r \<Longrightarrow> dp_Registry (register_entries cs d) = Some (r @ cs)"
  by (auto simp: register_entries_def Service_def fold_Register split: option.splits)

text \<open>The collectors the program starts with: \<open>lens\<close> is the Lens client, if there are credentials.\<close>

definition main_services :: "('l lens_env \<times> lens_config) option \<Rightarrow> ('l, 'p) world target list \<Rightarrow> string \<rightharpoonup> ('l, 'p) service" where
  "main_services lens ts =
     (case lens of
        None \<Rightarrow> [ServiceTargets \<mapsto> TargetsService ts]
      | Some (env, lc) \<Rightarrow> [ServiceTargets \<mapsto> TargetsService ts, ''lens'' \<mapsto> LensService env lc, ''lensclient'' \<mapsto> LensService env lc])"

definition main_deps :: "config \<Rightarrow> ('l lens_env \<times> lens_config) option \<Rightarrow> ('l, 'p) world target list \<Rightarrow> ('l, 'p) deps" where
  "main_deps cfg lens ts = \<lparr>dp_Config = Some cfg, dp_Registry = Some NewRegistry, dp_Services = Some (main_services lens ts)\<rparr>"

definition main_registry :: "('l, 'p) prog_env \<Rightarrow> config \<Rightarrow> ('l lens_env \<times> lens_config) option \<Rightarrow> ('l, 'p) world target list \<Rightarrow>
    ('l, 'p) world collector list" where
  "main_registry pe cfg lens ts = (case dp_Registry (registerAll pe (main_deps cfg lens ts)) of None \<Rightarrow> [] | Some r \<Rightarrow> Entries r)"

lemma main_Service:
  "lens_service (Service (main_deps cfg lens ts) ''lens'') = lens"
  "lens_service (Service (main_deps cfg lens ts) ''lensclient'') = lens"
  "targets_service (Service (main_deps cfg lens ts) ServiceTargets) = Some ts"
  "dp_Registry (main_deps cfg lens ts) = Some []"
  "dp_Config (main_deps cfg lens ts) = Some cfg"
  by (auto simp: main_deps_def NewRegistry_def Service_def main_services_def lens_service_def targets_service_def ServiceTargets_def split: option.splits)

lemma main_registry_eq:
  "main_registry pe cfg lens ts =
     (case lens of None \<Rightarrow> [] | Some (env, lc) \<Rightarrow> lens_entries pe env lc (Some cfg) @ map (cdr_entry pe env lc cfg) (lens_Tenants (cfg_Lens cfg))) @
     (if phone_Enabled (cfg_Phone cfg) \<and> ts \<noteq> [] then phone_entries pe cfg ts else []) @ [selfobs_entry pe (Some cfg)]"
  unfolding main_registry_def registerAll_def
  by (cases lens; cases "ts = []"; cases "phone_Enabled (cfg_Phone cfg)")
    (auto simp: lens_Register_def lenscdr_Register_def phone_Register_def selfobs_Register_def main_Service lens_serviceName_def Entries_def)

section \<open>What every collector keeps\<close>

text \<open>
  A relation between a part of the state before and after a step, which composed steps keep when each of them does. The
  part is the telemetry below, and the world of the collectors where their files are concerned.
\<close>

locale step_relation =
  fixes R :: "'t \<Rightarrow> 't \<Rightarrow> bool"
  assumes R_refl: "R t t" and R_trans: "R t t' \<Longrightarrow> R t' t'' \<Longrightarrow> R t t''"
begin

definition keeps :: "('a \<Rightarrow> 't) \<Rightarrow> 'a fallible \<Rightarrow> bool" where
  "keeps tel f \<longleftrightarrow> (\<forall>s. R (tel s) (tel (snd (f s))))"

lemma keepsD: "keeps tel f \<Longrightarrow> tel s = t \<Longrightarrow> R t (tel (snd (f s)))"
  by (auto simp: keeps_def)

lemma keeps_and_then: "keeps tel f \<Longrightarrow> keeps tel g \<Longrightarrow> keeps tel (and_then f g)"
  unfolding keeps_def and_then_def
  by (auto split: prod.splits option.splits) (metis R_trans snd_conv)+

lemma keeps_for_each_in: "(\<And>x. x \<in> set xs \<Longrightarrow> keeps tel (f x)) \<Longrightarrow> keeps tel (for_each f xs)"
proof (induction xs)
  case Nil
  then show ?case by (simp add: keeps_def R_refl)
next
  case (Cons x xs)
  moreover have "for_each f (x # xs) = and_then (f x) (for_each f xs)" by (simp add: fun_eq_iff)
  ultimately show ?case by (simp add: keeps_and_then)
qed

lemma keeps_for_each: "(\<And>x. keeps tel (f x)) \<Longrightarrow> keeps tel (for_each f xs)"
  by (rule keeps_for_each_in)

lemma keeps_if: "keeps tel f \<Longrightarrow> keeps tel (\<lambda>s. if b then (None, s) else f s)"
  by (simp add: keeps_def R_refl)

end

text \<open>
  What the operations of the emitters keep, for the emitters and the events it is asked of, as long as the gauge is not the
  scheduler's own availability.
\<close>

locale emission = step_relation R for R :: "instruments \<Rightarrow> instruments \<Rightarrow> bool" +
  fixes ok :: "emitter \<Rightarrow> bool" and ev :: "string \<Rightarrow> bool"
  assumes R_gauge: "ok e \<Longrightarrow> n \<noteq> MetricCollectorAvailability \<Longrightarrow> R t (snd (gauge m e n v attrs t))"
    and R_counter: "ok e \<Longrightarrow> R t (snd (counter m e n v attrs t))"
    and R_log: "ok e \<Longrightarrow> ev event \<Longrightarrow> R t (snd (log_event e event body ts attrs t))"
begin

lemma keeps_emitGauge: "ok em \<Longrightarrow> n \<noteq> MetricCollectorAvailability \<Longrightarrow> keeps fst (emitGauge m em n v attrs)"
  by (auto simp: keeps_def emitGauge_def R_gauge split: prod.splits) (metis R_gauge snd_conv)

lemma keeps_emitCounter: "ok em \<Longrightarrow> keeps fst (emitCounter m em n v attrs)"
  by (auto simp: keeps_def emitCounter_def split: prod.splits) (metis R_counter snd_conv)

subsection \<open>Call detail records\<close>

lemma keeps_process_edge: "ok em \<Longrightarrow> ev EventLensCDR \<Longrightarrow> keeps run_tel (process_edge env m em ck row)"
proof -
  assume em: "ok em" and ev: "ev EventLensCDR"
  have c: "R t (snd (counter m em n v attrs t'))" if "R t t'" for t n v attrs t'
    using R_trans [OF that R_counter [OF em]] .
  have l: "R t t''" if "log_event em EventLensCDR b ts attrs t' = (r, t'')" "R t t'" for t b ts attrs t' r t''
    using R_trans [OF that(2) R_log [OF em ev, of t' b ts attrs]] that(1) by simp
  show ?thesis
    unfolding keeps_def process_edge_def Let_def
    by (auto split: prod.splits option.splits simp: R_refl intro!: c dest!: l [OF _ c [OF R_refl]])
qed

lemma keeps_process_edges: "ok em \<Longrightarrow> ev EventLensCDR \<Longrightarrow> process_edges env m em ck rows st = (r, st') \<Longrightarrow> R (run_tel st) (run_tel st')"
proof (induction rows arbitrary: st)
  case (Cons row rows)
  obtain e st1 where e: "process_edge env m em ck row st = (e, st1)" by (rule prod.exhaust)
  with keepsD [OF keeps_process_edge [OF Cons.prems(1,2), of env m ck row] refl, of st] have k: "R (run_tel st) (run_tel st1)" by simp
  show ?case
  proof (cases e)
    case None
    with Cons.prems e have "process_edges env m em ck rows st1 = (r, st')" by simp
    from R_trans [OF k Cons.IH [OF Cons.prems(1,2) this]] show ?thesis .
  qed (use Cons.prems e k in simp)
qed (simp add: R_refl)

lemma keeps_cdr_step:
  assumes "ok em" "ev EventLensCDR"
  shows "cdr_step env q m em tid ck after st = Inl (r, st') \<Longrightarrow> R (run_tel st) (run_tel st')"
    and "cdr_step env q m em tid ck after st = Inr (after', st') \<Longrightarrow> R (run_tel st) (run_tel st')"
proof -
  have p: "R (run_tel st) (run_tel st1)" if "process_edges env m em ck rows (st\<lparr>run_net := w\<rparr>) = (x, st1)" for rows w x st1
    using keeps_process_edges [OF assms that] by simp
  show "cdr_step env q m em tid ck after st = Inl (r, st') \<Longrightarrow> R (run_tel st) (run_tel st')"
    by (auto simp: cdr_step_def R_refl split: prod.splits sum.splits option.splits if_splits dest: p)
  show "cdr_step env q m em tid ck after st = Inr (after', st') \<Longrightarrow> R (run_tel st) (run_tel st')"
    by (auto simp: cdr_step_def split: prod.splits sum.splits option.splits if_splits dest: p)
qed

lemma keeps_cdr_run:
  assumes "ok em" "ev EventLensCDR"
  shows "run_steps (cdr_step env q m em tid ck) n after st = Some (r, st') \<Longrightarrow> R (run_tel st) (run_tel st')"
proof (induction n arbitrary: after st)
  case (Suc n)
  show ?case
  proof (cases "cdr_step env q m em tid ck after st")
    case (Inl p)
    with Suc.prems keeps_cdr_step(1) [OF assms] show ?thesis by (cases p) simp
  next
    case (Inr p)
    obtain a st1 where p: "p = (a, st1)" by (rule prod.exhaust)
    with Suc.prems Inr have "run_steps (cdr_step env q m em tid ck) n a st1 = Some (r, st')" by simp
    from R_trans [OF keeps_cdr_step(2) [OF assms Inr [unfolded p]] Suc.IH [OF this]] show ?thesis .
  qed
qed simp

lemma keeps_cdr:
  assumes "ok (with_tenant (tenantID c) em)" "ev EventLensCDR" "collect env fse client m c em tel w f = Some (r, tel', w', f')"
  shows "R tel tel'"
proof -
  let ?em = "with_tenant (tenantID c) em"
  have l: "R tel (run_tel st)" if "cdr_loop env q m ?em (tenantID c) wm None \<lparr>run_wm = wm, run_seen = set (Keys wm), run_tel = tel, run_net = w\<rparr> = Some (x, st)"
    for q wm x st
    using cdr_loop_finite [OF that] keeps_cdr_run [OF assms(1,2)] by fastforce
  have c: "R tel (snd (counter m ?em n v attrs t))" if "R tel t" for n v attrs t
    using R_trans [OF that R_counter [OF assms(1)]] .
  show ?thesis
    using assms(3) unfolding collect_def Let_def
    by (auto simp: R_refl split: option.splits sum.splits prod.splits dest: l intro!: c)
qed

lemma cdr_entry_keeps:
  assumes "ok (with_tenant tid em)" "ev EventLensCDR" "Collect (cdr_entry pe env lc cfg tid) em s = Some (res, s')"
  shows "R (fst s) (fst s')"
  using assms(3) keeps_cdr [OF _ assms(2), of "(cdr_New (cfg_StateDir cfg) tid)\<lparr>interval := iv_LensCDR (cfg_Collectors cfg)\<rparr>" em] assms(1)
  by (auto simp: cdr_entry_defs cdr_New_def Let_def split: option.splits)

end

text \<open>The emitters in question are closed under the ways the collectors derive emitters: every registered collector keeps the relation.\<close>

locale signal_relation = emission +
  assumes ok_tenant: "ok e \<Longrightarrow> ok (with_tenant tid e)" and ok_device: "ok e \<Longrightarrow> ok (with_device d e)"
begin

lemma ok_targetEmitter: "ok em \<Longrightarrow> ok (targetEmitter em tgt)"
  by (simp add: targetEmitter_def ok_tenant ok_device)

lemma ok_entry: "ok em \<Longrightarrow> ok (entry_emitter em entry)"
  by (simp add: entry_emitter_def withDevice_def ok_tenant ok_device)

lemmas keeps_intros = keeps_and_then keeps_for_each keeps_if keeps_emitGauge keeps_emitCounter ok_targetEmitter ok_entry

subsection \<open>Phone collectors\<close>

lemma keeps_when_ok: "(\<And>tgt. keeps fst (f tgt)) \<Longrightarrow> keeps fst (when_ok f tgt)"
  by (auto simp: keeps_def [of fst "when_ok f tgt"] when_ok_def Let_def R_refl split: prod.splits intro: keepsD)

lemma keeps_status: "ok em \<Longrightarrow> keeps fst (status_collect m em ts)"
proof -
  assume "ok em"
  then have a: "keeps fst (status_stats m em tgt)" for tgt :: "'b target"
    unfolding keeps_def [of fst "status_stats m em tgt"] status_stats_def Let_def
    by (auto split: prod.splits sum.splits simp: R_refl intro!: keepsD keeps_intros)
  with \<open>ok em\<close> have "keeps fst (status_target m em tgt)" for tgt :: "'b target"
    unfolding keeps_def [of fst "status_target m em tgt"] status_target_def Let_def state_gauge_def
    by (auto split: prod.splits simp: R_refl intro!: keepsD keeps_intros)
  then show ?thesis unfolding status_collect_def by (rule keeps_for_each)
qed

lemma keeps_lines: "ok em \<Longrightarrow> keeps fst (lines_collect m em ts)"
proof -
  assume "ok em"
  then have "keeps fst (lines_target m em tgt)" for tgt :: "'b target"
    unfolding keeps_def [of fst "lines_target m em tgt"] lines_target_def line_gauge_def Let_def
    by (auto split: prod.splits sum.splits simp: R_refl intro!: keepsD keeps_intros)
  then show ?thesis unfolding lines_collect_def by (intro keeps_for_each keeps_when_ok)
qed

lemma keeps_config: "ok em \<Longrightarrow> keeps fst (config_collect m em names ts)"
proof -
  assume "ok em"
  then have a: "keeps fst (param_gauge m em tgt params name)" for tgt :: "'b target" and params name
    unfolding keeps_def [of fst "param_gauge m em tgt params name"] param_gauge_def
    by (auto split: option.splits simp: R_refl intro!: keepsD keeps_intros)
  then have "keeps fst (config_target m em names tgt)" for tgt :: "'b target"
    unfolding keeps_def [of fst "config_target m em names tgt"] config_target_def
    by (auto split: prod.splits sum.splits simp: R_refl intro!: keepsD keeps_for_each)
  then show ?thesis unfolding config_collect_def by (intro keeps_for_each keeps_when_ok)
qed

lemma keeps_network_info: "ok em \<Longrightarrow> keeps fst (network_info_collect m em ts)"
proof -
  assume "ok em"
  then have "keeps fst (network_info_target m em tgt)" for tgt :: "'b target"
    unfolding keeps_def [of fst "network_info_target m em tgt"] network_info_target_def Let_def
    by (auto split: prod.splits sum.splits simp: R_refl intro!: keepsD keeps_intros)
  then show ?thesis unfolding network_info_collect_def by (intro keeps_for_each keeps_when_ok)
qed

subsection \<open>Call logs\<close>

lemma keeps_process_entry: "ok de \<Longrightarrow> ev LogPhoneCallRecord \<Longrightarrow> keeps cl_tel (process_entry env de loc dev entry)"
  unfolding keeps_def process_entry_def Let_def
  by (auto split: prod.splits option.splits simp: R_refl) (metis R_log snd_conv)+

lemma keeps_call_counter: "ok de \<Longrightarrow> keeps cl_tel (call_counter m de dev dir)"
  unfolding keeps_def call_counter_def
  by (auto split: prod.splits option.splits simp: R_refl) (metis R_counter snd_conv)+

lemma keeps_call_logs: "ok em \<Longrightarrow> ev LogPhoneCallRecord \<Longrightarrow> keeps fst (call_logs_collect env fse m c em ts)"
proof -
  assume em: "ok em" and ev: "ev LogPhoneCallRecord"
  let ?f = "\<lambda>de loc dev es. and_then (for_each (process_entry env de loc dev) es) (for_each (call_counter m de dev) [''placed'', ''received'', ''missed''])"
  have b: "R (cl_tel st) (cl_tel st')" if "?f (targetEmitter em tgt) loc dev es st = (r, st')" for tgt :: "'b target" and loc dev es st r st'
  proof -
    have "keeps cl_tel (?f (targetEmitter em tgt) loc dev es)"
      by (intro keeps_and_then keeps_for_each keeps_process_entry keeps_call_counter ok_targetEmitter em ev)
    from keepsD [OF this refl, of st] that show ?thesis by simp
  qed
  have "keeps fst (call_logs_target env fse m c em tgt)" for tgt :: "'b target"
    unfolding keeps_def call_logs_target_def Let_def
    by (auto split: prod.splits option.splits sum.splits simp: R_refl dest!: b)
  then show ?thesis unfolding call_logs_collect_def by (rule keeps_for_each)
qed

subsection \<open>Lens collectors\<close>

lemma keeps_for_devices:
  assumes "ok em" "\<And>entry. keeps fst (body entry)" "for_devices m client c em body s = Some (r, s')"
  shows "R (fst s) (fst s')"
proof -
  have t: "R (fst s) (fst s1)" if "too_many m em n mx (fst s, w) = (e, s1)" for n mx w e s1
  proof (rule too_many_emits [OF that])
    fix r
    assume "emitGauge m em MetricAPIUnexpected (FNum 1) [Attr AttrSource ''lens''] (fst s, w) = (r, s1)"
    with keepsD [OF keeps_emitGauge [OF assms(1), of MetricAPIUnexpected], of "(fst s, w)" "fst s" m "FNum 1" "[Attr AttrSource ''lens'']"]
    show ?thesis by simp
  qed
  have b: "R (fst s) (fst s1)" if "base_devices m client c em s = Some (x, s1)" for x s1
    using that by (auto simp: base_devices_def Let_def R_refl split: option.splits prod.splits sum.splits if_splits dest: t)
  obtain x s1 where x: "base_devices m client c em s = Some (x, s1)"
    using assms(3) by (cases "base_devices m client c em s") (auto simp: for_devices_def)
  show ?thesis
  proof (cases x)
    case (Inl e)
    with b [OF x] assms(3) x show ?thesis by (simp add: for_devices_def)
  next
    case (Inr ds)
    with assms(3) x have "for_each body ds s1 = (r, s')" by (simp add: for_devices_def)
    with keepsD [OF keeps_for_each [where f = body and xs = ds, OF assms(2)] refl, of s1] R_trans [OF b [OF x]] show ?thesis by simp
  qed
qed

lemma keeps_emitAge: "ok em \<Longrightarrow> n \<noteq> MetricCollectorAvailability \<Longrightarrow> keeps fst (emitAge m now em n ts)"
  unfolding keeps_def [of fst "emitAge m now em n ts"] emitAge_def Let_def
  by (auto split: option.splits prod.splits simp: R_refl intro!: keepsD keeps_emitGauge)

lemma keeps_devices:
  assumes "ok em" "devices_collect m now client c em s = Some (r, s')"
  shows "R (fst s) (fst s')"
  using assms(2) unfolding devices_collect_def
  by (rule keeps_for_devices [OF assms(1), rotated])
    (auto simp: device_entry_def Let_def intro!: keeps_intros keeps_emitAge assms(1))

lemma keeps_active_calls:
  assumes "ok em" "active_calls_collect m order client c em s = Some (r, s')"
  shows "R (fst s) (fst s')"
proof -
  have k: "keeps fst (calls_entry m order api em entry)" for api :: "'b lens_api" and entry
    unfolding keeps_def [of fst "calls_entry m order api em entry"] calls_entry_def
    by (auto split: prod.splits sum.splits simp: R_refl intro!: keepsD keeps_intros assms(1))
  have "keeps fst (\<lambda>s. case client of None \<Rightarrow> (Some errClientUnavailable, s) | Some api \<Rightarrow> calls_entry m order api em entry s)" for entry
    by (cases client) (auto simp: keeps_def R_refl intro: keepsD [OF k])
  from keeps_for_devices [OF assms(1) this assms(2) [unfolded active_calls_collect_def]] show ?thesis .
qed

lemma keeps_firmware:
  assumes "ok em" "firmware_collect m client c em s = Some (r, s')"
  shows "R (fst s) (fst s')"
proof -
  have k: "keeps fst (firmware_entry m api em entry)" for api :: "'b lens_api" and entry
    unfolding keeps_def [of fst "firmware_entry m api em entry"] firmware_entry_def
    by (auto split: prod.splits sum.splits simp: R_refl intro!: keepsD keeps_intros assms(1))
  have "keeps fst (\<lambda>s. case client of None \<Rightarrow> (Some errClientUnavailable, s) | Some api \<Rightarrow> firmware_entry m api em entry s)" for entry
    by (cases client) (auto simp: keeps_def R_refl intro: keepsD [OF k])
  from keeps_for_devices [OF assms(1) this assms(2) [unfolded firmware_collect_def]] show ?thesis .
qed

subsection \<open>All of them\<close>

lemma lens_entries_keep:
  assumes "ok em" "c \<in> set (lens_entries pe env lc cfg)" "Collect c em s = Some (res, s')"
  shows "R (fst s) (fst s')"
proof -
  have ao: "\<exists>e. r = Some (e, s')" if "as_outcome r = Some (res, s')" for r
    using that by (auto simp: as_outcome_def split: option.splits)
  from assms(2,3) show ?thesis
    by (auto simp: lens_entry_defs lens_collectors_def Let_def dest!: ao
        dest: keeps_devices [OF assms(1)] keeps_active_calls [OF assms(1)] keeps_firmware [OF assms(1)])
qed

lemma phone_entries_keep:
  assumes "ok em" "ev LogPhoneCallRecord" "c \<in> set (phone_entries pe cfg ts)" "Collect c em s = Some (res, s')"
  shows "R (fst s) (fst s')"
proof -
  have ph: "R (fst s) (fst s')" if "keeps fst f" "as_outcome (Some (f s)) = Some (res, s')" for f
    using keepsD [OF that(1) refl, of s] that(2) by (auto simp: as_outcome_def split: prod.splits)
  have fi: "R (fst s) (fst s')" if "keeps fst f" "on_files f s = Some (res, s')" for f
    using keepsD [OF that(1), of "(fst s, snd s, wd_files (snd s))"] that(2) by (auto simp: on_files_def split: prod.splits)
  from assms(3,4) show ?thesis
    by (auto simp: phone_entry_defs intro: ph [OF keeps_status [OF assms(1)]] ph [OF keeps_lines [OF assms(1)]]
        ph [OF keeps_config [OF assms(1)]] fi [OF keeps_call_logs [OF assms(1,2)]] ph [OF keeps_network_info [OF assms(1)]])
qed

lemma selfobs_entry_keeps:
  assumes "ok em" "Collect (selfobs_entry pe cfg) em s = Some (res, s')"
  shows "R (fst s) (fst s')"
proof -
  from assms(2) obtain e where e: "build_info_collect (pe_meter pe) (pe_version pe) em s = (e, s')"
    by (auto simp: selfobs_entry_def as_outcome_def split: prod.splits)
  have "keeps fst (build_info_collect (pe_meter pe) (pe_version pe) em)"
    unfolding build_info_collect_def by (rule keeps_emitGauge [OF assms(1)]) simp
  from keepsD [OF this refl, of s] e show ?thesis by simp
qed

lemma main_registry_keeps:
  assumes "\<And>event. ev event" "ok em" "c \<in> set (main_registry pe cfg lens ts)" "Collect c em s = Some (res, s')"
  shows "R (fst s) (fst s')"
proof -
  from assms(3) consider
      (lens) env lc where "c \<in> set (lens_entries pe env lc (Some cfg))"
    | (cdr) env lc tid where "c = cdr_entry pe env lc cfg tid"
    | (phone) "c \<in> set (phone_entries pe cfg ts)"
    | (self) "c = selfobs_entry pe (Some cfg)"
    unfolding main_registry_eq by (auto split: option.splits if_splits)
  then show ?thesis
  proof cases
    case lens
    from lens_entries_keep [OF assms(2) this assms(4)] show ?thesis .
  next
    case cdr
    from cdr_entry_keeps [OF ok_tenant [OF assms(2)] assms(1) assms(4) [unfolded cdr]] show ?thesis .
  next
    case phone
    from phone_entries_keep [OF assms(2,1) this assms(4)] show ?thesis .
  next
    case self
    from selfobs_entry_keeps [OF assms(2) assms(4) [unfolded self]] show ?thesis .
  qed
qed

end

text \<open>Two relations of this kind: only signals with a tenant are added; and the availability records stay.\<close>

lemma tagged_snd:
  "derived e \<Longrightarrow> adds_tagged t (snd (gauge m e n v attrs t))"
  "derived e \<Longrightarrow> adds_tagged t (snd (counter m e n v attrs t))"
  "derived e \<Longrightarrow> adds_tagged t (snd (log_event e event body ts attrs t))"
proof -
  show "derived e \<Longrightarrow> adds_tagged t (snd (gauge m e n v attrs t))" using gauge_tagged by (metis prod.collapse)
  show "derived e \<Longrightarrow> adds_tagged t (snd (counter m e n v attrs t))" using counter_tagged by (metis prod.collapse)
  assume d: "derived e"
  obtain cs where "subseq cs (scoped e)"
    "out (snd (log_event e event body ts attrs t)) = out t @ map (\<lambda>base. LogRecord body ts (Attr AttrEventName event # base @ attrs)) cs"
    using log_event_sub [of e event body ts attrs t] by (metis prod.collapse)
  then show "adds_tagged t (snd (log_event e event body ts attrs t))"
    using scoped_subset_tagged [OF derived_tenant_bound [OF d], of cs "\<lambda>base. LogRecord body ts (Attr AttrEventName event # base @ attrs)"]
    by (auto simp: adds_tagged_def tenant_tagged_def)
qed

interpretation tagging: signal_relation adds_tagged derived "\<lambda>_. True"
  by unfold_locales (auto intro: adds_tagged_trans derived_tenant derived_device tagged_snd)

lemma gauge_trace_log: "gauge_trace n (snd (log_event e event body ts attrs t)) = gauge_trace n t"
proof -
  obtain r t' where l: "log_event e event body ts attrs t = (r, t')" by (rule prod.exhaust)
  from log_event_sub [OF l] show ?thesis by (auto simp: l gauge_trace_def filter_empty_conv)
qed

lemma gauge_trace_count: "gauge_trace n (snd (counter m e name v attrs t)) = gauge_trace n t"
proof -
  obtain r t' where c: "counter m e name v attrs t = (r, t')" by (rule prod.exhaust)
  from gauge_trace_counter [OF c] show ?thesis by (simp add: c)
qed

interpretation availability: signal_relation
    "\<lambda>t t'. gauge_trace MetricCollectorAvailability t' = gauge_trace MetricCollectorAvailability t" "\<lambda>_. True" "\<lambda>_. True"
  by unfold_locales (simp_all add: gauge_trace_snd(1) gauge_trace_log gauge_trace_count)

text \<open>
  Tenant boundary of all collectors. Whatever Lens, the phones and the files answer, a run of any collector the program
  registers, with an emitter derived from the one made at start-up, only appends to what was handed to the SDK, and
  every signal it appends carries a tenant identifier.
\<close>

theorem registered_signals_tagged:
  assumes "derived em" "c \<in> set (main_registry pe cfg lens ts)" "Collect c em s = Some (res, s')"
  shows "\<exists>sigs. out (fst s') = out (fst s) @ sigs \<and> list_all tenant_tagged sigs"
  using tagging.main_registry_keeps [OF TrueI assms] by (simp add: adds_tagged_def)

lemma registered_leave_availability: "c \<in> set (main_registry pe cfg lens ts) \<Longrightarrow> leaves_availability em c"
  unfolding leaves_availability_def by (intro allI impI) (rule availability.main_registry_keeps [OF TrueI TrueI])

text \<open>
  What is scheduled. The program schedules, in this order: with Lens credentials the three polling collectors and one
  call-record collector per tenant; with the phone side enabled and a resolved phone the five phone collectors,
  three of them with fixed intervals; and always its own build information.
\<close>

theorem registered_schedule:
  "map (\<lambda>c. (ID c, Interval c)) (main_registry pe cfg lens ts) =
     (if lens = None then [] else
        [(''lens.devices'', iv_LensDevices (cfg_Collectors cfg)), (''lens.active_calls'', iv_LensActiveCalls (cfg_Collectors cfg)),
         (''lens.firmware'', iv_LensFirmware (cfg_Collectors cfg))] @
        map (\<lambda>_. (collectorID, iv_LensCDR (cfg_Collectors cfg))) (lens_Tenants (cfg_Lens cfg))) @
     (if phone_Enabled (cfg_Phone cfg) \<and> ts \<noteq> [] then
        [(''phone.status'', minute), (''phone.lines'', minute), (''phone.config'', 5 * minute),
         (''phone.call_logs'', if CallLogsInterval (hd ts) > 0 then CallLogsInterval (hd ts) else 5 * minute),
         (''phone.network_info'', if NetworkInfoInterval (hd ts) > 0 then NetworkInfoInterval (hd ts) else 5 * minute)] else []) @
     [(''selfobs.internal'', if iv_SelfObs (cfg_Collectors cfg) > 0 then iv_SelfObs (cfg_Collectors cfg) else minute)]"
  by (cases lens; cases ts)
    (auto simp: main_registry_eq lens_entry_defs lens_collectors_def collectorConfig_def devicesID_def activeCallsID_def firmwareID_def Let_def
      cdr_entry_defs cdr_New_def phone_entry_defs StatusID_def LinesID_def ConfigID_def callLogsID_def NetworkInfoID_def NewCallLogs_def
      network_info_interval_def minutes_def minute_def second_def selfobs_entry_def selfobs_collectorID_def)

section \<open>Intervals\<close>

definition lens_intervals_positive :: "config \<Rightarrow> bool" where
  "lens_intervals_positive cfg \<longleftrightarrow>
     iv_LensDevices (cfg_Collectors cfg) > 0 \<and> iv_LensActiveCalls (cfg_Collectors cfg) > 0 \<and>
     iv_LensFirmware (cfg_Collectors cfg) > 0 \<and> (lens_Tenants (cfg_Lens cfg) = [] \<or> iv_LensCDR (cfg_Collectors cfg) > 0)"

lemma entry_intervals:
  "map Interval (lens_entries pe env lc (Some cfg)) =
     [iv_LensDevices (cfg_Collectors cfg), iv_LensActiveCalls (cfg_Collectors cfg), iv_LensFirmware (cfg_Collectors cfg)]"
  "Interval (cdr_entry pe env lc cfg tid) = iv_LensCDR (cfg_Collectors cfg)"
  "ts \<noteq> [] \<Longrightarrow> list_all (\<lambda>c. Interval c > 0) (phone_entries pe cfg ts)"
  "Interval (selfobs_entry pe (Some cfg)) > 0"
  by (auto simp: lens_entry_defs lens_collectors_def collectorConfig_def Let_def cdr_entry_defs cdr_New_def phone_entry_defs
      NewCallLogs_def network_info_interval_def minutes_def minute_def second_def selfobs_entry_def split: list.splits)

lemma registered_intervals:
  "list_all (\<lambda>c. Interval c > 0) (main_registry pe cfg lens ts) \<longleftrightarrow> lens = None \<or> lens_intervals_positive cfg"
proof -
  have l: "list_all (\<lambda>c. Interval c > 0) (lens_entries pe env lc (Some cfg)) \<longleftrightarrow>
      iv_LensDevices (cfg_Collectors cfg) > 0 \<and> iv_LensActiveCalls (cfg_Collectors cfg) > 0 \<and> iv_LensFirmware (cfg_Collectors cfg) > 0" for env lc
    using entry_intervals(1) [of pe env lc cfg] list.pred_map [of "\<lambda>i. i > 0" Interval "lens_entries pe env lc (Some cfg)"] by (simp add: comp_def)
  show ?thesis
  proof (cases lens)
    case None
    then show ?thesis by (simp add: main_registry_eq entry_intervals)
  next
    case (Some p)
    have c: "list_all (\<lambda>c. Interval c > 0) (map (cdr_entry pe env lc cfg) xs) \<longleftrightarrow> xs = [] \<or> iv_LensCDR (cfg_Collectors cfg) > 0" for env lc xs
      by (induction xs) (auto simp: entry_intervals(2))
    from Some show ?thesis
      by (cases p) (simp add: main_registry_eq l c entry_intervals lens_intervals_positive_def)
  qed
qed

text \<open>
  C7 (the program's schedule keeps running). With the collectors the program registers and an SDK that makes every gauge, whatever
  order their goroutines run in and whatever their runs return: without Lens, or with positive Lens intervals, no ticker ends
  the process; no collector ends before the context is cancelled; and the availability records are exactly one per tenant
  for each finished run, 1 exactly for the successful ones.
\<close>

theorem registered_collectors_isolated:
  assumes "\<And>st n. Float64Gauge m st n = None"
    and "sched_reach m now em (main_registry pe cfg lens ts) s st"
  shows "(lens = None \<or> lens_intervals_positive cfg \<longrightarrow> Crashed \<notin> set (sc_phases st)) \<and>
    (Stopped \<in> set (sc_phases st) \<longrightarrow> sc_cancelled st) \<and>
    gauge_trace MetricCollectorAvailability (fst (sc_run st)) =
      gauge_trace MetricCollectorAvailability (fst s) @ finished_sigs em (main_registry pe cfg lens ts) (sc_finished st)"
proof -
  let ?cs = "main_registry pe cfg lens ts"
  have "all_gauges m" "list_all (leaves_availability em) ?cs"
    using assms(1) registered_leave_availability by (auto simp: all_gauges_def list_all_iff)
  from sched_reach_inv [OF assms(2) this] have inv: "sched_inv em ?cs (gauge_trace MetricCollectorAvailability (fst s)) st" .
  have "Crashed \<notin> set (sc_phases st)" if "lens = None \<or> lens_intervals_positive cfg"
  proof -
    from that registered_intervals have "list_all (\<lambda>c. Interval c > 0) ?cs" by blast
    then have "Interval (?cs ! i) > 0" if "i < length ?cs" for i using that by (simp add: list_all_length)
    with inv show ?thesis by (force simp: sched_inv_def in_set_conv_nth)
  qed
  moreover have "Stopped \<in> set (sc_phases st) \<Longrightarrow> sc_cancelled st"
    using inv by (auto simp: sched_inv_def in_set_conv_nth)
  ultimately show ?thesis using inv by (auto simp: sched_inv_def)
qed

text \<open>
  Nothing in \<^verbatim>\<open>Validate\<close> looks at the intervals, and a first run of a collector whose interval is not positive ends
  the process.
\<close>

lemma validate_ignores_intervals: "Validate (cfg\<lparr>cfg_Collectors := ivs\<rparr>) = Validate cfg"
  by (cases cfg) (simp only: Validate_def missing_keys_def static_targets_error_def config.select_convs config.update_convs)

lemma nonpositive_interval_crashes:
  assumes "Interval c \<le> 0" "RunOnce m now em c s \<noteq> None"
  shows "\<exists>st. sched_reach m now em (c # cs) s st \<and> Crashed \<in> set (sc_phases st)"
proof -
  let ?R = "sched_step m now em (c # cs)"
  let ?st = "\<lambda>ph s h. \<lparr>sc_phases = ph # map (\<lambda>_. Starting) cs, sc_run = s, sc_cancelled = False, sc_finished = h\<rparr>"
  have step: "?R (?st p s h) (?st p' s' (h @ map (Pair 0) h'))"
    if "loop_step m now em c False p s p' s' h'" "p \<noteq> Crashed" for p s p' s' h h'
    using goroutine [of 0 "c # cs" "?st p s h" m now em p' s' h'] that by auto
  obtain t s1 where b: "run_begin now em c s = (t, s1)" by (rule prod.exhaust)
  then obtain res s2 where r: "Collect c em s1 = Some (res, s2)"
    using assms(2) by (auto simp: RunOnce_def split: option.splits)
  obtain e s3 where f: "run_report m now em c t res s2 = (e, s3)" by (rule prod.exhaust)
  have i: "sched_init (Entries (c # cs)) s = ?st Starting s []" by (simp add: sched_init_def Entries_def)
  have "?R (?st Starting s []) (?st (Collecting False t) s1 [])" using step [OF first_run [OF b], of "[]"] by simp
  moreover have "?R (?st (Collecting False t) s1 []) (?st (Reporting False t res) s2 [])" using step [OF collect_run [OF r], of _ _ "[]"] by simp
  moreover have "?R (?st (Reporting False t res) s2 []) (?st MakingTicker s3 [(0, res)])"
    using step [OF report_run [OF f, of _ False], of "[]"] by simp
  moreover have "?R (?st MakingTicker s3 [(0, res)]) (?st Crashed s3 [(0, res)])"
    using step [OF ticker_panic [OF assms(1)], of s3 "[(0, res)]"] by simp
  ultimately have "sched_reach m now em (c # cs) s (?st Crashed s3 [(0, res)])"
    unfolding i by (meson rtranclp.rtrancl_into_rtrancl rtranclp.rtrancl_refl)
  then show ?thesis by fastforce
qed

section \<open>Example values\<close>

definition ex_prog :: "(nat, unit) prog_env" where
  "ex_prog = \<lparr>pe_meter = ex_meter, pe_now = (\<lambda>w. (\<lparr>t_unix = 0, t_nsec = 0, t_off = 0\<rparr>, w)), pe_order = id, pe_cdr = LensCDR.ex_env,
     pe_calls = ex_call_env, pe_files = ex_files, pe_version = dev_version\<rparr>"

definition ex_world :: "(nat, unit) world" where
  "ex_world = \<lparr>wd_lens = ex_lens_st, wd_phone = (), wd_files = Map.empty\<rparr>"

lemma registered_signals_tagged_witness:
  "\<exists>s' sigs. Collect (selfobs_entry ex_prog (Some Default)) ex_emitter (ex_tel, ex_world) = Some (Finished None, s') \<and>
    out (fst s') = sigs \<and> list_all tenant_tagged sigs"
proof -
  have d: "derived ex_emitter" unfolding ex_emitter_def by (rule derived_new)
  have c: "selfobs_entry ex_prog (Some Default) \<in> set (main_registry ex_prog Default None [])" by (simp add: main_registry_eq)
  obtain s' where s: "Collect (selfobs_entry ex_prog (Some Default)) ex_emitter (ex_tel, ex_world) = Some (Finished None, s')"
  proof -
    let ?r = "build_info_collect ex_meter dev_version ex_emitter (ex_tel, ex_world)"
    have "fst ?r = None" by (simp add: build_info_collect_def ex_emit)
    then show thesis by (intro that [of "snd ?r"]) (simp add: selfobs_entry_def ex_prog_def as_outcome_def case_prod_unfold)
  qed
  from registered_signals_tagged [OF d c s] s show ?thesis by (simp add: ex_tel_def)
qed

lemma registered_collectors_isolated_witness:
  "\<exists>st. sched_reach ex_meter (pe_now ex_prog) ex_emitter (main_registry ex_prog Default None []) (ex_tel, ex_world) st \<and>
    Crashed \<notin> set (sc_phases st)"
proof -
  let ?st = "sched_init (Entries (main_registry ex_prog Default None [])) (ex_tel, ex_world)"
  have r: "sched_reach ex_meter (pe_now ex_prog) ex_emitter (main_registry ex_prog Default None []) (ex_tel, ex_world) ?st" by simp
  from registered_collectors_isolated [OF ex_meter_gauges r] r show ?thesis by blast
qed

end
