(* ===== verification/PhoneDigest.thy ===== *)
theory PhoneDigest
  imports GoStrings
begin

text \<open>
  \<^verbatim>\<open>internal/phoneclient/digest.go\<close>: HTTP Digest authentication. The model has the reader of the
  challenge (\<^verbatim>\<open>parseDigestValues\<close>), \<^verbatim>\<open>escapeDigest\<close>, \<^verbatim>\<open>selectQOP\<close> and the construction of the
  \<^verbatim>\<open>Authorization\<close> header. The parameters are the two hash functions, as functions from bytes to
  bytes, and the source of random bytes.
\<close>

section \<open>Reading and writing parameters\<close>

definition quote_char :: char where "quote_char = CHR 0x22"
definition backslash :: char where "backslash = CHR 0x5C"

lemmas quote_defs = quote_char_def backslash_def

text \<open>\<^verbatim>\<open>string(b)\<close> of a byte is the UTF-8 text of the code point with that number.\<close>

definition byte_string :: "char \<Rightarrow> string" where
  "byte_string c =
     (if code c < 128 then [c] else [char_of (192 + code c div 64), char_of (128 + code c mod 64)])"

fun read_quoted :: "bool \<Rightarrow> string \<Rightarrow> string \<Rightarrow> (string \<times> string) option" where
  "read_quoted escaped result [] = None"
| "read_quoted escaped result (c # cs) =
     (if escaped then read_quoted False (result @ byte_string c) cs
      else if c = backslash then read_quoted True result cs
      else if c = quote_char then Some (result, cs)
      else read_quoted False (result @ byte_string c) cs)"

lemma read_quoted_length: "read_quoted b r s = Some (v, t) \<Longrightarrow> length t < length s"
  by (induction b r s rule: read_quoted.induct) (auto split: if_splits)

definition trim_left :: "char set \<Rightarrow> string \<Rightarrow> string" where
  "trim_left cs s = dropWhile (\<lambda>c. c \<in> cs) s"

definition digest_blank :: "char set" where
  "digest_blank = {CHR '' '', CHR '','', CHR 0x09}"

lemma trim_left_length: "length (trim_left cs s) \<le> length s"
  by (simp add: trim_left_def length_dropWhile_le)

lemma digest_tail_length:
  assumes "index_byte (trim_left cs s) c = Some n"
  shows "length (trim_space (drop (n + 1) (trim_left cs s))) < length s"
proof -
  have "length (trim_space (drop (n + 1) (trim_left cs s))) \<le> length (trim_left cs s) - (n + 1)"
    using length_trim_space [of "drop (n + 1) (trim_left cs s)"] by simp
  with assms trim_left_length [of cs s] show ?thesis by (auto simp: index_byte_Some_iff)
qed

function digest_loop :: "(string \<rightharpoonup> string) \<Rightarrow> string \<Rightarrow> (string \<rightharpoonup> string)" where
  "digest_loop vals s =
     (if s = [] then vals
      else
        let v = trim_left digest_blank s in
        case index_byte v (CHR ''='') of
          None \<Rightarrow> vals
        | Some n \<Rightarrow>
            if n < 1 then vals
            else
              let key = to_lower (trim_space (take n v)); v' = trim_space (drop (n + 1) v) in
              if v' = [] then vals
              else if hd v' = quote_char then
                (case read_quoted False [] (tl v') of
                   None \<Rightarrow> vals
                 | Some (result, rest) \<Rightarrow> digest_loop (vals(key \<mapsto> result)) rest)
              else
                (case index_byte v' (CHR '','') of
                   None \<Rightarrow> digest_loop (vals(key \<mapsto> trim_space v')) []
                 | Some i \<Rightarrow> digest_loop (vals(key \<mapsto> trim_space (take i v'))) (drop i v')))"
  by pat_completeness auto
termination
proof (relation "measure (\<lambda>(m, s). length s)", goal_cases)
  case (2 vals s v n key v' p result rest)
  have "length (tl v') \<le> length v'" by simp
  with 2 digest_tail_length [of digest_blank s "CHR ''=''" n] read_quoted_length [of False "[]" "tl v'" result rest]
  show ?case by (simp del: length_tl)
next
  case (4 vals s v n key v' i)
  have "length (drop i v') \<le> length v'" by simp
  with 4 digest_tail_length [of digest_blank s "CHR ''=''" n] show ?case by (simp del: length_drop)
qed auto

declare digest_loop.simps [simp del]

definition parseDigestValues :: "string \<Rightarrow> (string \<rightharpoonup> string)" where
  "parseDigestValues s = digest_loop Map.empty s"

definition escape_char :: "char \<Rightarrow> string" where
  "escape_char c = (if c = backslash \<or> c = quote_char then [backslash, c] else [c])"

definition escapeDigest :: "string \<Rightarrow> string" where
  "escapeDigest s = concat (map escape_char s)"

definition selectQOP :: "string \<Rightarrow> string" where
  "selectQOP s = (if list_ex (\<lambda>c. trim_space c = ''auth'') (split_on (CHR '','') s) then ''auth'' else [])"

section \<open>The header\<close>

record 'w digest_env =
  md5_sum :: "string \<Rightarrow> string"
  sha256_sum :: "string \<Rightarrow> string"
  rand_read :: "nat \<Rightarrow> 'w \<Rightarrow> string result \<times> 'w"

definition randomHex :: "'w digest_env \<Rightarrow> nat \<Rightarrow> 'w \<Rightarrow> string result \<times> 'w" where
  "randomHex env n w =
     (case rand_read env n w of (Inl e, w') \<Rightarrow> (Inl e, w') | (Inr b, w') \<Rightarrow> (Inr (hex_encode b), w'))"

definition value_of :: "(string \<rightharpoonup> string) \<Rightarrow> string \<Rightarrow> string" where
  "value_of m k = (case m k of None \<Rightarrow> [] | Some v \<Rightarrow> v)"

definition quoted :: "string \<Rightarrow> string \<Rightarrow> string" where
  "quoted k v = k @ ''='' @ [quote_char] @ v @ [quote_char]"

definition new_hash :: "'w digest_env \<Rightarrow> string \<Rightarrow> (string \<Rightarrow> string) option" where
  "new_hash env algorithm =
     (if algorithm = ''MD5'' then Some (md5_sum env)
      else if algorithm = ''SHA-256'' then Some (sha256_sum env) else None)"

text \<open>The header for the parameters of a challenge.\<close>

definition authorize :: "'w digest_env \<Rightarrow> (string \<rightharpoonup> string) \<Rightarrow> string \<Rightarrow> string \<Rightarrow> string \<Rightarrow> string \<Rightarrow> 'w \<Rightarrow>
    string result \<times> 'w" where
  "authorize env vals meth uri username password w =
     (let realm = value_of vals ''realm''; nonce = value_of vals ''nonce'' in
      if realm = [] \<or> nonce = [] then (Inl (Msg ''phone provided an incomplete HTTP Digest challenge''), w)
      else
        let algorithm = to_upper (value_of vals ''algorithm'');
            algorithm = (if algorithm = [] then ''MD5'' else algorithm) in
        case new_hash env algorithm of
          None \<Rightarrow> (Inl (Msg (''unsupported phone HTTP Digest algorithm '' @ go_quote algorithm)), w)
        | Some h \<Rightarrow>
            let digest = (\<lambda>s. hex_encode (h s));
                ha1 = digest (username @ '':'' @ realm @ '':'' @ password);
                ha2 = digest (meth @ '':'' @ uri);
                qop = selectQOP (value_of vals ''qop'');
                opaque = value_of vals ''opaque'';
                parts =
                  [quoted ''username'' (escapeDigest username), quoted ''realm'' (escapeDigest realm),
                   quoted ''nonce'' (escapeDigest nonce), quoted ''uri'' (escapeDigest uri)] @
                  (if opaque \<noteq> [] then [quoted ''opaque'' (escapeDigest opaque)] else []) in
            if qop = [] then
              (Inr (''Digest '' @ join '', '' (parts @
                 [quoted ''response'' (digest (ha1 @ '':'' @ nonce @ '':'' @ ha2)), ''algorithm='' @ algorithm])), w)
            else
              (case randomHex env 16 w of
                 (Inl e, w') \<Rightarrow> (Inl (Wrap ''generate HTTP Digest nonce'' e), w')
               | (Inr cnonce, w') \<Rightarrow>
                   let nc = ''00000001'';
                       response = digest (join '':'' [ha1, nonce, nc, cnonce, qop, ha2]) in
                   (Inr (''Digest '' @ join '', '' (parts @
                      [quoted ''response'' response, ''algorithm='' @ algorithm, ''qop='' @ qop, ''nc='' @ nc,
                       quoted ''cnonce'' cnonce])), w')))"

definition digestAuthorization :: "'w digest_env \<Rightarrow> string \<Rightarrow> string \<Rightarrow> string \<Rightarrow> string \<Rightarrow> string \<Rightarrow> 'w \<Rightarrow>
    string result \<times> 'w" where
  "digestAuthorization env challenge meth uri username password w =
     (if \<not> prefix ''digest '' (to_lower (trim_space challenge)) then
        (Inl (Msg ''phone did not provide an HTTP Digest challenge''), w)
      else
        authorize env (parseDigestValues (trim_space (drop (length ''Digest '') challenge))) meth uri username password w)"

section \<open>Round trip of parameter lists\<close>

lemma digest_loop_Nil [simp]: "digest_loop m [] = m"
  by (simp add: digest_loop.simps)


datatype digest_param = Quoted string string | Token string string

fun param_text :: "digest_param \<Rightarrow> string" where
  "param_text (Quoted k v) = quoted k (escapeDigest v)"
| "param_text (Token k v) = k @ ''='' @ v"

fun param_entry :: "digest_param \<Rightarrow> string \<times> string" where
  "param_entry (Quoted k v) = (k, v)"
| "param_entry (Token k v) = (k, v)"

definition key_ok :: "string \<Rightarrow> bool" where
  "key_ok k \<longleftrightarrow> k \<noteq> [] \<and> list_all is_lower k"

fun param_ok :: "digest_param \<Rightarrow> bool" where
  "param_ok (Quoted k v) \<longleftrightarrow> key_ok k \<and> list_all is_ascii v"
| "param_ok (Token k v) \<longleftrightarrow> key_ok k \<and> v \<noteq> [] \<and> hd v \<noteq> quote_char \<and> list_all (\<lambda>c. plain_char c \<and> c \<noteq> CHR '','') v"

lemma byte_string_ascii: "is_ascii c \<Longrightarrow> byte_string c = [c]"
  by (simp add: byte_string_def is_ascii_def)

lemma quote_backslash [simp]: "quote_char \<noteq> backslash" "backslash \<noteq> quote_char" "is_ascii backslash" "is_ascii quote_char" "plain_char quote_char"
  by (simp_all add: quote_defs is_ascii_def code_def plain_char_def)

lemma read_quoted_escape:
  "list_all is_ascii v \<Longrightarrow> read_quoted False r (escapeDigest v @ quote_char # rest) = Some (r @ v, rest)"
  by (induction v arbitrary: r) (auto simp: escapeDigest_def escape_char_def byte_string_ascii)

lemma lower_facts: "is_lower c \<Longrightarrow> plain_char c \<and> is_ascii c \<and> lower_char c = c \<and> c \<noteq> CHR ''='' \<and> c \<notin> digest_blank"
  by (auto simp: char_defs plain_char_def digest_blank_def)

lemma key_ok_facts:
  assumes "key_ok k"
  shows "to_lower (trim_space k) = k" "CHR ''='' \<notin> set k" "trim_left digest_blank (k @ s) = k @ s"
proof -
  from assms have l: "list_all (\<lambda>c. plain_char c \<and> is_ascii c \<and> lower_char c = c \<and> c \<noteq> CHR ''='' \<and> c \<notin> digest_blank) k" and ne: "k \<noteq> []"
    by (auto simp: key_ok_def list_all_iff dest: lower_facts)
  have "trim_space k = k" using l ne by (intro trim_space_plain) (auto simp: list_all_iff)
  moreover have "to_lower k = k" using l by (subst to_lower_ascii) (auto simp: list_all_iff map_idI)
  ultimately show "to_lower (trim_space k) = k" by simp
  show "CHR ''='' \<notin> set k" using l by (auto simp: list_all_iff)
  show "trim_left digest_blank (k @ s) = k @ s" using l ne by (cases k) (auto simp: trim_left_def)
qed

lemma index_byte_append: "c \<notin> set p \<Longrightarrow> index_byte (p @ c # s) c = Some (length p)"
  by (auto simp: index_byte_Some_iff nth_append)

definition closed_tail :: "string \<Rightarrow> bool" where
  "closed_tail rest \<longleftrightarrow> rest = [] \<or> (\<exists>r. rest = '', '' @ r \<and> r \<noteq> [] \<and> plain_char (last r))"

lemma digest_loop_Quoted:
  assumes "key_ok k" "list_all is_ascii v" "closed_tail rest"
  shows "digest_loop m (quoted k (escapeDigest v) @ rest) = digest_loop (m(k \<mapsto> v)) rest"
proof -
  let ?t = "quote_char # escapeDigest v @ quote_char # rest"
  have s: "quoted k (escapeDigest v) @ rest = k @ CHR ''='' # ?t" by (simp add: quoted_def)
  have "trim_space ?t = ?t"
    using assms(3) by (intro trim_space_plain) (auto simp: closed_tail_def)
  moreover have "k \<noteq> []" using assms(1) by (simp add: key_ok_def)
  ultimately show ?thesis
    unfolding s using key_ok_facts [OF assms(1)] read_quoted_escape [OF assms(2), of "[]" rest]
    by (subst digest_loop.simps) (simp add: index_byte_append Let_def)
qed

lemma digest_loop_Token:
  assumes "key_ok k" "param_ok (Token k v)" "closed_tail rest"
  shows "digest_loop m ((k @ ''='' @ v) @ rest) = digest_loop (m(k \<mapsto> v)) rest"
proof -
  have s: "(k @ ''='' @ v) @ rest = k @ CHR ''='' # v @ rest" by simp
  from assms(2) have v: "v \<noteq> []" "hd v \<noteq> quote_char" "plain_char (hd v)" "plain_char (last v)" "CHR '','' \<notin> set v"
    by (auto simp: list_all_iff)
  then have "trim_space v = v" by (intro trim_space_plain)
  moreover have "trim_space (v @ rest) = v @ rest"
    using v assms(3) by (intro trim_space_plain) (auto simp: closed_tail_def)
  moreover have "hd (v @ rest) \<noteq> quote_char" "k \<noteq> []" using v assms(1) by (simp_all add: key_ok_def)
  moreover have "rest = [] \<and> index_byte (v @ rest) (CHR '','') = None \<or> rest \<noteq> [] \<and> index_byte (v @ rest) (CHR '','') = Some (length v)"
    using assms(3) v by (auto simp: closed_tail_def index_byte_None_iff index_byte_append)
  ultimately show ?thesis
    unfolding s using key_ok_facts [OF assms(1)] v
    by (subst digest_loop.simps) (auto simp: index_byte_append Let_def)
qed

lemma digest_loop_param:
  "param_ok p \<Longrightarrow> closed_tail rest \<Longrightarrow>
     digest_loop m (param_text p @ rest) = digest_loop (m(fst (param_entry p) \<mapsto> snd (param_entry p))) rest"
  using digest_loop_Quoted digest_loop_Token by (cases p) auto

lemma digest_loop_sep: "s \<noteq> [] \<Longrightarrow> digest_loop m ('', '' @ s) = digest_loop m s"
proof -
  assume "s \<noteq> []"
  moreover have "trim_left digest_blank ('', '' @ s) = trim_left digest_blank s"
    by (simp add: trim_left_def digest_blank_def)
  ultimately show ?thesis
    using digest_loop.simps [of m "'', '' @ s"] digest_loop.simps [of m s] by (simp only:) simp
qed

lemma param_text_last: "param_ok p \<Longrightarrow> param_text p \<noteq> [] \<and> plain_char (last (param_text p))"
  by (cases p) (auto simp: quoted_def list_all_iff)

lemma join_params_last:
  "\<forall>p \<in> set ps. param_ok p \<Longrightarrow> ps \<noteq> [] \<Longrightarrow> join '', '' (map param_text ps) \<noteq> [] \<and> plain_char (last (join '', '' (map param_text ps)))"
proof (induction ps)
  case (Cons p ps)
  then show ?case by (cases ps) (auto simp: param_text_last)
qed simp

lemma digest_loop_params:
  "\<forall>p \<in> set ps. param_ok p \<Longrightarrow> digest_loop m (join '', '' (map param_text ps)) = m ++ map_of (rev (map param_entry ps))"
proof (induction ps arbitrary: m)
  case Nil
  show ?case by simp
next
  case (Cons p ps)
  obtain k v where kv: "param_entry p = (k, v)" by fastforce
  show ?case
  proof (cases ps)
    case Nil
    with Cons.prems kv digest_loop_param [of p "[]" m] show ?thesis by (auto simp: closed_tail_def map_add_def)
  next
    case (Cons q qs)
    let ?r = "join '', '' (map param_text ps)"
    have r: "?r \<noteq> []" "plain_char (last ?r)" using join_params_last [of ps] Cons.prems Cons by auto
    have "digest_loop m (join '', '' (map param_text (p # ps))) = digest_loop (m(k \<mapsto> v)) ('', '' @ ?r)"
      using digest_loop_param [of p "'', '' @ ?r" m] Cons.prems Cons kv r by (auto simp: closed_tail_def)
    also have "\<dots> = m(k \<mapsto> v) ++ map_of (rev (map param_entry ps))"
    proof -
      have "\<forall>p \<in> set ps. param_ok p" using Cons.prems by simp
      then show ?thesis unfolding digest_loop_sep [OF r(1)] by (rule Cons.IH)
    qed
    finally show ?thesis using kv by (auto simp: map_add_def fun_eq_iff split: option.splits)
  qed
qed

section \<open>What the header says\<close>

lemma escape_hex: "list_all is_hex s \<Longrightarrow> escapeDigest s = s"
proof (induction s)
  case (Cons c s)
  then have "c \<noteq> backslash" "c \<noteq> quote_char" by (auto simp: quote_defs char_defs)
  with Cons show ?case by (simp add: escapeDigest_def escape_char_def)
qed (simp add: escapeDigest_def)

lemma hex_ascii: "list_all is_hex s \<Longrightarrow> list_all is_ascii s"
  by (auto simp: list_all_iff is_hex_ascii)

definition header_params :: "string \<Rightarrow> string \<Rightarrow> string \<Rightarrow> string \<Rightarrow> string \<Rightarrow> digest_param list \<Rightarrow> digest_param list" where
  "header_params username realm nonce uri opaque extra =
     [Quoted ''username'' username, Quoted ''realm'' realm, Quoted ''nonce'' nonce, Quoted ''uri'' uri] @
     (if opaque \<noteq> [] then [Quoted ''opaque'' opaque] else []) @ extra"

lemma header_params_text:
  "map param_text (header_params username realm nonce uri opaque extra) =
     ([quoted ''username'' (escapeDigest username), quoted ''realm'' (escapeDigest realm),
       quoted ''nonce'' (escapeDigest nonce), quoted ''uri'' (escapeDigest uri)] @
      (if opaque \<noteq> [] then [quoted ''opaque'' (escapeDigest opaque)] else [])) @ map param_text extra"
  by (simp add: header_params_def)

lemma key_ok_names [simp]:
  "key_ok ''username''" "key_ok ''realm''" "key_ok ''nonce''" "key_ok ''uri''" "key_ok ''opaque''" "key_ok ''response''"
  "key_ok ''algorithm''" "key_ok ''qop''" "key_ok ''nc''" "key_ok ''cnonce''"
  by (simp_all add: key_ok_def char_defs)

definition ascii_texts :: "string list \<Rightarrow> bool" where
  "ascii_texts ss = list_all (list_all is_ascii) ss"

lemma header_params_ok:
  assumes "ascii_texts [username, realm, nonce, uri, opaque]" "\<forall>p \<in> set extra. param_ok p"
  shows "\<forall>p \<in> set (header_params username realm nonce uri opaque extra). param_ok p"
  using assms by (auto simp: header_params_def ascii_texts_def)

lemma parse_header_params:
  assumes "ascii_texts [username, realm, nonce, uri, opaque]" "\<forall>p \<in> set extra. param_ok p"
  shows "parseDigestValues (join '', '' (map param_text (header_params username realm nonce uri opaque extra))) =
    map_of (rev (map param_entry (header_params username realm nonce uri opaque extra)))"
  using digest_loop_params [OF header_params_ok [OF assms], of Map.empty] by (simp add: parseDigestValues_def)

definition digest_response :: "(string \<Rightarrow> string) \<Rightarrow> string \<Rightarrow> string \<Rightarrow> string \<Rightarrow> string \<Rightarrow> string \<Rightarrow> string \<Rightarrow> string option \<Rightarrow> string" where
  "digest_response h username realm password nonce meth uri cnonce =
     (let H = (\<lambda>s. hex_encode (h s)); ha1 = H (username @ '':'' @ realm @ '':'' @ password); ha2 = H (meth @ '':'' @ uri) in
      case cnonce of
        None \<Rightarrow> H (ha1 @ '':'' @ nonce @ '':'' @ ha2)
      | Some c \<Rightarrow> H (ha1 @ '':'' @ nonce @ '':00000001:'' @ c @ '':auth:'' @ ha2))"

definition header_of :: "string \<Rightarrow> string \<Rightarrow> string \<Rightarrow> string \<Rightarrow> string \<Rightarrow> string \<Rightarrow> string \<Rightarrow> string option \<Rightarrow> digest_param list" where
  "header_of username realm nonce uri opaque algorithm response cnonce =
     header_params username realm nonce uri opaque
       (case cnonce of
          None \<Rightarrow> [Quoted ''response'' response, Token ''algorithm'' algorithm]
        | Some c \<Rightarrow> [Quoted ''response'' response, Token ''algorithm'' algorithm, Token ''qop'' ''auth'',
                      Token ''nc'' ''00000001'', Quoted ''cnonce'' c])"

lemma selectQOP_cases: "selectQOP s = [] \<or> selectQOP s = ''auth''"
  by (simp add: selectQOP_def)

lemma new_hash_names: "new_hash env a = Some h \<Longrightarrow> a = ''MD5'' \<or> a = ''SHA-256''"
  by (auto simp: new_hash_def split: if_splits)

lemma authorize_header:
  assumes "authorize env vals meth uri username password w = (Inr hdr, w')"
  shows "\<exists>algorithm h cnonce. new_hash env algorithm = Some h \<and> list_all is_hex (case cnonce of None \<Rightarrow> [] | Some c \<Rightarrow> c) \<and>
    value_of vals ''realm'' \<noteq> [] \<and> value_of vals ''nonce'' \<noteq> [] \<and>
    (cnonce = None \<longleftrightarrow> selectQOP (value_of vals ''qop'') = []) \<and>
    hdr = ''Digest '' @ join '', '' (map param_text (header_of username (value_of vals ''realm'') (value_of vals ''nonce'') uri
      (value_of vals ''opaque'') algorithm
      (digest_response h username (value_of vals ''realm'') password (value_of vals ''nonce'') meth uri cnonce) cnonce))"
proof -
  define alg where "alg = (if to_upper (value_of vals ''algorithm'') = [] then ''MD5'' else to_upper (value_of vals ''algorithm''))"
  note d = authorize_def [of env vals meth uri username password w, unfolded Let_def, folded alg_def]
  from assms have ne: "value_of vals ''realm'' \<noteq> []" "value_of vals ''nonce'' \<noteq> []"
    by (auto simp: d split: if_splits)
  from assms ne obtain h where h: "new_hash env alg = Some h"
    by (auto simp: d split: option.splits)
  show ?thesis
  proof (cases "selectQOP (value_of vals ''qop'') = []")
    case True
    have "hdr = ''Digest '' @ join '', '' (map param_text (header_of username (value_of vals ''realm'')
        (value_of vals ''nonce'') uri (value_of vals ''opaque'') alg
        (digest_response h username (value_of vals ''realm'') password (value_of vals ''nonce'') meth uri None) None))"
      using assms unfolding d header_of_def header_params_text digest_response_def
      by (simp add: h ne True Let_def escape_hex [OF hex_encode_hex] del: join.simps)
    with h ne True show ?thesis by (intro exI [of _ alg] exI [of _ h] exI [of _ None]) simp
  next
    case False
    then have q: "selectQOP (value_of vals ''qop'') = ''auth''" using selectQOP_cases by blast
    with assms h ne obtain b where r: "rand_read env 16 w = (Inr b, w')"
      by (auto simp: d randomHex_def split: sum.splits prod.splits)
    let ?c = "hex_encode b"
    have "hdr = ''Digest '' @ join '', '' (map param_text (header_of username (value_of vals ''realm'')
        (value_of vals ''nonce'') uri (value_of vals ''opaque'') alg
        (digest_response h username (value_of vals ''realm'') password (value_of vals ''nonce'') meth uri (Some ?c)) (Some ?c)))"
      using assms unfolding d header_of_def header_params_text digest_response_def
      by (simp add: h ne q r randomHex_def Let_def escape_hex [OF hex_encode_hex])
    with h ne False show ?thesis
      by (intro exI [of _ alg] exI [of _ h] exI [of _ "Some ?c"]) (simp add: hex_encode_hex)
  qed
qed

lemma header_of_ok:
  assumes "ascii_texts [username, realm, nonce, uri, opaque]" "new_hash env algorithm = Some h"
    "list_all is_hex response" "list_all is_hex (case cnonce of None \<Rightarrow> [] | Some c \<Rightarrow> c)"
  shows "parseDigestValues (join '', '' (map param_text (header_of username realm nonce uri opaque algorithm response cnonce))) =
    map_of (rev (map param_entry (header_of username realm nonce uri opaque algorithm response cnonce)))"
proof -
  have a: "param_ok (Token ''algorithm'' algorithm)"
    using new_hash_names [OF assms(2)] by (auto simp: plain_char_def code_def quote_defs)
  have q: "param_ok (Token ''qop'' ''auth'')" "param_ok (Token ''nc'' ''00000001'')"
    by (simp_all add: plain_char_def code_def quote_defs)
  show ?thesis unfolding header_of_def
    by (rule parse_header_params [OF assms(1)])
      (use a q assms(3,4) in \<open>auto simp: hex_ascii split: option.splits\<close>)
qed

lemma digest_response_hex: "list_all is_hex (digest_response h username realm password nonce meth uri cnonce)"
  by (simp add: digest_response_def Let_def hex_encode_hex split: option.splits)

lemma header_lookup:
  defines "m u r n uri opaque a resp c \<equiv> map_of (rev (map param_entry (header_of u r n uri opaque a resp c)))"
  shows "m u r n uri opaque a resp c ''username'' = Some u" "m u r n uri opaque a resp c ''realm'' = Some r"
    "m u r n uri opaque a resp c ''nonce'' = Some n" "m u r n uri opaque a resp c ''uri'' = Some uri"
    "m u r n uri opaque a resp c ''algorithm'' = Some a" "m u r n uri opaque a resp c ''cnonce'' = c"
    "m u r n uri opaque a resp c ''qop'' = (if c = None then None else Some ''auth'')"
    "m u r n uri opaque a resp c ''response'' = Some resp"
  unfolding m_def header_of_def header_params_def
  by (cases c; cases "opaque = []"; simp)+

section \<open>Examples\<close>

definition ex_digest_env :: "unit digest_env" where
  "ex_digest_env = \<lparr>md5_sum = (\<lambda>s. take 2 (s @ ''..'')), sha256_sum = (\<lambda>s. take 4 (s @ ''....'')), rand_read = (\<lambda>n w. (Inr (replicate n (CHR ''a'')), w))\<rparr>"

definition ex_challenge :: string where
  "ex_challenge = ''Digest realm='' @ [quote_char] @ ''Poly'' @ [quote_char] @ '', nonce='' @ [quote_char] @ ''n1'' @ [quote_char] @ '', qop=auth''"

lemma ex_challenge_vals:
  "map (value_of (parseDigestValues (trim_space (drop (length ''Digest '') ex_challenge)))) [''realm'', ''nonce'', ''qop'', ''opaque'', ''algorithm''] =
     [''Poly'', ''n1'', ''auth'', [], []]"
  by code_simp

section \<open>Properties\<close>

text \<open>
  C34 (challenge parameters). A list of quoted and unquoted parameters, printed with \<^verbatim>\<open>escapeDigest\<close>
  and separated by commas, is read back by \<^verbatim>\<open>parseDigestValues\<close> as the map of its entries, the last
  of a repeated key winning; quoted values are ASCII text.
\<close>

theorem digest_params_roundtrip:
  assumes "\<forall>p \<in> set ps. param_ok p"
  shows "parseDigestValues (join '', '' (map param_text ps)) = map_of (rev (map param_entry ps))"
  using digest_loop_params [OF assms, of Map.empty] by (simp add: parseDigestValues_def)

lemma digest_params_roundtrip_witness:
  "parseDigestValues (join '', '' (map param_text [Quoted ''realm'' [backslash, quote_char, CHR '',''], Token ''qop'' ''auth''])) =
     map_of [(''qop'', ''auth''), (''realm'', [backslash, quote_char, CHR '',''])]"
  using digest_params_roundtrip [of "[Quoted ''realm'' [backslash, quote_char, CHR '',''], Token ''qop'' ''auth'']"]
  by (simp add: key_ok_def char_defs plain_char_def quote_defs)



text \<open>
  Rejected challenges. No header is made, and no random number is drawn, for a challenge that is not a Digest
  one, that lacks a realm or a nonce, or that names an unknown algorithm.
\<close>

theorem digest_rejects:
  assumes "vals = parseDigestValues (trim_space (drop (length ''Digest '') challenge))"
    and "\<not> prefix ''digest '' (to_lower (trim_space challenge)) \<or> value_of vals ''realm'' = [] \<or> value_of vals ''nonce'' = [] \<or>
      to_upper (value_of vals ''algorithm'') \<notin> {[], ''MD5'', ''SHA-256''}"
  shows "\<exists>e. digestAuthorization env challenge meth uri username password w = (Inl e, w)"
  using assms by (auto simp: digestAuthorization_def authorize_def new_hash_def Let_def)

lemma digest_rejects_witness:
  "\<exists>e. digestAuthorization ex_digest_env ''Basic realm=x'' ''GET'' ''/api'' ''Polycom'' ''pw'' () = (Inl e, ())"
proof (rule digest_rejects [OF refl], rule disjI1)
  show "\<not> prefix ''digest '' (to_lower (trim_space ''Basic realm=x''))" by code_simp
qed

text \<open>
  Bytes above 127. A byte of a quoted value that is not ASCII is taken for a code point and
  encoded again, so that the realm \<^verbatim>\<open>Caf\<close> with an acute e, in UTF-8, is read as another text.
\<close>

lemma digest_non_ascii_realm:
  "parseDigestValues (quoted ''realm'' (''Caf'' @ [CHR 0xC3, CHR 0xA9])) ''realm'' =
     Some (''Caf'' @ [CHR 0xC3, CHR 0x83, CHR 0xC2, CHR 0xA9])"
  by code_simp

text \<open>
  Blanks before the scheme. The scheme is looked for in the trimmed challenge and cut off the
  untrimmed one, so that with two blanks in front the parameters are not read and the
  challenge is called incomplete.
\<close>

lemma digest_leading_blanks:
  "isOK (fst (digestAuthorization ex_digest_env ex_challenge ''GET'' ''/api'' ''Polycom'' ''pw'' ())) \<and>
   fst (digestAuthorization ex_digest_env (''  '' @ ex_challenge) ''GET'' ''/api'' ''Polycom'' ''pw'' ()) =
     Inl (Msg ''phone provided an incomplete HTTP Digest challenge'')"
  by code_simp

end
