(* ===== verification/PhoneClient.thy ===== *)
theory PhoneClient
  imports PhoneApi PhoneDigest
begin

text \<open>
  \<^verbatim>\<open>internal/phoneclient/client.go\<close>: the client of a phone's management interface, from \<^verbatim>\<open>New\<close> to the
  calls of the \<^verbatim>\<open>API\<close> interface.

  The parameters are what lies below it: URL parsing and joining, certificate-chain
  verification, the CA file, and the exchange of one request for a response on an established
  connection. A connection is established only when \<^verbatim>\<open>VerifyConnection\<close> accepts the
  peer's certificates. The requests that reach the peer are recorded in the order they are
  sent.
\<close>

section \<open>Data\<close>

record url =
  Scheme :: string
  Host :: string
  Path :: string

record http_request =
  rq_method :: string
  rq_url :: url
  rq_endpoint :: string
  rq_body :: "json option"
  rq_headers :: "(string \<times> string) list"

text \<open>
  \<open>resp_doc\<close> is the first JSON value of the body, read from at most 4 MiB of it, if there is one;
  \<open>resp_close\<close> is what closing the body returns.
\<close>

record http_response =
  resp_status :: int
  resp_www_auth :: string
  resp_doc :: "json option"
  resp_close :: "goerr option"

record certificate =
  CommonName :: string
  der :: string

type_synonym 'w wire = "http_request list \<times> 'w"

record 'w phone_net =
  url_Parse :: "string \<Rightarrow> url result"
  JoinPath :: "url \<Rightarrow> string list \<Rightarrow> url"
  RequestURI :: "url \<Rightarrow> string"
  NewRequest :: "string \<Rightarrow> url \<Rightarrow> goerr option"
  verify_chain :: "string \<Rightarrow> certificate list \<Rightarrow> goerr option"
  read_pem :: "string \<Rightarrow> string result"
  append_pem :: "string \<Rightarrow> bool"
  peer_certs :: "'w \<Rightarrow> certificate list"
  exchange :: "http_request \<Rightarrow> 'w \<Rightarrow> http_response result \<times> 'w"

record tls_config =
  VerifyChain :: bool
  CAFile :: string

record client_config =
  BaseURL :: string
  DeviceMAC :: string
  Username :: string
  Password :: string
  Timeout :: int
  cfg_TLS :: tls_config

text \<open>The client keeps what \<^verbatim>\<open>VerifyConnection\<close> closes over: the expected name and the roots.\<close>

record client =
  baseURL :: url
  username :: string
  password :: string
  timeout :: int
  wantCN :: string
  chain_roots :: "string option"

definition managementPath :: string where
  "managementPath = ''/api/v1/mgmt''"

section \<open>Identity\<close>

definition mac_separators :: "char set" where
  "mac_separators = {CHR '':'', CHR ''-'', CHR ''.'', CHR '' ''}"

definition normalizedMAC :: "string \<Rightarrow> string result" where
  "normalizedMAC s =
     (let v = filter (\<lambda>c. c \<notin> mac_separators) s in
      if length v \<noteq> 12 then Inl (Msg ''must contain exactly 12 hexadecimal characters'')
      else if \<not> hex_ok v then Inl (Msg ''must contain exactly 12 hexadecimal characters'')
      else Inr (to_upper v))"

text \<open>\<^verbatim>\<open>roots\<close>: no pool without chain verification, else the pool of the CA file.\<close>

definition client_roots :: "'w phone_net \<Rightarrow> tls_config \<Rightarrow> string option result" where
  "client_roots net cfg =
     (if \<not> VerifyChain cfg then Inr None
      else if CAFile cfg = [] then Inl (Msg ''phone TLS CA file is required when chain verification is enabled'')
      else (case read_pem net (CAFile cfg) of
          Inl e \<Rightarrow> Inl (Wrap ''read phone TLS CA file'' e)
        | Inr pem \<Rightarrow> if append_pem net pem then Inr (Some pem) else Inl (Msg ''parse phone TLS CA file'')))"

definition VerifyConnection :: "'w phone_net \<Rightarrow> client \<Rightarrow> certificate list \<Rightarrow> goerr option" where
  "VerifyConnection net c certs =
     (case certs of
        [] \<Rightarrow> Some (Msg ''phone presented no TLS certificate'')
      | leaf # _ \<Rightarrow>
          (case (case chain_roots c of None \<Rightarrow> None | Some roots \<Rightarrow> verify_chain net roots certs) of
             Some e \<Rightarrow> Some (Wrap ''phone certificate chain'' e)
           | None \<Rightarrow>
               (case normalizedMAC (CommonName leaf) of
                  Inl _ \<Rightarrow> Some (Msg ''phone certificate identity does not match expected device MAC'')
                | Inr gotCN \<Rightarrow>
                    if gotCN \<noteq> wantCN c then Some (Msg ''phone certificate identity does not match expected device MAC'')
                    else None)))"

definition New :: "'w phone_net \<Rightarrow> client_config \<Rightarrow> client result" where
  "New net cfg =
     (case url_Parse net (BaseURL cfg) of
        Inl _ \<Rightarrow> Inl (Msg ''phone base URL must be an HTTPS URL'')
      | Inr u \<Rightarrow>
          if Scheme u \<noteq> ''https'' \<or> Host u = [] then Inl (Msg ''phone base URL must be an HTTPS URL'')
          else (case normalizedMAC (DeviceMAC cfg) of
              Inl e \<Rightarrow> Inl (Wrap ''phone device MAC'' e)
            | Inr cn \<Rightarrow>
                (case client_roots net (cfg_TLS cfg) of
                   Inl e \<Rightarrow> Inl e
                 | Inr rs \<Rightarrow>
                     Inr \<lparr>baseURL = u, username = (if Username cfg = [] then ''Polycom'' else Username cfg),
                          password = Password cfg, timeout = (if Timeout cfg \<le> 0 then 15 * 1000000000 else Timeout cfg),
                          wantCN = cn, chain_roots = rs\<rparr>)))"

section \<open>Requests\<close>

text \<open>\<^verbatim>\<open>http.Client.Do\<close> over the TLS configuration of \<^verbatim>\<open>New\<close>.\<close>

definition http_do :: "'w phone_net \<Rightarrow> client \<Rightarrow> http_request \<Rightarrow> 'w wire \<Rightarrow> http_response result \<times> 'w wire" where
  "http_do net c rq s =
     (case VerifyConnection net c (peer_certs net (snd s)) of
        Some e \<Rightarrow> (Inl e, s)
      | None \<Rightarrow> (let (r, w) = exchange net rq (snd s) in (r, (fst s @ [rq], w))))"

definition phone_request :: "'w phone_net \<Rightarrow> client \<Rightarrow> string \<Rightarrow> string \<Rightarrow> json option \<Rightarrow> string option \<Rightarrow> http_request" where
  "phone_request net c meth endpoint body auth =
     \<lparr>rq_method = meth, rq_url = JoinPath net (baseURL c) [managementPath, endpoint], rq_endpoint = endpoint, rq_body = body,
      rq_headers = (if body \<noteq> None then [(''Content-Type'', ''application/json'')] else []) @
        (case auth of None \<Rightarrow> [] | Some a \<Rightarrow> [(''Authorization'', a)])\<rparr>"

definition send_request :: "'w phone_net \<Rightarrow> client \<Rightarrow> string \<Rightarrow> string \<Rightarrow> json option \<Rightarrow> string option \<Rightarrow> 'w wire \<Rightarrow>
    http_response result \<times> 'w wire" where
  "send_request net c meth endpoint body auth s =
     (case NewRequest net meth (JoinPath net (baseURL c) [managementPath, endpoint]) of
        Some e \<Rightarrow> (Inl (Wrap ''create phone request'' e), s)
      | None \<Rightarrow>
          (case http_do net c (phone_request net c meth endpoint body auth) s of
             (Inl e, s') \<Rightarrow> (Inl (Wrap ''phone request'' e), s')
           | (Inr r, s') \<Rightarrow> (Inr r, s')))"

definition request :: "'w phone_net \<Rightarrow> 'w digest_env \<Rightarrow> client \<Rightarrow> string \<Rightarrow> string \<Rightarrow> json option \<Rightarrow> bool \<Rightarrow> 'w wire \<Rightarrow>
    http_response result \<times> 'w wire" where
  "request net dg c meth endpoint body withDigest s =
     (case send_request net c meth endpoint body None s of
        (Inl e, s1) \<Rightarrow> (Inl e, s1)
      | (Inr response, s1) \<Rightarrow>
          if \<not> withDigest \<or> resp_status response \<noteq> 401 then (Inr response, s1)
          else (case resp_close response of
              Some e \<Rightarrow> (Inl (Wrap ''close phone digest challenge response'' e), s1)
            | None \<Rightarrow>
                let uri = RequestURI net (JoinPath net (baseURL c) [managementPath, endpoint]) in
                (case digestAuthorization dg (resp_www_auth response) meth uri (username c) (password c) (snd s1) of
                   (Inl e, w) \<Rightarrow> (Inl e, (fst s1, w))
                 | (Inr authorization, w) \<Rightarrow> send_request net c meth endpoint body (Some authorization) (fst s1, w))))"

definition authenticatedRequest :: "'w phone_net \<Rightarrow> 'w digest_env \<Rightarrow> client \<Rightarrow> string \<Rightarrow> string \<Rightarrow> json option \<Rightarrow> 'w wire \<Rightarrow>
    http_response result \<times> 'w wire" where
  "authenticatedRequest net dg c meth endpoint body s =
     (case request net dg c meth endpoint body False s of
        (Inl e, s1) \<Rightarrow> (Inl e, s1)
      | (Inr response, s1) \<Rightarrow>
          if resp_status response \<noteq> 401 then (Inr response, s1)
          else (case resp_close response of
              Some e \<Rightarrow> (Inl (Wrap ''close unauthenticated phone response'' e), s1)
            | None \<Rightarrow> request net dg c meth endpoint body True s1))"

definition decodeResponse :: "'a \<Rightarrow> 'a decoder \<Rightarrow> http_response \<Rightarrow> 'a result" where
  "decodeResponse zero dec r =
     (if resp_status r < 200 \<or> 300 \<le> resp_status r then
        Inl (Msg (''phone management request: HTTP status '' @ int_digits (resp_status r)))
      else (case resp_doc r of
          None \<Rightarrow> Inl (Wrap ''decode phone response'' (Msg ''invalid JSON''))
        | Some j \<Rightarrow>
            (case dec_struct
                [fld ''data'' dec_raw (\<lambda>e. JNull) (\<lambda>v e. (Some v, snd e)),
                 fld ''Status'' dec_string snd (\<lambda>v e. (fst e, v))] (None, []) j of
               None \<Rightarrow> Inl (Wrap ''decode phone response'' (Msg ''json type error''))
             | Some (data, status) \<Rightarrow>
                 (case data of
                    None \<Rightarrow> Inl (Wrap ''decode phone response data'' (Msg ''unexpected end of JSON input''))
                  | Some d \<Rightarrow>
                      (case dec zero d of
                         None \<Rightarrow> Inl (Wrap ''decode phone response data'' (Msg ''json type error''))
                       | Some a \<Rightarrow> Inr a)))))"

text \<open>\<^verbatim>\<open>read\<close> and \<^verbatim>\<open>authenticatedJSON\<close>; the reads are the GET calls of the interface.\<close>

definition authenticatedJSON :: "'w phone_net \<Rightarrow> 'w digest_env \<Rightarrow> client \<Rightarrow> string \<Rightarrow> string \<Rightarrow> json option \<Rightarrow> 'a \<Rightarrow> 'a decoder \<Rightarrow>
    'w wire \<Rightarrow> 'a result \<times> 'w wire" where
  "authenticatedJSON net dg c meth endpoint body zero dec s =
     (case authenticatedRequest net dg c meth endpoint body s of
        (Inl e, s1) \<Rightarrow> (Inl e, s1)
      | (Inr response, s1) \<Rightarrow> (decodeResponse zero dec response, s1))"

definition read :: "'w phone_net \<Rightarrow> 'w digest_env \<Rightarrow> client \<Rightarrow> string \<Rightarrow> 'a \<Rightarrow> 'a decoder \<Rightarrow> 'w wire \<Rightarrow> 'a result \<times> 'w wire" where
  "read net dg c endpoint zero dec s = authenticatedJSON net dg c ''GET'' endpoint None zero dec s"

definition probe_error :: "int \<Rightarrow> state \<times> goerr option" where
  "probe_error status = (StateUnreachable, Some (Msg (''phone probe: unexpected HTTP status '' @ int_digits status)))"

definition client_Probe :: "'w phone_net \<Rightarrow> 'w digest_env \<Rightarrow> client \<Rightarrow> 'w wire \<Rightarrow> (state \<times> goerr option) \<times> 'w wire" where
  "client_Probe net dg c s =
     (case request net dg c ''GET'' ''device/info'' None False s of
        (Inl e, s1) \<Rightarrow> ((StateUnreachable, Some e), s1)
      | (Inr response, s1) \<Rightarrow>
          if resp_status response = 404 then ((StateAPIDisabled, None), s1)
          else if resp_status response = 401 then
            (if resp_www_auth response = [] then ((StateAuthFailed, None), s1)
             else (case request net dg c ''GET'' ''device/info'' None True s1 of
                 (Inl e, s2) \<Rightarrow> ((StateUnreachable, Some e), s2)
               | (Inr response2, s2) \<Rightarrow>
                   if resp_status response2 = 401 then ((StateAuthFailed, None), s2)
                   else if 200 \<le> resp_status response2 \<and> resp_status response2 < 300 then ((StateOK, None), s2)
                   else (probe_error (resp_status response2), s2)))
          else if resp_status response \<in> {200, 201, 202, 204} then ((StateOK, None), s1)
          else (probe_error (resp_status response), s1))"

section \<open>The answers\<close>

definition dec_line :: "line decoder" where
  "dec_line = dec_struct
     [fld ''LineNumber'' dec_string LineNumber (\<lambda>v r. r\<lparr>LineNumber := v\<rparr>),
      fld ''RegistrationStatus'' dec_string RegistrationStatus (\<lambda>v r. r\<lparr>RegistrationStatus := v\<rparr>),
      fld ''LineType'' dec_string LineType (\<lambda>v r. r\<lparr>LineType := v\<rparr>),
      fld ''SIPAddress'' dec_string SIPAddress (\<lambda>v r. r\<lparr>SIPAddress := v\<rparr>),
      fld ''Label'' dec_string Label (\<lambda>v r. r\<lparr>Label := v\<rparr>),
      fld ''UserID'' dec_string ln_UserID (\<lambda>v r. r\<lparr>ln_UserID := v\<rparr>)]"

definition zero_line :: line where
  "zero_line = \<lparr>LineNumber = [], RegistrationStatus = [], LineType = [], SIPAddress = [], Label = [], ln_UserID = []\<rparr>"

definition dec_device_info :: "device_info decoder" where
  "dec_device_info = dec_struct
     [fld ''ModelNumber'' dec_string ModelNumber (\<lambda>v r. r\<lparr>ModelNumber := v\<rparr>),
      fld ''FirmwareRelease'' dec_string FirmwareRelease (\<lambda>v r. r\<lparr>FirmwareRelease := v\<rparr>),
      fld ''DeviceType'' dec_string DeviceType (\<lambda>v r. r\<lparr>DeviceType := v\<rparr>),
      fld ''DeviceVendor'' dec_string DeviceVendor (\<lambda>v r. r\<lparr>DeviceVendor := v\<rparr>),
      fld ''UpTimeSinceLastReboot'' dec_string UpTimeSinceLastReboot (\<lambda>v r. r\<lparr>UpTimeSinceLastReboot := v\<rparr>),
      fld ''IPV4Address'' dec_string di_IPV4Address (\<lambda>v r. r\<lparr>di_IPV4Address := v\<rparr>),
      fld ''IPV6Address'' dec_string IPV6Address (\<lambda>v r. r\<lparr>IPV6Address := v\<rparr>),
      fld ''MACAddress'' dec_string MACAddress (\<lambda>v r. r\<lparr>MACAddress := v\<rparr>)]"

definition zero_device_info :: device_info where
  "zero_device_info = \<lparr>ModelNumber = [], FirmwareRelease = [], DeviceType = [], DeviceVendor = [],
     UpTimeSinceLastReboot = [], di_IPV4Address = [], IPV6Address = [], MACAddress = []\<rparr>"

definition dec_network_stats :: "network_stats decoder" where
  "dec_network_stats = dec_struct
     [fld ''UpTime'' dec_string UpTime (\<lambda>v r. r\<lparr>UpTime := v\<rparr>),
      fld ''RxPackets'' dec_string RxPackets (\<lambda>v r. r\<lparr>RxPackets := v\<rparr>),
      fld ''TxPackets'' dec_string TxPackets (\<lambda>v r. r\<lparr>TxPackets := v\<rparr>)]"

definition zero_network_stats :: network_stats where
  "zero_network_stats = \<lparr>UpTime = [], RxPackets = [], TxPackets = []\<rparr>"

definition dec_network_info :: "network_info decoder" where
  "dec_network_info = dec_struct
     [fld ''DHCP'' dec_string DHCP (\<lambda>v r. r\<lparr>DHCP := v\<rparr>),
      fld ''DHCPServer'' dec_string DHCPServer (\<lambda>v r. r\<lparr>DHCPServer := v\<rparr>),
      fld ''DHCPBootServerOption'' dec_string DHCPBootServerOption (\<lambda>v r. r\<lparr>DHCPBootServerOption := v\<rparr>),
      fld ''IPV4Address'' dec_string IPV4Address (\<lambda>v r. r\<lparr>IPV4Address := v\<rparr>),
      fld ''DefaultGateway'' dec_string DefaultGateway (\<lambda>v r. r\<lparr>DefaultGateway := v\<rparr>),
      fld ''SubnetMask'' dec_string SubnetMask (\<lambda>v r. r\<lparr>SubnetMask := v\<rparr>),
      fld ''DNSServer'' dec_string DNSServer (\<lambda>v r. r\<lparr>DNSServer := v\<rparr>),
      fld ''AlternateDNSServer'' dec_string AlternateDNSServer (\<lambda>v r. r\<lparr>AlternateDNSServer := v\<rparr>),
      fld ''DNSDomain'' dec_string DNSDomain (\<lambda>v r. r\<lparr>DNSDomain := v\<rparr>),
      fld ''SNTPAddress'' dec_string SNTPAddress (\<lambda>v r. r\<lparr>SNTPAddress := v\<rparr>),
      fld ''LANPortStatus'' dec_string LANPortStatus (\<lambda>v r. r\<lparr>LANPortStatus := v\<rparr>),
      fld ''LANSpeed'' dec_string LANSpeed (\<lambda>v r. r\<lparr>LANSpeed := v\<rparr>)]"

definition zero_network_info :: network_info where
  "zero_network_info = \<lparr>DHCP = [], DHCPServer = [], DHCPBootServerOption = [], IPV4Address = [], DefaultGateway = [],
     SubnetMask = [], DNSServer = [], AlternateDNSServer = [], DNSDomain = [], SNTPAddress = [], LANPortStatus = [], LANSpeed = []\<rparr>"

definition dec_call_logs :: "call_logs decoder" where
  "dec_call_logs = dec_struct
     [fld ''Missed'' (dec_list JNull dec_raw) Missed (\<lambda>v r. r\<lparr>Missed := v\<rparr>),
      fld ''Received'' (dec_list JNull dec_raw) Received (\<lambda>v r. r\<lparr>Received := v\<rparr>),
      fld ''Placed'' (dec_list JNull dec_raw) Placed (\<lambda>v r. r\<lparr>Placed := v\<rparr>)]"

definition zero_call_logs :: call_logs where
  "zero_call_logs = \<lparr>Missed = [], Received = [], Placed = []\<rparr>"

definition dec_config_param :: "config_param decoder" where
  "dec_config_param = dec_struct
     [fld ''Value'' dec_string cp_Value (\<lambda>v r. r\<lparr>cp_Value := v\<rparr>),
      fld ''Source'' dec_string cp_Source (\<lambda>v r. r\<lparr>cp_Source := v\<rparr>)]"

definition dec_config :: "((string \<rightharpoonup> config_param) \<times> string list) decoder" where
  "dec_config = dec_struct
     [fld ''data'' (dec_dict \<lparr>cp_Value = [], cp_Source = []\<rparr> dec_config_param) fst (\<lambda>v r. (v, snd r)),
      fld ''InvalidParams'' (dec_list [] dec_string) snd (\<lambda>v r. (fst r, v))]"

definition client_ConfigGet :: "'w phone_net \<Rightarrow> 'w digest_env \<Rightarrow> client \<Rightarrow> string list \<Rightarrow> 'w wire \<Rightarrow>
    ((string \<rightharpoonup> config_param) \<times> string list) result \<times> 'w wire" where
  "client_ConfigGet net dg c params s =
     (case authenticatedRequest net dg c ''POST'' ''config/get'' (Some (JObj [(''data'', if params = [] then JNull else JArr (map JStr params))])) s of
        (Inl e, s1) \<Rightarrow> (Inl e, s1)
      | (Inr r, s1) \<Rightarrow>
          if resp_status r < 200 \<or> 300 \<le> resp_status r then
            (Inl (Msg (''phone management request: HTTP status '' @ int_digits (resp_status r))), s1)
          else (case resp_doc r of
              None \<Rightarrow> (Inl (Wrap ''decode config/get response'' (Msg ''invalid JSON'')), s1)
            | Some j \<Rightarrow>
                (case dec_config (Map.empty, []) j of
                   None \<Rightarrow> (Inl (Wrap ''decode config/get response'' (Msg ''json type error'')), s1)
                 | Some p \<Rightarrow> (Inr p, s1))))"

definition client_DeviceInfo :: "'w phone_net \<Rightarrow> 'w digest_env \<Rightarrow> client \<Rightarrow> 'w wire \<Rightarrow> device_info result \<times> 'w wire" where
  "client_DeviceInfo net dg c = read net dg c ''device/info'' zero_device_info dec_device_info"

definition client_LineInfo :: "'w phone_net \<Rightarrow> 'w digest_env \<Rightarrow> client \<Rightarrow> 'w wire \<Rightarrow> line list result \<times> 'w wire" where
  "client_LineInfo net dg c = read net dg c ''lineInfo'' [] (dec_list zero_line dec_line)"

definition client_NetworkStats :: "'w phone_net \<Rightarrow> 'w digest_env \<Rightarrow> client \<Rightarrow> 'w wire \<Rightarrow> network_stats result \<times> 'w wire" where
  "client_NetworkStats net dg c = read net dg c ''network/stats'' zero_network_stats dec_network_stats"

definition client_NetworkInfo :: "'w phone_net \<Rightarrow> 'w digest_env \<Rightarrow> client \<Rightarrow> 'w wire \<Rightarrow> network_info result \<times> 'w wire" where
  "client_NetworkInfo net dg c = read net dg c ''network/info'' zero_network_info dec_network_info"

definition client_CallLogs :: "'w phone_net \<Rightarrow> 'w digest_env \<Rightarrow> client \<Rightarrow> 'w wire \<Rightarrow> call_logs result \<times> 'w wire" where
  "client_CallLogs net dg c = read net dg c ''callLogs'' zero_call_logs dec_call_logs"

text \<open>The client as the interface of the collectors.\<close>

definition client_api :: "'w phone_net \<Rightarrow> 'w digest_env \<Rightarrow> client \<Rightarrow> 'w wire phone_api" where
  "client_api net dg c =
     \<lparr>Probe = client_Probe net dg c, NetworkStats = client_NetworkStats net dg c, NetworkInfo = client_NetworkInfo net dg c,
      CallLogs = client_CallLogs net dg c, LineInfo = client_LineInfo net dg c, ConfigGet = client_ConfigGet net dg c\<rparr>"

section \<open>Identity and requests\<close>

lemma normalizedMAC_Inr:
  assumes "normalizedMAC s = Inr m"
  shows "m = map upper_char (filter (\<lambda>c. c \<notin> mac_separators) s)" "length m = 12" "list_all is_hex m"
proof -
  let ?v = "filter (\<lambda>c. c \<notin> mac_separators) s"
  from assms have v: "length ?v = 12" "list_all is_hex ?v" and m: "m = to_upper ?v"
    by (auto simp: normalizedMAC_def Let_def hex_ok_def split: if_splits)
  then show "m = map upper_char ?v" by (simp add: to_upper_ascii list_all_iff is_hex_ascii)
  with v show "length m = 12" "list_all is_hex m" by (simp_all add: list_all_iff)
qed

lemma hex_not_separator: "is_hex c \<Longrightarrow> c \<notin> mac_separators"
  by (auto simp: mac_separators_def char_defs)

lemma normalizedMAC_idem:
  assumes "normalizedMAC s = Inr m" shows "normalizedMAC m = Inr m"
proof -
  note n = normalizedMAC_Inr [OF assms]
  have "filter (\<lambda>c. c \<notin> mac_separators) m = m" using n(3) by (auto simp: list_all_iff hex_not_separator filter_id_conv)
  moreover have "to_upper m = m" using n(3) by (simp add: to_upper_ascii list_all_iff is_hex_ascii n(1))
  ultimately show ?thesis using n by (simp add: normalizedMAC_def hex_ok_def)
qed

text \<open>The same digits in either case with other separators give the same identity.\<close>

lemma normalizedMAC_cong:
  assumes "normalizedMAC s = Inr m"
    "map lower_char (filter (\<lambda>c. c \<notin> mac_separators) t) = map lower_char (filter (\<lambda>c. c \<notin> mac_separators) s)"
  shows "normalizedMAC t = Inr m"
proof -
  let ?s = "filter (\<lambda>c. c \<notin> mac_separators) s" and ?t = "filter (\<lambda>c. c \<notin> mac_separators) t"
  have up: "map upper_char (map lower_char x) = map upper_char x" for x by (simp add: upper_lower_char)
  have h: "map upper_char ?t = m" using arg_cong [OF assms(2), of "map upper_char"] normalizedMAC_Inr(1) [OF assms(1)] by (simp only: up)
  then have "length ?t = 12" "list_all is_hex ?t"
    using normalizedMAC_Inr(2,3) [OF assms(1)] by (auto simp: list_all_iff)
  then show ?thesis using h by (simp add: normalizedMAC_def hex_ok_def to_upper_ascii list_all_iff is_hex_ascii)
qed

lemma VerifyConnection_accepts:
  assumes "VerifyConnection net c certs = None"
  shows "\<exists>leaf rest. certs = leaf # rest \<and> normalizedMAC (CommonName leaf) = Inr (wantCN c) \<and>
    (\<forall>roots. chain_roots c = Some roots \<longrightarrow> verify_chain net roots certs = None)"
  using assms by (auto simp: VerifyConnection_def split: list.splits option.splits sum.splits if_splits)

definition rejects :: "'w phone_net \<Rightarrow> client \<Rightarrow> bool" where
  "rejects net c \<longleftrightarrow> (\<forall>w. VerifyConnection net c (peer_certs net w) \<noteq> None)"

lemma send_request_trace:
  assumes "send_request net c meth ep body auth s = (r, s')"
  shows "fst s' = fst s \<and> \<not> isOK r \<or>
    fst s' = fst s @ [phone_request net c meth ep body auth] \<and> VerifyConnection net c (peer_certs net (snd s)) = None"
  using assms by (auto simp: send_request_def http_do_def Let_def split: option.splits prod.splits sum.splits)

lemma send_request_rejected:
  assumes "rejects net c" shows "\<exists>e. send_request net c meth ep body auth s = (Inl e, s)"
proof -
  from assms obtain e where "VerifyConnection net c (peer_certs net (snd s)) = Some e" by (auto simp: rejects_def)
  then show ?thesis by (simp add: send_request_def http_do_def split: option.splits)
qed

lemma request_rejected: "rejects net c \<Longrightarrow> \<exists>e. request net dg c meth ep body d s = (Inl e, s)"
  using send_request_rejected [of net c meth ep body None s] by (auto simp: request_def)

lemma authenticatedRequest_rejected: "rejects net c \<Longrightarrow> \<exists>e. authenticatedRequest net dg c meth ep body s = (Inl e, s)"
  using request_rejected [of net c dg meth ep body False s] by (auto simp: authenticatedRequest_def)

text \<open>
  The requests of one call: the plain request, once or twice, and then the one with credentials, which is
  sent only for the header made from a 401 answer to the second plain one.
\<close>

definition challenged :: "'w phone_net \<Rightarrow> 'w digest_env \<Rightarrow> client \<Rightarrow> http_request \<Rightarrow> string \<Rightarrow> bool" where
  "challenged net dg c plain a \<longleftrightarrow>
     (\<exists>w w1 w2 response. VerifyConnection net c (peer_certs net w) = None \<and> exchange net plain w = (Inr response, w1) \<and>
        resp_status response = 401 \<and>
        digestAuthorization dg (resp_www_auth response) (rq_method plain) (RequestURI net (rq_url plain)) (username c) (password c) w1 = (Inr a, w2))"

lemma send_request_Inr:
  assumes "send_request net c meth ep body auth s = (Inr response, s')"
  shows "VerifyConnection net c (peer_certs net (snd s)) = None"
    "exchange net (phone_request net c meth ep body auth) (snd s) = (Inr response, snd s')"
    "fst s' = fst s @ [phone_request net c meth ep body auth]"
  using assms by (auto simp: send_request_def http_do_def Let_def split: option.splits prod.splits sum.splits)

lemma request_plain_trace:
  assumes "request net dg c meth ep body False s = (r, s')"
  shows "fst s' = fst s \<or> fst s' = fst s @ [phone_request net c meth ep body None]"
proof -
  obtain r1 s1 where q: "send_request net c meth ep body None s = (r1, s1)" by (rule prod.exhaust)
  with assms have "s' = s1" by (auto simp: request_def split: sum.splits)
  with send_request_trace [OF q] show ?thesis by auto
qed

lemma request_digest_trace:
  assumes "request net dg c meth ep body True s = (r, s')"
  shows "\<exists>ts. fst s' = fst s @ ts \<and> (ts \<in> {[], [phone_request net c meth ep body None]} \<or>
    (\<exists>a. ts = [phone_request net c meth ep body None, phone_request net c meth ep body (Some a)] \<and>
      challenged net dg c (phone_request net c meth ep body None) a))"
proof -
  obtain r1 s1 where q: "send_request net c meth ep body None s = (r1, s1)" by (rule prod.exhaust)
  show ?thesis
  proof (cases r1)
    case (Inl e)
    with assms q have "s' = s1" by (auto simp: request_def)
    with send_request_trace [OF q] show ?thesis by auto
  next
    case (Inr response)
    note q1 = send_request_Inr [OF q [unfolded Inr]]
    let ?uri = "RequestURI net (JoinPath net (baseURL c) [managementPath, ep])"
    show ?thesis
    proof (cases "resp_status response = 401 \<and> resp_close response = None")
      case False
      with assms q Inr have "s' = s1" by (auto simp: request_def split: option.splits if_splits)
      with q1 show ?thesis by auto
    next
      case True
      obtain ra w where d: "digestAuthorization dg (resp_www_auth response) meth ?uri (username c) (password c) (snd s1) = (ra, w)"
        by fastforce
      show ?thesis
      proof (cases ra)
        case (Inl e)
        with assms q Inr True d \<open>r1 = Inr response\<close> have "fst s' = fst s1" by (auto simp: request_def Let_def)
        with q1 show ?thesis by auto
      next
        case a: (Inr a)
        with assms q True d \<open>r1 = Inr response\<close> have q2: "send_request net c meth ep body (Some a) (fst s1, w) = (r, s')"
          by (simp add: request_def Let_def)
        have "challenged net dg c (phone_request net c meth ep body None) a"
          using q1 True d a by (auto simp: challenged_def phone_request_def)
        with send_request_trace [OF q2] q1 show ?thesis by auto
      qed
    qed
  qed
qed

lemma authenticatedRequest_trace:
  assumes "authenticatedRequest net dg c meth ep body s = (r, s')"
  shows "\<exists>ts. fst s' = fst s @ ts \<and> ((\<exists>n \<le> 2. ts = replicate n (phone_request net c meth ep body None)) \<or>
    (\<exists>a. ts = replicate 2 (phone_request net c meth ep body None) @ [phone_request net c meth ep body (Some a)] \<and>
      challenged net dg c (phone_request net c meth ep body None) a))"
proof -
  obtain r1 s1 where q: "request net dg c meth ep body False s = (r1, s1)" by (rule prod.exhaust)
  from request_plain_trace [OF q] have t1: "fst s1 = fst s \<or> fst s1 = fst s @ [phone_request net c meth ep body None]" .
  consider "s' = s1" | "request net dg c meth ep body True s1 = (r, s')" "fst s1 = fst s @ [phone_request net c meth ep body None]"
  proof (cases r1)
    case (Inr response)
    with q have "send_request net c meth ep body None s = (Inr response, s1)"
      by (auto simp: request_def split: sum.splits prod.splits)
    from send_request_Inr(3) [OF this] that assms q Inr show ?thesis
      by (auto simp: authenticatedRequest_def split: if_splits option.splits)
  qed (use assms q that in \<open>auto simp: authenticatedRequest_def\<close>)
  then show ?thesis
  proof cases
    case 1
    then have "\<exists>n \<le> 2. fst s' = fst s @ replicate n (phone_request net c meth ep body None)"
      using t1 by (elim disjE) (rule exI [of _ 0], simp, rule exI [of _ 1], simp)
    then show ?thesis by auto
  next
    case 2
    from request_digest_trace [OF 2(1)] obtain ts where ts: "fst s' = fst s1 @ ts"
      "ts \<in> {[], [phone_request net c meth ep body None]} \<or>
        (\<exists>a. ts = [phone_request net c meth ep body None, phone_request net c meth ep body (Some a)] \<and>
          challenged net dg c (phone_request net c meth ep body None) a)" by blast
    then consider "ts = []" | "ts = [phone_request net c meth ep body None]"
      | a where "ts = [phone_request net c meth ep body None, phone_request net c meth ep body (Some a)]"
        "challenged net dg c (phone_request net c meth ep body None) a" by blast
    then show ?thesis
    proof cases
      case 1
      with ts(1) 2(2) have "fst s' = fst s @ replicate 1 (phone_request net c meth ep body None)" by simp
      then show ?thesis by (metis one_le_numeral)
    next
      case 2
      with ts(1) \<open>fst s1 = _\<close> have "fst s' = fst s @ replicate 2 (phone_request net c meth ep body None)"
        by (simp add: eval_nat_numeral)
      then show ?thesis by (metis order_refl)
    next
      case (3 a)
      with ts(1) \<open>fst s1 = _\<close> have "fst s' = fst s @ replicate 2 (phone_request net c meth ep body None) @ [phone_request net c meth ep body (Some a)]"
        by (simp add: eval_nat_numeral)
      with 3 show ?thesis by blast
    qed
  qed
qed

section \<open>The calls of the interface\<close>

definition read_only :: "'w phone_net \<Rightarrow> client \<Rightarrow> http_request \<Rightarrow> bool" where
  "read_only net c rq \<longleftrightarrow>
     rq_url rq = JoinPath net (baseURL c) [managementPath, rq_endpoint rq] \<and>
     (rq_method rq = ''GET'' \<and> rq_body rq = None \<or> rq_method rq = ''POST'' \<and> rq_endpoint rq = ''config/get'')"

definition adds_read_only :: "'w phone_net \<Rightarrow> client \<Rightarrow> 'w wire \<Rightarrow> 'w wire \<Rightarrow> bool" where
  "adds_read_only net c s s' \<longleftrightarrow> (\<exists>ts. fst s' = fst s @ ts \<and> list_all (read_only net c) ts)"

lemma adds_read_only_trans: "adds_read_only net c s s' \<Longrightarrow> adds_read_only net c s' s'' \<Longrightarrow> adds_read_only net c s s''"
  by (auto simp: adds_read_only_def)

lemma read_only_request:
  "meth = ''GET'' \<and> body = None \<or> meth = ''POST'' \<and> ep = ''config/get'' \<Longrightarrow> read_only net c (phone_request net c meth ep body auth)"
  by (auto simp: read_only_def phone_request_def)

lemma authenticatedRequest_read_only:
  assumes "authenticatedRequest net dg c meth ep body s = (r, s')"
    "meth = ''GET'' \<and> body = None \<or> meth = ''POST'' \<and> ep = ''config/get''"
  shows "adds_read_only net c s s'"
  using authenticatedRequest_trace [OF assms(1)] read_only_request [OF assms(2)]
  by (auto simp: adds_read_only_def list_all_iff)

lemma read_only_get: "read_only net c (phone_request net c ''GET'' ep None auth)"
  by (rule read_only_request) simp

lemma request_read_only:
  assumes "request net dg c ''GET'' ep None d s = (r, s')" shows "adds_read_only net c s s'"
proof (cases d)
  case True
  with assms have "request net dg c ''GET'' ep None True s = (r, s')" by simp
  from request_digest_trace [OF this] show ?thesis
    unfolding adds_read_only_def by (elim exE conjE disjE) (auto simp: read_only_get)
next
  case False
  with assms have "request net dg c ''GET'' ep None False s = (r, s')" by simp
  from request_plain_trace [OF this] show ?thesis
    unfolding adds_read_only_def by (elim disjE) (auto simp: read_only_get)
qed

lemma read_read_only: "read net dg c ep zero dec s = (r, s') \<Longrightarrow> adds_read_only net c s s'"
  by (auto simp: read_def authenticatedJSON_def split: prod.splits sum.splits intro: authenticatedRequest_read_only)

lemma ConfigGet_read_only: "client_ConfigGet net dg c params s = (r, s') \<Longrightarrow> adds_read_only net c s s'"
  by (auto simp: client_ConfigGet_def split: prod.splits sum.splits if_splits option.splits intro: authenticatedRequest_read_only)

lemma Probe_read_only:
  assumes "client_Probe net dg c s = (r, s')" shows "adds_read_only net c s s'"
proof -
  obtain r1 s1 where q: "request net dg c ''GET'' ''device/info'' None False s = (r1, s1)" by (rule prod.exhaust)
  note t1 = request_read_only [OF q]
  show ?thesis
  proof (cases "s' = s1")
    case True
    with t1 show ?thesis by simp
  next
    case False
    with assms q obtain r2 where "request net dg c ''GET'' ''device/info'' None True s1 = (r2, s')"
      by (auto simp: client_Probe_def split: prod.splits sum.splits if_splits)
    from adds_read_only_trans [OF t1 request_read_only [OF this]] show ?thesis .
  qed
qed

lemma Probe_rejected: "rejects net c \<Longrightarrow> \<exists>e. client_Probe net dg c s = ((StateUnreachable, Some e), s)"
  using request_rejected [of net c dg "''GET''" "''device/info''" None False s] by (auto simp: client_Probe_def)

lemma ConfigGet_rejected: "rejects net c \<Longrightarrow> \<exists>e. client_ConfigGet net dg c params s = (Inl e, s)"
  using authenticatedRequest_rejected [of net c dg "''POST''" "''config/get''"
      "Some (JObj [(''data'', if params = [] then JNull else JArr (map JStr params))])" s]
  by (auto simp: client_ConfigGet_def)

lemma read_rejected: "rejects net c \<Longrightarrow> \<exists>e. read net dg c ep zero dec s = (Inl e, s)"
  using authenticatedRequest_rejected [of net c dg "''GET''" ep None s] by (auto simp: read_def authenticatedJSON_def)

lemma New_wantCN: "New net cfg = Inr c \<Longrightarrow> normalizedMAC (DeviceMAC cfg) = Inr (wantCN c)"
  by (auto simp: New_def split: sum.splits if_splits)

lemma mismatch_rejects:
  assumes "New net cfg = Inr c"
    "\<And>w leaf rest. peer_certs net w = leaf # rest \<Longrightarrow> normalizedMAC (CommonName leaf) \<noteq> normalizedMAC (DeviceMAC cfg)"
  shows "rejects net c"
  using assms(2) New_wantCN [OF assms(1)] unfolding rejects_def by (metis VerifyConnection_accepts)

section \<open>An example phone\<close>

definition ex_net :: "string \<Rightarrow> unit phone_net" where
  "ex_net cn =
     \<lparr>url_Parse = (\<lambda>s. Inr \<lparr>Scheme = ''https'', Host = ''10.0.0.1'', Path = []\<rparr>),
      JoinPath = (\<lambda>u ps. u\<lparr>Path := concat ps\<rparr>), RequestURI = Path, NewRequest = (\<lambda>_ _. None),
      verify_chain = (\<lambda>_ _. None), read_pem = (\<lambda>_. Inr []), append_pem = (\<lambda>_. True),
      peer_certs = (\<lambda>_. [\<lparr>CommonName = cn, der = []\<rparr>]),
      exchange = (\<lambda>rq w. (Inr \<lparr>resp_status = (if length (rq_headers rq) = 0 then 401 else 200), resp_www_auth = ex_challenge,
         resp_doc = Some (JObj [(''data'', JObj [])]), resp_close = None\<rparr>, w))\<rparr>"

definition ex_client_config :: client_config where
  "ex_client_config = \<lparr>BaseURL = ''https://10.0.0.1'', DeviceMAC = ''00:04:f2:00:00:01'', Username = [], Password = ''pw'',
     Timeout = 0, cfg_TLS = \<lparr>VerifyChain = False, CAFile = []\<rparr>\<rparr>"

definition ex_client :: client where
  "ex_client = \<lparr>baseURL = \<lparr>Scheme = ''https'', Host = ''10.0.0.1'', Path = []\<rparr>, username = ''Polycom'', password = ''pw'',
     timeout = 15000000000, wantCN = ''0004F2000001'', chain_roots = None\<rparr>"

lemma ex_New: "New (ex_net cn) ex_client_config = Inr ex_client"
  by code_simp

section \<open>Properties\<close>

text \<open>
  C5 (identity before credentials). With a client made for a device, when the certificate the peer
  presents does not carry that device's MAC address as its name, no call of the interface sends any
  request at all, and each of them returns an error.
\<close>

theorem identity_before_credentials:
  assumes "New net cfg = Inr c"
    and "\<And>w leaf rest. peer_certs net w = leaf # rest \<Longrightarrow> normalizedMAC (CommonName leaf) \<noteq> normalizedMAC (DeviceMAC cfg)"
  shows "(\<exists>e. client_Probe net dg c s = ((StateUnreachable, Some e), s)) \<and>
    (\<exists>e. client_NetworkStats net dg c s = (Inl e, s)) \<and> (\<exists>e. client_NetworkInfo net dg c s = (Inl e, s)) \<and>
    (\<exists>e. client_CallLogs net dg c s = (Inl e, s)) \<and> (\<exists>e. client_LineInfo net dg c s = (Inl e, s)) \<and>
    (\<exists>e. client_DeviceInfo net dg c s = (Inl e, s)) \<and> (\<exists>e. client_ConfigGet net dg c params s = (Inl e, s))"
  using mismatch_rejects [OF assms]
  by (auto simp: client_NetworkStats_def client_NetworkInfo_def client_CallLogs_def client_LineInfo_def client_DeviceInfo_def
      intro: Probe_rejected read_rejected ConfigGet_rejected)

lemma identity_before_credentials_witness:
  "\<exists>e. client_NetworkStats (ex_net ''64167F000002'') ex_digest_env ex_client ([], ()) = (Inl e, ([], ()))"
proof -
  have "normalizedMAC (CommonName leaf) \<noteq> normalizedMAC (DeviceMAC ex_client_config)"
    if "peer_certs (ex_net ''64167F000002'') w = leaf # rest" for w leaf rest
  proof -
    have "leaf = \<lparr>CommonName = ''64167F000002'', der = []\<rparr>" using that by (simp add: ex_net_def)
    moreover have "normalizedMAC ''64167F000002'' \<noteq> normalizedMAC (DeviceMAC ex_client_config)" by code_simp
    ultimately show ?thesis by simp
  qed
  then show ?thesis
    using identity_before_credentials [OF ex_New, of "''64167F000002''" ex_digest_env "([], ())"] by blast
qed




text \<open>
  Probe. \<^verbatim>\<open>Probe\<close> reports \<^verbatim>\<open>ok\<close>, \<^verbatim>\<open>api_disabled\<close> or \<^verbatim>\<open>auth_failed\<close> only without an error,
  \<^verbatim>\<open>unreachable\<close> only with one, and no other state.
\<close>

theorem probe_states:
  "client_Probe net dg c s = ((st, err), s') \<Longrightarrow>
     (err = None \<longleftrightarrow> st \<in> {StateOK, StateAPIDisabled, StateAuthFailed}) \<and> (err \<noteq> None \<longleftrightarrow> st = StateUnreachable)"
  by (auto simp: client_Probe_def probe_error_def state_defs split: prod.splits sum.splits if_splits)

lemma probe_states_witness:
  "\<exists>st err s'. client_Probe (ex_net ''0004F2000001'') ex_digest_env ex_client ([], ()) = ((st, err), s') \<and>
     (err = None \<longleftrightarrow> st \<in> {StateOK, StateAPIDisabled, StateAuthFailed})"
proof -
  obtain st err s' where p: "client_Probe (ex_net ''0004F2000001'') ex_digest_env ex_client ([], ()) = ((st, err), s')"
    by (metis prod.exhaust)
  from probe_states [OF p] p show ?thesis by blast
qed

text \<open>
  MAC addresses. A normalised address has twelve hexadecimal digits, is its own normal form, and is
  also that of every other way to write the same digits, in either case and with colons,
  hyphens, dots or blanks anywhere.
\<close>

theorem normalizedMAC_canonical:
  assumes "normalizedMAC a = Inr m"
  shows "length m = 12 \<and> list_all is_hex m \<and> normalizedMAC m = Inr m \<and>
    (\<forall>b. map lower_char (filter (\<lambda>x. x \<notin> mac_separators) b) = map lower_char (filter (\<lambda>x. x \<notin> mac_separators) a) \<longrightarrow>
       normalizedMAC b = Inr m)"
  using normalizedMAC_Inr [OF assms] normalizedMAC_idem [OF assms] normalizedMAC_cong [OF assms] by blast

lemma normalizedMAC_canonical_witness:
  "normalizedMAC ''0004-f200-0001'' = Inr ''0004F2000001''"
proof -
  have m: "normalizedMAC ''00:04:F2:00:00:01'' = Inr ''0004F2000001''" by code_simp
  have "map lower_char (filter (\<lambda>x. x \<notin> mac_separators) ''0004-f200-0001'') =
      map lower_char (filter (\<lambda>x. x \<notin> mac_separators) ''00:04:F2:00:00:01'')" by code_simp
  with normalizedMAC_canonical [OF m] show ?thesis by blast
qed

end
