(* ===== verification/PhoneTarget.thy ===== *)
theory PhoneTarget
  imports LensClient PhoneClient
begin

text \<open>
  \<^verbatim>\<open>internal/phonetarget\<close>: from a Lens inventory to identity-checked phone clients. Modelled are the
  \<^verbatim>\<open>Secret\<close> wrapper (\<^verbatim>\<open>secret.go\<close>), the policy source that finds the local admin password of a device
  through the one winning policy (\<^verbatim>\<open>policy.go\<close>), and the resolver (\<^verbatim>\<open>resolve.go\<close>). The query client and
  the constructor of phone clients are arguments, as in the code.
\<close>

section \<open>Secrets\<close>

datatype secret = Secret "string option"

definition NewSecret :: "string \<Rightarrow> secret" where
  "NewSecret v = Secret (Some v)"

text \<open>\<^verbatim>\<open>UnmarshalJSON\<close> is called for \<^verbatim>\<open>null\<close> too, and then sets the empty string.\<close>

definition dec_secret :: "secret decoder" where
  "dec_secret cur j = map_option NewSecret (dec_string [] j)"

definition reveal :: "secret \<Rightarrow> string" where
  "reveal s = (case s of Secret None \<Rightarrow> [] | Secret (Some v) \<Rightarrow> v)"

definition secret_empty :: "secret \<Rightarrow> bool" where
  "secret_empty s = (case s of Secret None \<Rightarrow> True | Secret (Some v) \<Rightarrow> v = [])"

definition secret_String :: "secret \<Rightarrow> string" where
  "secret_String s = ''[redacted]''"

section \<open>The winning policy\<close>

definition localAdminPasswordAttribute :: string where
  "localAdminPasswordAttribute = ''device.auth.localAdminPassword''"

definition winningPolicySourceQuery :: string where
  "winningPolicySourceQuery = join [CHR 0x0A]
     [''query WinningPolicySource($tenantID: String!, $deviceID: String!) {'',
      ''  getDeviceParametersExtended(tenantId: $tenantID, deviceId: $deviceID, scope: DEVICE, sendOnlyChanged: false) {'',
      ''    name'',
      ''    policyDeploymentScope'',
      ''    collectionId'',
      ''    collectionName'',
      ''  }'',
      ''}'']"

definition winningPoliciesQuery :: string where
  "winningPoliciesQuery = join [CHR 0x0A]
     [''query WinningPolicies('',
      ''  $tenantID: String!'',
      ''  $deviceID: String'',
      ''  $deviceModel: String'',
      ''  $siteID: String'',
      ''  $groupID: String'',
      ''  $policyFamilyID: String'',
      ''  $scope: PolicyDeploymentScope!'',
      '') {'',
      ''  getPolicies('',
      ''    tenantId: $tenantID'',
      ''    deviceId: $deviceID'',
      ''    deviceModel: $deviceModel'',
      ''    siteId: $siteID'',
      ''    groupId: $groupID'',
      ''    policyFamilyId: $policyFamilyID'',
      ''    policyScope: $scope'',
      ''  ) {'',
      ''    policyId'',
      ''    configurationAttributes { name }'',
      ''  }'',
      ''}'']"

definition devicePolicyFamilyQuery :: string where
  "devicePolicyFamilyQuery = join [CHR 0x0A]
     [''query DevicePolicyFamily($deviceID: String!) {'',
      ''  device(id: $deviceID) {'',
      ''    model { hardwareFamily { policyFamilyId } }'',
      ''  }'',
      ''}'']"

definition localAdminPasswordQuery :: string where
  "localAdminPasswordQuery = join [CHR 0x0A]
     [''query PhoneLocalAdminPassword($policyID: String!) {'',
      ''  getPolicyById(policyId: $policyID) {'',
      ''    configurationAttributes { name currentValue }'',
      ''  }'',
      ''}'']"

record winning_policy_source =
  ps_Name :: string
  ps_Scope :: string
  CollectionID :: string

definition dec_policy_source :: "winning_policy_source decoder" where
  "dec_policy_source = dec_struct
     [fld ''name'' dec_string ps_Name (\<lambda>v s. s\<lparr>ps_Name := v\<rparr>),
      fld ''policyDeploymentScope'' dec_string ps_Scope (\<lambda>v s. s\<lparr>ps_Scope := v\<rparr>),
      fld ''collectionId'' dec_string CollectionID (\<lambda>v s. s\<lparr>CollectionID := v\<rparr>)]"

definition dec_sources :: "winning_policy_source list decoder" where
  "dec_sources = dec_struct
     [fld ''getDeviceParametersExtended'' (dec_list \<lparr>ps_Name = [], ps_Scope = [], CollectionID = []\<rparr> dec_policy_source)
        (\<lambda>r. r) (\<lambda>v r. v)]"

text \<open>A policy is its identifier and the names of its attributes.\<close>

type_synonym policy = "string \<times> string list"

definition dec_policy :: "policy decoder" where
  "dec_policy = dec_struct
     [fld ''policyId'' dec_string fst (\<lambda>v p. (v, snd p)),
      fld ''configurationAttributes'' (dec_list [] (dec_struct [fld ''name'' dec_string (\<lambda>n. n) (\<lambda>v n. v)]))
        snd (\<lambda>v p. (fst p, v))]"

definition dec_policies :: "policy list decoder" where
  "dec_policies = dec_struct [fld ''getPolicies'' (dec_list ([], []) dec_policy) (\<lambda>r. r) (\<lambda>v r. v)]"

definition dec_family :: "string decoder" where
  "dec_family = dec_struct [fld ''device'' (dec_struct [fld ''model'' (dec_struct [fld ''hardwareFamily''
     (dec_struct [fld ''policyFamilyId'' dec_string (\<lambda>s. s) (\<lambda>v s. v)])
     (\<lambda>s. s) (\<lambda>v s. v)]) (\<lambda>s. s) (\<lambda>v s. v)]) (\<lambda>s. s) (\<lambda>v s. v)]"

type_synonym policy_attribute = "string \<times> secret"

definition dec_policy_attributes :: "policy_attribute list decoder" where
  "dec_policy_attributes = dec_struct [fld ''getPolicyById''
     (dec_struct [fld ''configurationAttributes''
        (dec_list ([], Secret None)
           (dec_struct [fld ''name'' dec_string fst (\<lambda>v a. (v, snd a)),
                        fld ''currentValue'' dec_secret snd (\<lambda>v a. (fst a, v))]))
        (\<lambda>r. r) (\<lambda>v r. v)])
     (\<lambda>r. r) (\<lambda>v r. v)]"

definition devicePolicyFamily :: "'w query_client \<Rightarrow> string \<Rightarrow> 'w \<Rightarrow> string result \<times> 'w" where
  "devicePolicyFamily q deviceID w =
     (case query_into [] dec_family (q devicePolicyFamilyQuery (JObj [(''deviceID'', JStr deviceID)]) w) of
        (Inl _, w') \<Rightarrow> (Inl (Msg ''resolve Lens device policy family''), w')
      | (Inr family, w') \<Rightarrow>
          if family = [] then (Inl (Msg ''resolve Lens device policy family''), w') else (Inr family, w'))"

text \<open>The variables the scope asks for, before the policy family is looked up.\<close>

definition scope_variables :: "lens_device \<Rightarrow> winning_policy_source \<Rightarrow> (string \<times> json) list result" where
  "scope_variables d src =
     (let base = [(''tenantID'', JStr (ld_TenantID d)), (''scope'', JStr (ps_Scope src))];
          model = (''deviceModel'', JStr (ld_HardwareModel d)) in
      if ps_Scope src = ''DEVICE'' then Inr (base @ [(''deviceID'', JStr (ld_ID d))])
      else if ps_Scope src = ''DEVICE_MODEL'' then
        (if ld_HardwareModel d = [] then Inl (Msg ''resolve Lens device-model policy'') else Inr (base @ [model]))
      else if ps_Scope src = ''SITE'' \<or> ps_Scope src = ''FAMILY_SITE'' then
        (if CollectionID src = [] then Inl (Msg ''resolve Lens site policy'')
         else if ps_Scope src = ''SITE'' then
           (if ld_HardwareModel d = [] then Inl (Msg ''resolve Lens site policy'')
            else Inr (base @ [(''siteID'', JStr (CollectionID src)), model]))
         else Inr (base @ [(''siteID'', JStr (CollectionID src))]))
      else if ps_Scope src = ''GROUP'' \<or> ps_Scope src = ''FAMILY_GROUP'' then
        (if CollectionID src = [] then Inl (Msg ''resolve Lens group policy'')
         else if ps_Scope src = ''GROUP'' then
           (if ld_HardwareModel d = [] then Inl (Msg ''resolve Lens group policy'')
            else Inr (base @ [(''groupID'', JStr (CollectionID src)), model]))
         else Inr (base @ [(''groupID'', JStr (CollectionID src))]))
      else if ps_Scope src = ''FAMILY_MODEL'' \<or> ps_Scope src = ''GLOBAL'' then Inr base
      else Inl (Msg ''unsupported Lens policy scope''))"

definition family_scope :: "string \<Rightarrow> bool" where
  "family_scope scope \<longleftrightarrow> scope = ''FAMILY_MODEL'' \<or> scope = ''FAMILY_SITE'' \<or> scope = ''FAMILY_GROUP''"

definition policyVariables :: "'w query_client \<Rightarrow> lens_device \<Rightarrow> winning_policy_source \<Rightarrow> 'w \<Rightarrow> json result \<times> 'w" where
  "policyVariables q d src w =
     (case scope_variables d src of
        Inl e \<Rightarrow> (Inl e, w)
      | Inr vars \<Rightarrow>
          if family_scope (ps_Scope src) then
            (case devicePolicyFamily q (ld_ID d) w of
               (Inl e, w') \<Rightarrow> (Inl e, w')
             | (Inr family, w') \<Rightarrow> (Inr (json_map (vars @ [(''policyFamilyID'', JStr family)])), w'))
          else (Inr (json_map vars), w))"

text \<open>The loops that collect the parameters of the attribute's name and the policies that hold it.\<close>

definition password_sources :: "winning_policy_source list \<Rightarrow> winning_policy_source list" where
  "password_sources ps = filter (\<lambda>p. ps_Name p = localAdminPasswordAttribute) ps"

fun password_policies :: "policy list \<Rightarrow> string list" where
  "password_policies [] = []"
| "password_policies (p # ps) =
     (if list_ex (\<lambda>n. n = localAdminPasswordAttribute \<and> fst p \<noteq> []) (snd p) then fst p # password_policies ps
      else password_policies ps)"

definition winningPolicyID :: "'w query_client \<Rightarrow> lens_device \<Rightarrow> 'w \<Rightarrow> string result \<times> 'w" where
  "winningPolicyID q d w =
     (if ld_TenantID d = [] \<or> ld_ID d = [] then (Inl (Msg ''resolve winning Lens policy source''), w)
      else (case query_into [] dec_sources
              (q winningPolicySourceQuery (JObj [(''deviceID'', JStr (ld_ID d)), (''tenantID'', JStr (ld_TenantID d))]) w) of
          (Inl _, w1) \<Rightarrow> (Inl (Msg ''resolve winning Lens policy source''), w1)
        | (Inr params, w1) \<Rightarrow>
            (case password_sources params of
               [src] \<Rightarrow>
                 (case policyVariables q d src w1 of
                    (Inl e, w2) \<Rightarrow> (Inl e, w2)
                  | (Inr vars, w2) \<Rightarrow>
                      (case query_into [] dec_policies (q winningPoliciesQuery vars w2) of
                         (Inl _, w3) \<Rightarrow> (Inl (Msg ''resolve winning Lens policy''), w3)
                       | (Inr policies, w3) \<Rightarrow>
                           (case password_policies policies of
                              [pid] \<Rightarrow> (Inr pid, w3)
                            | _ \<Rightarrow> (Inl (Msg ''resolve one winning Lens policy''), w3))))
             | _ \<Rightarrow> (Inl (Msg ''resolve one winning Lens policy source''), w1))))"

definition pick_password :: "policy_attribute list \<Rightarrow> secret option" where
  "pick_password attrs =
     map_option snd (find (\<lambda>a. fst a = localAdminPasswordAttribute \<and> \<not> secret_empty (snd a)) attrs)"

definition LocalAdminPassword :: "'w query_client \<Rightarrow> lens_device \<Rightarrow> 'w \<Rightarrow> secret result \<times> 'w" where
  "LocalAdminPassword q d w =
     (case winningPolicyID q d w of
        (Inl e, w1) \<Rightarrow> (Inl e, w1)
      | (Inr pid, w1) \<Rightarrow>
          (case query_into [] dec_policy_attributes (q localAdminPasswordQuery (JObj [(''policyID'', JStr pid)]) w1) of
             (Inl _, w2) \<Rightarrow> (Inl (Msg ''read Lens policy configuration attributes''), w2)
           | (Inr attrs, w2) \<Rightarrow>
               (case pick_password attrs of
                  None \<Rightarrow> (Inl (Msg ''lens policy has no local admin password''), w2)
                | Some s \<Rightarrow> (Inr s, w2))))"

text \<open>The source is the lookup over a query client, which has to be there.\<close>

definition NewLensPolicySource :: "'w query_client option \<Rightarrow> (lens_device \<Rightarrow> 'w \<Rightarrow> secret result \<times> 'w) result" where
  "NewLensPolicySource query =
     (case query of None \<Rightarrow> Inl (Msg ''lens query is required'') | Some q \<Rightarrow> Inr (LocalAdminPassword q))"

section \<open>The resolver\<close>

record resolver_config =
  Targets :: "string \<rightharpoonup> string"
  rc_Username :: string
  rc_Password :: secret
  FromLensPolicy :: bool
  rc_Timeout :: int
  rc_TLS :: tls_config
  HTTPEmitter :: "emitter option"

record 'w phone_target =
  pt_Device :: lens_device
  pt_Address :: string
  pt_API :: "'w phone_api"

type_synonym 'w new_client = "client_config \<Rightarrow> emitter option \<Rightarrow> 'w phone_api result"

text \<open>
  The constructor the resolver uses when none is given. \<open>nets\<close> is the network as it is seen when the
  given base URL is dialled.
\<close>

definition default_NewClient :: "(string \<Rightarrow> 'w phone_net) \<Rightarrow> 'w digest_env \<Rightarrow> ('w wire) new_client" where
  "default_NewClient nets dg cfg em =
     (case New (nets (BaseURL cfg)) cfg of Inl e \<Rightarrow> Inl e | Inr c \<Rightarrow> Inr (client_api (nets (BaseURL cfg)) dg c))"

definition phoneURL :: "string \<Rightarrow> string" where
  "phoneURL address = (if prefix ''https://'' (to_lower address) then address else ''https://'' @ address)"

definition httpEmitter :: "resolver_config \<Rightarrow> lens_device \<Rightarrow> string \<Rightarrow> emitter option" where
  "httpEmitter cfg d address =
     (case HTTPEmitter cfg of
        None \<Rightarrow> None
      | Some em \<Rightarrow>
          Some (with_device \<lparr>dev_ID = ld_ID d, dev_Name = ld_Name d, dev_MAC = ld_MACAddress d, dev_Model = ld_HardwareModel d,
              dev_Site = [], dev_IP = address\<rparr> (if ld_TenantID d \<noteq> [] then with_tenant (ld_TenantID d) em else em)))"

definition emitUnexpected :: "meter \<Rightarrow> emitter option \<Rightarrow> string \<Rightarrow> 'w phone_run fallible" where
  "emitUnexpected m emitter deviceID s =
     (case emitter of
        None \<Rightarrow> (None, s)
      | Some em \<Rightarrow>
          (case emitGauge m em MetricAPIUnexpected (FNum 1) [Attr AttrDeviceID deviceID] s of
             (Some e, s') \<Rightarrow> (Some (Wrap ''emit phone target api.unexpected'' e), s')
           | (None, s') \<Rightarrow> (None, s')))"

definition target_address :: "resolver_config \<Rightarrow> lens_device \<Rightarrow> string" where
  "target_address cfg d =
     (case Targets cfg (ld_ID d) of None \<Rightarrow> trim_space (InternalIP d) | Some override \<Rightarrow> trim_space override)"

text \<open>The password of a device: from the policy when that is asked for and gives one.\<close>

definition resolve_password :: "meter \<Rightarrow> resolver_config \<Rightarrow> (lens_device \<Rightarrow> 'w \<Rightarrow> secret result \<times> 'w) option \<Rightarrow>
    emitter option \<Rightarrow> lens_device \<Rightarrow> 'w phone_run \<Rightarrow> secret result \<times> 'w phone_run" where
  "resolve_password m cfg policy emitter d s =
     (if \<not> FromLensPolicy cfg then (Inr (rc_Password cfg), s)
      else
        let (r, s') = (case policy of
               None \<Rightarrow> (Inl (Msg ''lens policy password source is not configured''), s)
             | Some p \<Rightarrow> (let (r, w) = p d (snd s) in (r, (fst s, w)))) in
        case r of
          Inr pw \<Rightarrow>
            if \<not> secret_empty pw then (Inr pw, s')
            else (case emitUnexpected m emitter (ld_ID d) s' of (Some e, s'') \<Rightarrow> (Inl e, s'') | (None, s'') \<Rightarrow> (Inr (rc_Password cfg), s''))
        | Inl _ \<Rightarrow> (case emitUnexpected m emitter (ld_ID d) s' of (Some e, s'') \<Rightarrow> (Inl e, s'') | (None, s'') \<Rightarrow> (Inr (rc_Password cfg), s'')))"

definition phone_client_config :: "resolver_config \<Rightarrow> lens_device \<Rightarrow> string \<Rightarrow> secret \<Rightarrow> client_config" where
  "phone_client_config cfg d address pw =
     \<lparr>BaseURL = phoneURL address, DeviceMAC = ld_MACAddress d, Username = rc_Username cfg, Password = reveal pw,
      Timeout = rc_Timeout cfg, cfg_TLS = rc_TLS cfg\<rparr>"

definition probe_target :: "meter \<Rightarrow> emitter option \<Rightarrow> lens_device \<Rightarrow> 'w phone_api \<Rightarrow> 'w phone_run fallible" where
  "probe_target m emitter d api s =
     (case Probe api (snd s) of
        ((st, err), w) \<Rightarrow>
          if st = StateUnreachable \<and> err \<noteq> None then emitUnexpected m emitter (ld_ID d) (fst s, w) else (None, (fst s, w)))"

definition resolve_device :: "meter \<Rightarrow> resolver_config \<Rightarrow> 'w new_client \<Rightarrow> (lens_device \<Rightarrow> 'w \<Rightarrow> secret result \<times> 'w) option \<Rightarrow>
    emitter option \<Rightarrow> lens_device \<Rightarrow> string \<Rightarrow> 'w phone_run \<Rightarrow> 'w phone_target result \<times> 'w phone_run" where
  "resolve_device m cfg nc policy emitter d address s =
     (case resolve_password m cfg policy emitter d s of
        (Inl e, s1) \<Rightarrow> (Inl e, s1)
      | (Inr pw, s1) \<Rightarrow>
          (case nc (phone_client_config cfg d address pw) (httpEmitter cfg d address) of
             Inl e \<Rightarrow> (Inl e, s1)
           | Inr api \<Rightarrow>
               (case probe_target m emitter d api s1 of
                  (Some e, s2) \<Rightarrow> (Inl e, s2)
                | (None, s2) \<Rightarrow> (Inr \<lparr>pt_Device = d, pt_Address = address, pt_API = api\<rparr>, s2))))"

fun Resolve :: "meter \<Rightarrow> resolver_config \<Rightarrow> 'w new_client \<Rightarrow> (lens_device \<Rightarrow> 'w \<Rightarrow> secret result \<times> 'w) option \<Rightarrow>
    emitter option \<Rightarrow> lens_device list \<Rightarrow> 'w phone_run \<Rightarrow> 'w phone_target list result \<times> 'w phone_run" where
  "Resolve m cfg nc policy emitter [] s = (Inr [], s)"
| "Resolve m cfg nc policy emitter (d # ds) s =
     (if target_address cfg d = [] then Resolve m cfg nc policy emitter ds s
      else (case resolve_device m cfg nc policy emitter d (target_address cfg d) s of
          (Inl e, s1) \<Rightarrow> (Inl e, s1)
        | (Inr t, s1) \<Rightarrow>
            (case Resolve m cfg nc policy emitter ds s1 of
               (Inl e, s2) \<Rightarrow> (Inl e, s2)
             | (Inr ts, s2) \<Rightarrow> (Inr (t # ts), s2))))"

section \<open>What the resolver builds\<close>

text \<open>A password comes from the settings, or from the policy when the settings say so.\<close>

definition password_origin :: "resolver_config \<Rightarrow> (lens_device \<Rightarrow> 'w \<Rightarrow> secret result \<times> 'w) option \<Rightarrow> lens_device \<Rightarrow> secret \<Rightarrow> bool" where
  "password_origin cfg policy d pw \<longleftrightarrow>
     pw = rc_Password cfg \<or>
     FromLensPolicy cfg \<and> \<not> secret_empty pw \<and> (\<exists>p w w'. policy = Some p \<and> p d w = (Inr pw, w'))"

lemma resolve_password_origin:
  assumes "resolve_password m cfg policy em d s = (Inr pw, s')"
  shows "password_origin cfg policy d pw"
  using assms
  by (auto simp: resolve_password_def password_origin_def Let_def split: if_splits option.splits prod.splits sum.splits)

lemma resolve_device_Inr:
  assumes "resolve_device m cfg nc policy em d a s = (Inr t, s')"
  shows "pt_Device t = d" "pt_Address t = a"
    "\<exists>pw. password_origin cfg policy d pw \<and> nc (phone_client_config cfg d a pw) (httpEmitter cfg d a) = Inr (pt_API t)"
proof -
  obtain r1 s1 where p: "resolve_password m cfg policy em d s = (r1, s1)" by (rule prod.exhaust)
  with assms obtain pw where pw: "r1 = Inr pw" by (cases r1) (auto simp: resolve_device_def)
  with assms p obtain api where api: "nc (phone_client_config cfg d a pw) (httpEmitter cfg d a) = Inr api"
    by (auto simp: resolve_device_def split: sum.splits)
  have t: "t = \<lparr>pt_Device = d, pt_Address = a, pt_API = api\<rparr>"
    using assms p pw api by (auto simp: resolve_device_def split: prod.splits option.splits)
  show "pt_Device t = d" "pt_Address t = a" using t by simp_all
  show "\<exists>pw. password_origin cfg policy d pw \<and> nc (phone_client_config cfg d a pw) (httpEmitter cfg d a) = Inr (pt_API t)"
    using resolve_password_origin [OF p [unfolded pw]] api t by auto
qed

definition built_from :: "resolver_config \<Rightarrow> 'w new_client \<Rightarrow> (lens_device \<Rightarrow> 'w \<Rightarrow> secret result \<times> 'w) option \<Rightarrow> lens_device \<Rightarrow> 'w phone_target \<Rightarrow> bool" where
  "built_from cfg nc policy d t \<longleftrightarrow>
     pt_Device t = d \<and> pt_Address t = target_address cfg d \<and>
     (\<exists>pw. password_origin cfg policy d pw \<and>
        nc (phone_client_config cfg d (target_address cfg d) pw) (httpEmitter cfg d (target_address cfg d)) = Inr (pt_API t))"

lemma Resolve_built:
  "Resolve m cfg nc policy em ds s = (Inr ts, s') \<Longrightarrow>
     list_all2 (built_from cfg nc policy) (filter (\<lambda>d. target_address cfg d \<noteq> []) ds) ts"
proof (induction ds arbitrary: s ts)
  case (Cons d ds)
  show ?case
  proof (cases "target_address cfg d = []")
    case True
    with Cons show ?thesis by simp
  next
    case False
    obtain r1 s1 where r: "resolve_device m cfg nc policy em d (target_address cfg d) s = (r1, s1)" by (rule prod.exhaust)
    with Cons.prems False obtain t where t: "r1 = Inr t" by (cases r1) auto
    obtain r2 s2 where r2: "Resolve m cfg nc policy em ds s1 = (r2, s2)" by (rule prod.exhaust)
    with Cons.prems False r t obtain ts' where ts: "r2 = Inr ts'" "ts = t # ts'" "s2 = s'" by (cases r2) auto
    have "built_from cfg nc policy d t"
      using resolve_device_Inr [OF r [unfolded t]] by (simp add: built_from_def)
    with Cons.IH [OF r2 [unfolded ts(1,3)]] ts(2) False show ?thesis by simp
  qed
qed simp

text \<open>
  C11 (no scanning). The resolver makes one client for each inventory device that has an address, in their
  order, and for no other; the address is the operator's override or the one Lens names, trimmed; the client
  is made for the device's own MAC address, over HTTPS unless the address says so itself, and with the
  password of the settings or one the winning policy gave.
\<close>

theorem resolve_targets:
  assumes "Resolve m cfg nc policy em ds s = (Inr ts, s')"
  shows "map (\<lambda>t. (pt_Device t, pt_Address t)) ts =
      map (\<lambda>d. (d, target_address cfg d)) (filter (\<lambda>d. target_address cfg d \<noteq> []) ds) \<and>
    (\<forall>t \<in> set ts. \<exists>pw ccfg. password_origin cfg policy (pt_Device t) pw \<and>
       nc ccfg (httpEmitter cfg (pt_Device t) (pt_Address t)) = Inr (pt_API t) \<and>
       DeviceMAC ccfg = ld_MACAddress (pt_Device t) \<and> Password ccfg = reveal pw \<and> BaseURL ccfg = phoneURL (pt_Address t) \<and>
       prefix ''https://'' (to_lower (BaseURL ccfg)))"
proof -
  note b = Resolve_built [OF assms]
  have "map (\<lambda>t. (pt_Device t, pt_Address t)) ts = map (\<lambda>d. (d, target_address cfg d)) xs"
    if "list_all2 (built_from cfg nc policy) xs ts" for xs ts
    using that by (induction rule: list_all2_induct) (auto simp: built_from_def)
  moreover have "prefix ''https://'' (to_lower (phoneURL a))" for a
    by (auto simp: phoneURL_def char_defs)
  ultimately show ?thesis
    using b by (fastforce simp: list_all2_conv_all_nth in_set_conv_nth built_from_def phone_client_config_def)
qed

text \<open>
  Resolved clients check identity. When the peer at a resolved address does not present a certificate with
  the MAC address that the Lens inventory has for the device, no call on the target's client sends a request.
\<close>

theorem resolved_identity:
  assumes "Resolve m cfg (default_NewClient nets dg) policy em ds s = (Inr ts, s')" "t \<in> set ts"
    and "\<And>w leaf rest. peer_certs (nets (phoneURL (pt_Address t))) w = leaf # rest \<Longrightarrow>
      normalizedMAC (CommonName leaf) \<noteq> normalizedMAC (ld_MACAddress (pt_Device t))"
  shows "(\<exists>e. Probe (pt_API t) x = ((StateUnreachable, Some e), x)) \<and> (\<exists>e. NetworkStats (pt_API t) x = (Inl e, x)) \<and>
    (\<exists>e. NetworkInfo (pt_API t) x = (Inl e, x)) \<and> (\<exists>e. CallLogs (pt_API t) x = (Inl e, x)) \<and>
    (\<exists>e. LineInfo (pt_API t) x = (Inl e, x)) \<and> (\<exists>e. ConfigGet (pt_API t) params x = (Inl e, x))"
proof -
  obtain i where i: "i < length ts" "t = ts ! i" using assms(2) by (metis in_set_conv_nth)
  let ?d = "filter (\<lambda>d. target_address cfg d \<noteq> []) ds ! i"
  have b: "built_from cfg (default_NewClient nets dg) policy ?d t"
    using Resolve_built [OF assms(1)] i by (simp add: list_all2_conv_all_nth)
  then obtain pw where nc: "default_NewClient nets dg (phone_client_config cfg (pt_Device t) (pt_Address t) pw)
      (httpEmitter cfg (pt_Device t) (pt_Address t)) = Inr (pt_API t)"
    by (auto simp: built_from_def)
  let ?cfg = "phone_client_config cfg (pt_Device t) (pt_Address t) pw" and ?net = "nets (phoneURL (pt_Address t))"
  have u: "BaseURL ?cfg = phoneURL (pt_Address t)" "DeviceMAC ?cfg = ld_MACAddress (pt_Device t)"
    by (simp_all add: phone_client_config_def)
  obtain c where c: "New ?net ?cfg = Inr c" and api: "pt_API t = client_api ?net dg c"
    using nc u by (auto simp: default_NewClient_def split: sum.splits)
  have "rejects ?net c" using mismatch_rejects [OF c] assms(3) u(2) by simp
  then show ?thesis unfolding api
    by (simp add: client_api_def client_NetworkStats_def client_NetworkInfo_def client_CallLogs_def client_LineInfo_def
        Probe_rejected read_rejected ConfigGet_rejected)
qed

section \<open>What the policy source gives\<close>

definition policy_errors :: "string list" where
  "policy_errors =
     [''resolve winning Lens policy source'', ''resolve one winning Lens policy source'', ''resolve winning Lens policy'',
      ''resolve one winning Lens policy'', ''resolve Lens device-model policy'', ''resolve Lens site policy'',
      ''resolve Lens group policy'', ''unsupported Lens policy scope'', ''resolve Lens device policy family'',
      ''read Lens policy configuration attributes'', ''lens policy has no local admin password'']"

definition policy_error :: "goerr \<Rightarrow> bool" where
  "policy_error e \<longleftrightarrow> e \<in> Msg ` set policy_errors"

lemma scope_variables_error: "scope_variables d src = Inl e \<Longrightarrow> policy_error e"
  by (auto simp: scope_variables_def policy_error_def policy_errors_def Let_def split: if_splits)

lemma devicePolicyFamily_error: "devicePolicyFamily q i w = (Inl e, w') \<Longrightarrow> policy_error e"
  by (auto simp: devicePolicyFamily_def policy_error_def policy_errors_def split: prod.splits sum.splits if_splits)

lemma policyVariables_error: "policyVariables q d src w = (Inl e, w') \<Longrightarrow> policy_error e"
  by (auto simp: policyVariables_def split: sum.splits if_splits prod.splits dest: scope_variables_error devicePolicyFamily_error)

lemma password_policies_eq:
  "password_policies ps = map fst (filter (\<lambda>p. fst p \<noteq> [] \<and> localAdminPasswordAttribute \<in> set (snd p)) ps)"
  by (induction ps) (auto simp: list_ex_iff)

lemma fixed_error: "m \<in> set policy_errors \<Longrightarrow> policy_error (Msg m)"
  by (simp add: policy_error_def)

lemma winningPolicyID_cases:
  assumes "winningPolicyID q d w = (r, w')"
  shows "(\<exists>e. r = Inl e \<and> policy_error e) \<or>
    (\<exists>pid params src policies w1 vars w2. r = Inr pid \<and>
       query_into [] dec_sources
         (q winningPolicySourceQuery (JObj [(''deviceID'', JStr (ld_ID d)), (''tenantID'', JStr (ld_TenantID d))]) w) = (Inr params, w1) \<and>
       password_sources params = [src] \<and> policyVariables q d src w1 = (Inr vars, w2) \<and>
       query_into [] dec_policies (q winningPoliciesQuery vars w2) = (Inr policies, w') \<and>
       password_policies policies = [pid])"
proof (cases "ld_TenantID d = [] \<or> ld_ID d = []")
  case True
  with assms show ?thesis by (auto simp: winningPolicyID_def policy_errors_def intro!: fixed_error)
next
  case False
  let ?q1 = "query_into [] dec_sources
      (q winningPolicySourceQuery (JObj [(''deviceID'', JStr (ld_ID d)), (''tenantID'', JStr (ld_TenantID d))]) w)"
  obtain r1 w1 where q1: "?q1 = (r1, w1)" by (rule prod.exhaust)
  show ?thesis
  proof (cases "\<exists>params src. r1 = Inr params \<and> password_sources params = [src]")
    case no: False
    with assms False q1 have "r = Inl (Msg ''resolve winning Lens policy source'') \<or> r = Inl (Msg ''resolve one winning Lens policy source'')"
      by (auto simp: winningPolicyID_def split: sum.splits list.splits)
    then show ?thesis by (auto simp: policy_errors_def intro!: fixed_error)
  next
    case True
    then obtain params src where src: "r1 = Inr params" "password_sources params = [src]" by blast
    obtain r2 w2 where v: "policyVariables q d src w1 = (r2, w2)" by (rule prod.exhaust)
    show ?thesis
    proof (cases r2)
      case (Inl e)
      with assms False q1 src v have "r = Inl e" by (simp add: winningPolicyID_def)
      moreover have "policy_error e" using policyVariables_error v Inl by simp
      ultimately show ?thesis by simp
    next
      case (Inr vars)
      obtain r3 w3 where q3: "query_into [] dec_policies (q winningPoliciesQuery vars w2) = (r3, w3)" by (rule prod.exhaust)
      have e: "(r, w') = (case r3 of Inl _ \<Rightarrow> (Inl (Msg ''resolve winning Lens policy''), w3)
          | Inr policies \<Rightarrow> (case password_policies policies of [pid] \<Rightarrow> (Inr pid, w3)
              | _ \<Rightarrow> (Inl (Msg ''resolve one winning Lens policy''), w3)))"
        using assms False q1 src v Inr q3 by (simp add: winningPolicyID_def split: sum.splits)
      show ?thesis
      proof (cases "\<exists>policies pid. r3 = Inr policies \<and> password_policies policies = [pid]")
        case True
        with e q1 src v Inr q3 show ?thesis by auto
      next
        case no: False
        with e have "r = Inl (Msg ''resolve winning Lens policy'') \<or> r = Inl (Msg ''resolve one winning Lens policy'')"
          by (auto split: sum.splits list.splits)
        then show ?thesis by (auto simp: policy_errors_def intro!: fixed_error)
      qed
    qed
  qed
qed

text \<open>
  C12 (one winning policy). A password is taken only from a policy that is the single one, among those Lens
  returns for the single winning source, that has an identifier and holds the password attribute.
\<close>

theorem winning_policy_unique:
  assumes "winningPolicyID q d w = (Inr pid, w')"
  shows "\<exists>params src policies w1 vars w2.
    query_into [] dec_sources
      (q winningPolicySourceQuery (JObj [(''deviceID'', JStr (ld_ID d)), (''tenantID'', JStr (ld_TenantID d))]) w) = (Inr params, w1) \<and>
    filter (\<lambda>p. ps_Name p = localAdminPasswordAttribute) params = [src] \<and> policyVariables q d src w1 = (Inr vars, w2) \<and>
    query_into [] dec_policies (q winningPoliciesQuery vars w2) = (Inr policies, w') \<and>
    map fst (filter (\<lambda>p. fst p \<noteq> [] \<and> localAdminPasswordAttribute \<in> set (snd p)) policies) = [pid]"
  using winningPolicyID_cases [OF assms] unfolding password_sources_def password_policies_eq by simp

text \<open>
  No upstream text. Whatever Lens answers, the policy source returns a password that is not empty or one of
  eleven fixed messages: no text of an answer, which could hold the password, is part of an error.
\<close>

theorem policy_errors_fixed:
  "case fst (LocalAdminPassword q d w) of Inl e \<Rightarrow> e \<in> Msg ` set policy_errors | Inr pw \<Rightarrow> \<not> secret_empty pw"
proof -
  obtain r1 w1 where r1: "winningPolicyID q d w = (r1, w1)" by (rule prod.exhaust)
  show ?thesis
  proof (cases r1)
    case (Inl e)
    with winningPolicyID_cases [OF r1] r1 show ?thesis by (auto simp: LocalAdminPassword_def policy_error_def)
  next
    case (Inr pid)
    obtain r2 w2 where q2: "query_into [] dec_policy_attributes (q localAdminPasswordQuery (JObj [(''policyID'', JStr pid)]) w1) = (r2, w2)"
      by (rule prod.exhaust)
    show ?thesis
    proof (cases r2)
      case (Inl e)
      with r1 Inr q2 show ?thesis by (simp add: LocalAdminPassword_def policy_errors_def)
    next
      case attrs: (Inr attrs)
      have "pick_password attrs = Some pw \<Longrightarrow> \<not> secret_empty pw" for pw
        by (auto simp: pick_password_def find_Some_iff) (metis snd_conv)
      with r1 Inr q2 attrs show ?thesis
        by (cases "pick_password attrs") (simp_all add: LocalAdminPassword_def policy_errors_def)
    qed
  qed
qed

section \<open>An example\<close>

definition ex_lens_device :: lens_device where
  "ex_lens_device = zero_lens_device\<lparr>ld_TenantID := ''t'', ld_ID := ''d'', InternalIP := '' 10.0.0.1 '', ld_MACAddress := ''00:04:f2:00:00:01''\<rparr>"

definition ex_resolver :: resolver_config where
  "ex_resolver = \<lparr>Targets = Map.empty, rc_Username = [], rc_Password = NewSecret ''pw'', FromLensPolicy = False, rc_Timeout = 0,
     rc_TLS = \<lparr>VerifyChain = False, CAFile = []\<rparr>, HTTPEmitter = None\<rparr>"

definition ex_resolve :: "string \<Rightarrow> unit wire phone_target list result \<times> unit wire phone_run" where
  "ex_resolve cn = Resolve ex_meter ex_resolver (default_NewClient (\<lambda>_. ex_net cn) ex_digest_env) None None [ex_lens_device] (ex_tel, ([], ()))"

lemma ex_phone_config:
  "phone_client_config ex_resolver ex_lens_device ''10.0.0.1'' (NewSecret ''pw'') = ex_client_config"
  by code_simp

lemma ex_probe: "probe_target ex_meter None d api s = (None, (fst s, snd (Probe api (snd s))))"
  by (simp add: probe_target_def emitUnexpected_def case_prod_unfold)

lemma ex_resolve_one:
  "ex_resolve cn = (Inr [\<lparr>pt_Device = ex_lens_device, pt_Address = ''10.0.0.1'', pt_API = client_api (ex_net cn) ex_digest_env ex_client\<rparr>],
     (ex_tel, snd (client_Probe (ex_net cn) ex_digest_env ex_client ([], ()))))"
proof -
  have a: "target_address ex_resolver ex_lens_device = ''10.0.0.1''" by code_simp
  have p: "resolve_password ex_meter ex_resolver None None ex_lens_device s = (Inr (NewSecret ''pw''), s)" for s :: "unit wire phone_run"
    by (simp add: resolve_password_def ex_resolver_def)
  show ?thesis
    by (simp add: ex_resolve_def a p resolve_device_def ex_phone_config default_NewClient_def ex_New ex_probe client_api_def)
qed

lemma resolve_targets_witness:
  "map (\<lambda>t. (pt_Device t, pt_Address t)) [\<lparr>pt_Device = ex_lens_device, pt_Address = ''10.0.0.1'',
       pt_API = client_api (ex_net []) ex_digest_env ex_client\<rparr>] =
   map (\<lambda>d. (d, target_address ex_resolver d)) (filter (\<lambda>d. target_address ex_resolver d \<noteq> []) [ex_lens_device])"
  using resolve_targets [OF ex_resolve_one [of "[]", unfolded ex_resolve_def]] by blast

lemma resolved_identity_witness:
  "\<exists>e. LineInfo (client_api (ex_net ''64167F000002'') ex_digest_env ex_client) ([], ()) = (Inl e, ([], ()))"
proof -
  let ?t = "\<lparr>pt_Device = ex_lens_device, pt_Address = ''10.0.0.1'', pt_API = client_api (ex_net ''64167F000002'') ex_digest_env ex_client\<rparr>"
  have "normalizedMAC (CommonName leaf) \<noteq> normalizedMAC (ld_MACAddress (pt_Device ?t))"
    if "peer_certs (ex_net ''64167F000002'') w = leaf # rest" for w leaf rest
  proof -
    have "leaf = \<lparr>CommonName = ''64167F000002'', der = []\<rparr>" using that by (simp add: ex_net_def)
    moreover have "normalizedMAC ''64167F000002'' \<noteq> normalizedMAC (ld_MACAddress ex_lens_device)" by code_simp
    ultimately show ?thesis by simp
  qed
  with resolved_identity [OF ex_resolve_one [of "''64167F000002''", unfolded ex_resolve_def], of ?t "([], ())"] show ?thesis by simp
qed

text \<open>A Lens with one device-scoped policy that holds the password.\<close>

definition ex_policies :: "unit query_client" where
  "ex_policies doc vars w =
     (if doc = winningPolicySourceQuery then
        Inr (JObj [(''getDeviceParametersExtended'', JArr [JObj [(''name'', JStr localAdminPasswordAttribute), (''policyDeploymentScope'', JStr ''DEVICE'')]])])
      else if doc = winningPoliciesQuery then
        Inr (JObj [(''getPolicies'', JArr [JObj [(''policyId'', JStr ''p1''), (''configurationAttributes'', JArr [JObj [(''name'', JStr localAdminPasswordAttribute)]])]])])
      else Inl (Msg ''unexpected''), w)"

lemma ex_winning: "winningPolicyID ex_policies ex_lens_device () = (Inr ''p1'', ())"
  by code_simp

lemma winning_policy_unique_witness:
  "\<exists>policies w2 vars. query_into [] dec_policies (ex_policies winningPoliciesQuery vars w2) = (Inr policies, ()) \<and>
     map fst (filter (\<lambda>p. fst p \<noteq> [] \<and> localAdminPasswordAttribute \<in> set (snd p)) policies) = [''p1'']"
  using winning_policy_unique [OF ex_winning] by (elim exE conjE) (intro exI conjI, assumption+)

end
