(* ===== verification/LensStream.thy ===== *)
theory LensStream
  imports Telemetry Paging Backoff
begin

text \<open>
  \<^verbatim>\<open>internal/lensstream/stream.go\<close>: the subscription to device changes over one WebSocket. Modelled are
  \<^verbatim>\<open>validate\<close>, \<^verbatim>\<open>session\<close> with its frames, its deferred calls and its message loop, \<^verbatim>\<open>emitDevice\<close>, \<^verbatim>\<open>Run\<close>
  with the reconnects, \<^verbatim>\<open>backoff\<close> and \<^verbatim>\<open>contextResult\<close>.

  Parameters (\<open>stream_net\<close>): the WebSocket library (dial, read, write, close), the token source, the
  timer and the state of the context, each passing the state \<open>'w\<close> of the outside world through. The
  state (\<open>stream_st\<close>) keeps the dials, the frames written, the pauses and the telemetry. The message
  loop and the reconnect loop may run forever; a run that does is \<open>None\<close>.
\<close>

section \<open>Data\<close>

definition subprotocol :: string where "subprotocol = ''graphql-transport-ws''"
definition connectionInit :: string where "connectionInit = ''connection_init''"
definition connectionAck :: string where "connectionAck = ''connection_ack''"
definition subscribeMessage :: string where "subscribeMessage = ''subscribe''"
definition nextMessage :: string where "nextMessage = ''next''"
definition completeMessage :: string where "completeMessage = ''complete''"
definition operationID :: string where "operationID = ''1''"

definition subscription :: string where
  "subscription = join [CHR 0x0A]
     [''subscription DevStream($deviceIDs: [ID!]!) {'',
      ''  deviceStream(deviceIds: $deviceIDs) {'',
      ''    connected externalIp hardwareRevision id macAddress modelId name productId roomId siteId softwareBuild softwareVersion tenantId'',
      ''  }'',
      ''}'']"

record stream_config =
  stream_URL :: string
  stream_Token :: string
  has_TokenSource :: bool
  DeviceIDs :: "string list"
  AckTimeout :: int
  stream_MinBackoff :: int
  stream_MaxBackoff :: int
  stream_emitter :: "emitter option"

record frame =
  frame_ID :: string
  frame_Type :: string
  frame_Payload :: json

record stream_device =
  sd_Connected :: bool
  sd_ExternalIP :: string
  sd_HardwareRevision :: string
  sd_ID :: string
  sd_MACAddress :: string
  sd_ModelID :: string
  sd_Name :: string
  sd_ProductID :: string
  sd_RoomID :: string
  sd_SiteID :: string
  sd_SoftwareBuild :: string
  sd_SoftwareVersion :: string
  sd_TenantID :: string

record 'w stream_net =
  TokenSource :: "'w \<Rightarrow> string result \<times> 'w"
  ws_dial :: "string \<Rightarrow> string \<Rightarrow> string list \<Rightarrow> 'w \<Rightarrow> (goerr option \<times> goerr option) \<times> 'w"
  ws_write :: "json \<Rightarrow> 'w \<Rightarrow> goerr option \<times> 'w"
  ws_read :: "int option \<Rightarrow> 'w \<Rightarrow> json option result \<times> 'w"
  ws_close :: "'w \<Rightarrow> goerr option \<times> 'w"
  ws_sleep :: "int \<Rightarrow> 'w \<Rightarrow> goerr option \<times> 'w"
  ws_ctx :: "'w \<Rightarrow> bool \<times> 'w"
  ws_meter :: meter

record 'w stream_st =
  st_dials :: "(string \<times> string) list"
  st_writes :: "json list"
  st_slept :: "int list"
  st_tel :: instruments
  st_net :: 'w

section \<open>Frames\<close>

text \<open>
  A payload is a \<^verbatim>\<open>map[string]any\<close>: objects keep the last of the members with one name, and are
  written with their names in order. \<open>any_json\<close> is a document read into such a value and written again.
\<close>

fun any_json :: "json \<Rightarrow> json" and any_members :: "(string \<times> json) list \<Rightarrow> (string \<times> json) list \<Rightarrow> (string \<times> json) list" where
  "any_json (JObj ms) = JObj (any_members ms [])"
| "any_json (JArr js) = JArr (map any_json js)"
| "any_json j = j"
| "any_members [] acc = acc"
| "any_members ((k, v) # ms) acc = any_members ms (put_member k (any_json v) acc)"

definition dec_payload :: "json decoder" where
  "dec_payload cur j = (case j of JObj _ \<Rightarrow> Some (any_json j) | JNull \<Rightarrow> Some JNull | _ \<Rightarrow> None)"

definition dec_frame :: "frame decoder" where
  "dec_frame = dec_struct
     [fld ''id'' dec_string frame_ID (\<lambda>v f. f\<lparr>frame_ID := v\<rparr>),
      fld ''type'' dec_string frame_Type (\<lambda>v f. f\<lparr>frame_Type := v\<rparr>),
      fld ''payload'' dec_payload frame_Payload (\<lambda>v f. f\<lparr>frame_Payload := v\<rparr>)]"

definition zero_frame :: frame where
  "zero_frame = \<lparr>frame_ID = [], frame_Type = [], frame_Payload = JNull\<rparr>"

text \<open>The empty identifier and the empty payload are left out.\<close>

definition frame_json :: "frame \<Rightarrow> json" where
  "frame_json f =
     JObj ((if frame_ID f = [] then [] else [(''id'', JStr (frame_ID f))]) @ [(''type'', JStr (frame_Type f))] @
       (if frame_Payload f = JNull \<or> frame_Payload f = JObj [] then [] else [(''payload'', frame_Payload f)]))"

definition init_frame :: "string \<Rightarrow> frame" where
  "init_frame tok = \<lparr>frame_ID = [], frame_Type = connectionInit,
     frame_Payload = JObj [(''authorization'', JStr (''Bearer '' @ tok))]\<rparr>"

definition subscribe_frame :: "stream_config \<Rightarrow> frame" where
  "subscribe_frame cfg = \<lparr>frame_ID = operationID, frame_Type = subscribeMessage,
     frame_Payload = JObj [(''query'', JStr subscription), (''variables'', JObj [(''deviceIDs'', JArr (map JStr (DeviceIDs cfg)))])]\<rparr>"

definition stream_write :: "'w stream_net \<Rightarrow> frame \<Rightarrow> 'w stream_st \<Rightarrow> goerr option \<times> 'w stream_st" where
  "stream_write net f st =
     (let (r, w) = ws_write net (frame_json f) (st_net st) in (r, st\<lparr>st_writes := st_writes st @ [frame_json f], st_net := w\<rparr>))"

definition stream_read :: "'w stream_net \<Rightarrow> int option \<Rightarrow> 'w stream_st \<Rightarrow> frame result \<times> 'w stream_st" where
  "stream_read net deadline st =
     (let (r, w) = ws_read net deadline (st_net st); st' = st\<lparr>st_net := w\<rparr> in
      case r of
        Inl e \<Rightarrow> (Inl e, st')
      | Inr None \<Rightarrow> (Inl (Wrap ''decode JSON frame'' (Msg ''json error'')), st')
      | Inr (Some j) \<Rightarrow>
          (case dec_frame zero_frame j of
             None \<Rightarrow> (Inl (Wrap ''decode JSON frame'' (Msg ''json type error'')), st')
           | Some f \<Rightarrow> (Inr f, st')))"

section \<open>Device messages\<close>

definition zero_stream_device :: stream_device where
  "zero_stream_device = \<lparr>sd_Connected = False, sd_ExternalIP = [], sd_HardwareRevision = [], sd_ID = [], sd_MACAddress = [],
     sd_ModelID = [], sd_Name = [], sd_ProductID = [], sd_RoomID = [], sd_SiteID = [], sd_SoftwareBuild = [],
     sd_SoftwareVersion = [], sd_TenantID = []\<rparr>"

definition dec_stream_device :: "stream_device decoder" where
  "dec_stream_device = dec_struct
     [fld ''connected'' dec_bool sd_Connected (\<lambda>v d. d\<lparr>sd_Connected := v\<rparr>),
      fld ''externalIp'' dec_string sd_ExternalIP (\<lambda>v d. d\<lparr>sd_ExternalIP := v\<rparr>),
      fld ''hardwareRevision'' dec_string sd_HardwareRevision (\<lambda>v d. d\<lparr>sd_HardwareRevision := v\<rparr>),
      fld ''id'' dec_string sd_ID (\<lambda>v d. d\<lparr>sd_ID := v\<rparr>),
      fld ''macAddress'' dec_string sd_MACAddress (\<lambda>v d. d\<lparr>sd_MACAddress := v\<rparr>),
      fld ''modelId'' dec_string sd_ModelID (\<lambda>v d. d\<lparr>sd_ModelID := v\<rparr>),
      fld ''name'' dec_string sd_Name (\<lambda>v d. d\<lparr>sd_Name := v\<rparr>),
      fld ''productId'' dec_string sd_ProductID (\<lambda>v d. d\<lparr>sd_ProductID := v\<rparr>),
      fld ''roomId'' dec_string sd_RoomID (\<lambda>v d. d\<lparr>sd_RoomID := v\<rparr>),
      fld ''siteId'' dec_string sd_SiteID (\<lambda>v d. d\<lparr>sd_SiteID := v\<rparr>),
      fld ''softwareBuild'' dec_string sd_SoftwareBuild (\<lambda>v d. d\<lparr>sd_SoftwareBuild := v\<rparr>),
      fld ''softwareVersion'' dec_string sd_SoftwareVersion (\<lambda>v d. d\<lparr>sd_SoftwareVersion := v\<rparr>),
      fld ''tenantId'' dec_string sd_TenantID (\<lambda>v d. d\<lparr>sd_TenantID := v\<rparr>)]"

definition dec_device_payload :: "stream_device decoder" where
  "dec_device_payload = dec_struct
     [fld ''data'' (dec_struct [fld ''deviceStream'' dec_stream_device (\<lambda>d. d) (\<lambda>v d. v)]) (\<lambda>d. d) (\<lambda>v d. v)]"

definition stream_telemetry_device :: "stream_device \<Rightarrow> device" where
  "stream_telemetry_device d =
     \<lparr>dev_ID = sd_ID d, dev_Name = sd_Name d, dev_MAC = sd_MACAddress d, dev_Model = sd_ProductID d, dev_Site = [],
      dev_IP = sd_ExternalIP d\<rparr>"

definition wrap_error :: "string \<Rightarrow> (goerr option \<times> 's) \<Rightarrow> goerr option \<times> 's" where
  "wrap_error m p = (map_option (Wrap m) (fst p), snd p)"

definition emitDevice :: "meter \<Rightarrow> emitter \<Rightarrow> json \<Rightarrow> instruments fallible" where
  "emitDevice m em payload tel =
     (case dec_device_payload zero_stream_device payload of
        None \<Rightarrow> (Some (Wrap ''decode Lens stream payload'' (Msg ''json type error'')), tel)
      | Some d \<Rightarrow>
          if sd_ID d = [] \<or> sd_TenantID d = [] then (Some (Msg ''lens stream device payload missing id or tenantId''), tel)
          else
            let e = with_device (stream_telemetry_device d) (with_tenant (sd_TenantID d) em) in
            and_then
              (\<lambda>s. wrap_error ''emit Lens streamed device connection''
                 (gauge m e MetricLensDeviceConnected (FNum (if sd_Connected d then 1 else 0)) [] s))
              (and_then
                (\<lambda>s. wrap_error ''emit Lens stream message'' (counter m e MetricStreamMessages (FNum 1) [] s))
                (\<lambda>s. wrap_error ''emit Lens stream last message'' (gauge m e MetricStreamLastMessageSeconds (FNum 0) [] s)))
              tel)"

section \<open>Sessions\<close>

text \<open>One turn of the message loop; a frame of any other type is passed over.\<close>

definition message_step :: "'w stream_net \<Rightarrow> emitter \<Rightarrow> unit \<Rightarrow> 'w stream_st \<Rightarrow>
    (goerr \<times> 'w stream_st) + (unit \<times> 'w stream_st)" where
  "message_step net em u st =
     (case stream_read net None st of
        (Inl e, st') \<Rightarrow> Inl (Wrap ''read Lens stream'' e, st')
      | (Inr msg, st') \<Rightarrow>
          if frame_Type msg = nextMessage then
            (case emitDevice (ws_meter net) em (frame_Payload msg) (st_tel st') of
               (Some e, tel) \<Rightarrow> Inl (e, st'\<lparr>st_tel := tel\<rparr>)
             | (None, tel) \<Rightarrow> Inr ((), st'\<lparr>st_tel := tel\<rparr>))
          else if frame_Type msg = completeMessage then Inl (Msg ''lens stream completed'', st')
          else if frame_Type msg = ''error'' then Inl (Msg ''lens stream returned a subscription error'', st')
          else Inr ((), st'))"

partial_function (option) message_loop :: "'w stream_net \<Rightarrow> emitter \<Rightarrow> unit \<Rightarrow> 'w stream_st \<Rightarrow> (goerr \<times> 'w stream_st) option" where
  "message_loop net em u st =
     (case message_step net em u st of
        Inl r \<Rightarrow> Some r
      | Inr p \<Rightarrow> message_loop net em (fst p) (snd p))"

definition set_connected :: "'w stream_net \<Rightarrow> emitter \<Rightarrow> int \<Rightarrow> 'w stream_st \<Rightarrow> goerr option \<times> 'w stream_st" where
  "set_connected net em v st =
     (let (r, tel) = gauge (ws_meter net) em MetricLensStreamConnected (FNum v) [] (st_tel st) in (r, st\<lparr>st_tel := tel\<rparr>))"

text \<open>From the acknowledged connection on: the deferred gauge is set however the message loop ends.\<close>

definition subscribed :: "'w stream_net \<Rightarrow> stream_config \<Rightarrow> emitter \<Rightarrow> 'w stream_st \<Rightarrow> (goerr \<times> 'w stream_st) option" where
  "subscribed net cfg em st =
     (case stream_write net (subscribe_frame cfg) st of
        (Some e, st) \<Rightarrow> Some (Wrap ''start Lens stream subscription'' e, st)
      | (None, st) \<Rightarrow>
          (case set_connected net em 1 st of
             (Some e, st) \<Rightarrow> Some (Wrap ''emit connected Lens stream'' e, st)
           | (None, st) \<Rightarrow>
               (case message_loop net em () st of
                  None \<Rightarrow> None
                | Some (e, st) \<Rightarrow> Some (e, snd (set_connected net em 0 st)))))"

definition handshake :: "'w stream_net \<Rightarrow> stream_config \<Rightarrow> emitter \<Rightarrow> string \<Rightarrow> 'w stream_st \<Rightarrow> (goerr \<times> 'w stream_st) option" where
  "handshake net cfg em tok st =
     (case stream_write net (init_frame tok) st of
        (Some e, st) \<Rightarrow> Some (Wrap ''send Lens stream connection_init'' e, st)
      | (None, st) \<Rightarrow>
          (case stream_read net (Some (AckTimeout cfg)) st of
             (Inl e, st) \<Rightarrow> Some (Wrap ''wait for Lens stream acknowledgement'' e, st)
           | (Inr ack, st) \<Rightarrow>
               if frame_Type ack \<noteq> connectionAck
               then Some (Msg (''unexpected Lens stream acknowledgement frame type '' @ go_quote (frame_Type ack)), st)
               else subscribed net cfg em st))"

definition close_now :: "'w stream_net \<Rightarrow> goerr \<Rightarrow> 'w stream_st \<Rightarrow> goerr option \<times> 'w stream_st" where
  "close_now net e st = (let (r, w) = ws_close net (st_net st) in (join_errors [Some e, r], st\<lparr>st_net := w\<rparr>))"

definition session_token :: "'w stream_net \<Rightarrow> stream_config \<Rightarrow> 'w stream_st \<Rightarrow> string result \<times> 'w stream_st" where
  "session_token net cfg st =
     (let (r, st') = (if has_TokenSource cfg then let (r, w) = TokenSource net (st_net st) in (r, st\<lparr>st_net := w\<rparr>)
                      else (Inr (stream_Token cfg), st)) in
      case r of
        Inl e \<Rightarrow> (Inl (Wrap ''get Lens stream token'' e), st')
      | Inr tok \<Rightarrow>
          if trim_space tok = [] then (Inl (Msg ''lens stream token source returned an empty token''), st') else (Inr tok, st'))"

definition session :: "'w stream_net \<Rightarrow> stream_config \<Rightarrow> emitter \<Rightarrow> 'w stream_st \<Rightarrow> (goerr option \<times> 'w stream_st) option" where
  "session net cfg em st =
     (case session_token net cfg st of
        (Inl e, st) \<Rightarrow> Some (Some e, st)
      | (Inr tok, st) \<Rightarrow>
          (case ws_dial net (stream_URL cfg) (''Bearer '' @ tok) [subprotocol] (st_net st) of
             ((dialErr, closeErr), w) \<Rightarrow>
               let st = st\<lparr>st_dials := st_dials st @ [(stream_URL cfg, ''Bearer '' @ tok)], st_net := w\<rparr> in
               (case dialErr of
                  Some e \<Rightarrow> Some (join_errors [Some (Wrap ''dial Lens stream'' e), closeErr], st)
                | None \<Rightarrow>
                    (case closeErr of
                       Some e \<Rightarrow> Some (close_now net (Wrap ''close Lens stream handshake response'' e) st)
                     | None \<Rightarrow>
                         (case handshake net cfg em tok st of
                            None \<Rightarrow> None
                          | Some (e, st) \<Rightarrow> Some (close_now net e st))))))"

section \<open>Running\<close>

definition stream_validate :: "stream_config \<Rightarrow> goerr option" where
  "stream_validate cfg =
     (if trim_space (stream_URL cfg) = [] then Some (Msg ''lens stream URL is required'')
      else if trim_space (stream_Token cfg) = [] \<and> \<not> has_TokenSource cfg then Some (Msg ''lens stream token is required'')
      else if DeviceIDs cfg = [] then Some (Msg ''lens stream requires at least one device ID'')
      else if stream_emitter cfg = None then Some (Msg ''lens stream emitter is required'')
      else if AckTimeout cfg \<le> 0 then Some (Msg ''lens stream acknowledgement timeout must be positive'')
      else if stream_MinBackoff cfg \<le> 0 \<or> stream_MaxBackoff cfg < stream_MinBackoff cfg
      then Some (Msg ''invalid Lens stream reconnect backoff'')
      else None)"

definition stream_backoff :: "stream_config \<Rightarrow> nat \<Rightarrow> int" where
  "stream_backoff cfg failures = doubling (stream_MaxBackoff cfg) (stream_MinBackoff cfg) (failures - 1)"

definition contextResult :: "goerr \<Rightarrow> goerr option" where
  "contextResult err = (if is_error Canceled err \<or> is_error DeadlineExceeded err then None else Some err)"

definition context_done :: "'w stream_net \<Rightarrow> 'w stream_st \<Rightarrow> bool \<times> 'w stream_st" where
  "context_done net st = (let (b, w) = ws_ctx net (st_net st) in (b, st\<lparr>st_net := w\<rparr>))"

definition stream_sleep :: "'w stream_net \<Rightarrow> int \<Rightarrow> 'w stream_st \<Rightarrow> goerr option \<times> 'w stream_st" where
  "stream_sleep net d st =
     (let (r, w) = ws_sleep net d (st_net st) in (r, st\<lparr>st_slept := st_slept st @ [d], st_net := w\<rparr>))"

text \<open>What precedes a session: \<open>Inl\<close> ends \<^verbatim>\<open>Run\<close> with its result.\<close>

definition reconnect :: "'w stream_net \<Rightarrow> stream_config \<Rightarrow> emitter \<Rightarrow> nat \<Rightarrow> 'w stream_st \<Rightarrow>
    (goerr option \<times> 'w stream_st) + 'w stream_st" where
  "reconnect net cfg em failures st =
     (if failures = 0 then Inr st
      else (case counter (ws_meter net) em MetricStreamReconnects (FNum 1) [] (st_tel st) of
          (Some e, tel) \<Rightarrow>
            (case context_done net (st\<lparr>st_tel := tel\<rparr>) of
               (True, st) \<Rightarrow> Inl (None, st)
             | (False, st) \<Rightarrow> Inl (Some (Wrap ''emit stream reconnect'' e), st))
        | (None, tel) \<Rightarrow>
            (case stream_sleep net (stream_backoff cfg failures) (st\<lparr>st_tel := tel\<rparr>) of
               (Some e, st) \<Rightarrow> Inl (contextResult e, st)
             | (None, st) \<Rightarrow> Inr st)))"

partial_function (option) run_from :: "'w stream_net \<Rightarrow> stream_config \<Rightarrow> emitter \<Rightarrow> nat \<Rightarrow> 'w stream_st \<Rightarrow>
    (goerr option \<times> 'w stream_st) option" where
  "run_from net cfg em failures st =
     (case reconnect net cfg em failures st of
        Inl r \<Rightarrow> Some r
      | Inr st1 \<Rightarrow>
          (case session net cfg em st1 of
             None \<Rightarrow> None
           | Some p \<Rightarrow>
               (case context_done net (snd p) of
                  (stop, st2) \<Rightarrow>
                    if stop then Some (None, st2)
                    else if fst p = None then Some (None, st2)
                    else run_from net cfg em (Suc failures) st2)))"

definition stream_Run :: "'w stream_net \<Rightarrow> stream_config \<Rightarrow> 'w stream_st \<Rightarrow> (goerr option \<times> 'w stream_st) option" where
  "stream_Run net cfg st =
     (case stream_validate cfg of
        Some e \<Rightarrow> Some (Some e, st)
      | None \<Rightarrow> (case stream_emitter cfg of None \<Rightarrow> None | Some em \<Rightarrow> run_from net cfg em 0 st))"

section \<open>The message loop\<close>

lemma message_loop_finite:
  assumes "message_loop net em u st = Some r"
  shows "\<exists>n. run_steps (message_step net em) n u st = Some r"
proof (rule message_loop.raw_induct
    [where P = "\<lambda>net em u st r. \<exists>n. run_steps (message_step net em) n u st = Some r", OF _ assms])
  fix loop :: "'a stream_net \<Rightarrow> emitter \<Rightarrow> unit \<Rightarrow> 'a stream_st \<Rightarrow> (goerr \<times> 'a stream_st) option" and net em u st r
  assume IH: "\<And>net em u st r. loop net em u st = Some r \<Longrightarrow> \<exists>n. run_steps (message_step net em) n u st = Some r"
    and eq: "(case message_step net em u st of Inl r \<Rightarrow> Some r | Inr p \<Rightarrow> loop net em (fst p) (snd p)) = Some r"
  show "\<exists>n. run_steps (message_step net em) n u st = Some r"
  proof (cases "message_step net em u st")
    case (Inl x)
    with eq show ?thesis by (intro exI [of _ 1]) simp
  next
    case (Inr p)
    with eq IH obtain n where "run_steps (message_step net em) n (fst p) (snd p) = Some r"
      by (metis sum.simps(6))
    with Inr show ?thesis by (intro exI [of _ "Suc n"]) (simp add: case_prod_unfold)
  qed
qed

interpretation messages: cursor_loop "message_step net em" "message_loop net em" for net em
proof
  show "message_loop net em c s =
      (case message_step net em c s of Inl r \<Rightarrow> Some r | Inr (c', s') \<Rightarrow> message_loop net em c' s')" for c s
    by (subst message_loop.simps) (simp add: case_prod_unfold split: sum.splits)
qed (rule message_loop_finite)

interpretation stream_delay: backoff_delay "stream_backoff cfg" "stream_MinBackoff cfg" "stream_MaxBackoff cfg" for cfg
proof
  show "stream_backoff cfg n \<le> stream_MaxBackoff cfg" for n by (simp add: stream_backoff_def doubling_le)
  show "stream_backoff cfg 1 = stream_MinBackoff cfg" if "stream_MinBackoff cfg \<le> stream_MaxBackoff cfg"
    using that by (simp add: stream_backoff_def)
  show "stream_backoff cfg n \<le> stream_backoff cfg (Suc n)"
    if "0 < stream_MinBackoff cfg" "stream_MinBackoff cfg \<le> stream_MaxBackoff cfg" "1 \<le> n" for n
    using doubling_mono [OF that(1,2), of "n - 1"] that(3) by (simp add: stream_backoff_def)
qed

section \<open>What the steps leave alone\<close>

text \<open>What everything but the handshake keeps: the dials, the frames, the pauses and the connected gauge.\<close>

definition quiet :: "'w stream_st \<Rightarrow> 'w stream_st \<Rightarrow> bool" where
  "quiet st st' \<longleftrightarrow> st_dials st' = st_dials st \<and> st_writes st' = st_writes st \<and> st_slept st' = st_slept st \<and>
     gauge_trace MetricLensStreamConnected (st_tel st') = gauge_trace MetricLensStreamConnected (st_tel st)"

lemma quiet_refl: "quiet st st"
  by (simp add: quiet_def)

lemma quiet_trans: "quiet a b \<Longrightarrow> quiet b c \<Longrightarrow> quiet a c"
  by (simp add: quiet_def)

lemma quiet_net: "quiet st (st\<lparr>st_net := w\<rparr>)"
  by (simp add: quiet_def)

lemma quiet_tel:
  "gauge_trace MetricLensStreamConnected tel = gauge_trace MetricLensStreamConnected (st_tel st) \<Longrightarrow> quiet st (st\<lparr>st_tel := tel\<rparr>)"
  by (simp add: quiet_def)

lemma emitDevice_trace:
  assumes "emitDevice m em payload tel = (r, tel')"
  shows "gauge_trace MetricLensStreamConnected tel' = gauge_trace MetricLensStreamConnected tel"
proof -
  let ?I = "\<lambda>t. gauge_trace MetricLensStreamConnected t = gauge_trace MetricLensStreamConnected tel"
  have g: "?I s'" if "wrap_error w (gauge m e name v attrs s) = (r, s')" "?I s" "name \<noteq> MetricLensStreamConnected" for w e name v attrs s r s'
    using that gauge_trace_other [of m e name v attrs s] by (cases "gauge m e name v attrs s") (auto simp: wrap_error_def)
  have c: "?I s'" if "wrap_error w (counter m e name v attrs s) = (r, s')" "?I s" for w e name v attrs s r s'
    using that gauge_trace_counter [of m e name v attrs s] by (cases "counter m e name v attrs s") (auto simp: wrap_error_def)
  show ?thesis
    using assms unfolding emitDevice_def Let_def
    by (auto split: option.splits if_splits elim!: and_then_inv [where I = ?I] intro: g c)
qed

lemma stream_read_quiet: "stream_read net d st = (r, st') \<Longrightarrow> quiet st st'"
  by (auto simp: stream_read_def Let_def quiet_def split: prod.splits sum.splits option.splits)

lemma message_step_quiet:
  "message_step net em u st = Inl (e, st') \<Longrightarrow> quiet st st'"
  "message_step net em u st = Inr (u', st') \<Longrightarrow> quiet st st'"
proof -
  obtain r st1 where r: "stream_read net None st = (r, st1)" by (rule prod.exhaust)
  note q = stream_read_quiet [OF r]
  have t: "quiet st (st1\<lparr>st_tel := tel\<rparr>)" if "emitDevice m em p (st_tel st1) = (x, tel)" for m p x tel
    using quiet_trans [OF q quiet_tel [OF emitDevice_trace [OF that]]] .
  show "message_step net em u st = Inl (e, st') \<Longrightarrow> quiet st st'"
    using q t r by (auto simp: message_step_def split: sum.splits if_splits prod.splits option.splits)
  show "message_step net em u st = Inr (u', st') \<Longrightarrow> quiet st st'"
    using q t r by (auto simp: message_step_def split: sum.splits if_splits prod.splits option.splits)
qed

lemma message_loop_quiet:
  assumes "message_loop net em u st = Some (e, st')"
  shows "quiet st st'"
proof -
  obtain n where "run_steps (message_step net em) n u st = Some (e, st')" using messages.loop_finite [OF assms] by blast
  then show ?thesis
  proof (induction n arbitrary: u st)
    case (Suc n)
    show ?case
    proof (cases "message_step net em u st")
      case (Inl p)
      with Suc.prems message_step_quiet(1) [of net em u st e st'] show ?thesis by simp
    next
      case (Inr p)
      obtain u' st1 where p: "p = (u', st1)" by (rule prod.exhaust)
      with Suc Inr have "quiet st1 st'" by simp
      with message_step_quiet(2) Inr p show ?thesis by (blast intro: quiet_trans)
    qed
  qed simp
qed

section \<open>Sessions and runs\<close>

text \<open>The records of one connection: up for every scoped emitter, and down again.\<close>

definition connected_records :: "emitter \<Rightarrow> int \<Rightarrow> signal list" where
  "connected_records em v = map (\<lambda>b. GaugeRecord MetricLensStreamConnected (FNum v) (otel_attrs b [])) (scoped em)"

definition pulse :: "emitter \<Rightarrow> signal list" where
  "pulse em = connected_records em 1 @ connected_records em 0"

definition gauge_works :: "'w stream_net \<Rightarrow> bool" where
  "gauge_works net \<longleftrightarrow> (\<forall>tel. Float64Gauge (ws_meter net) tel MetricLensStreamConnected = None)"

lemma set_connected_works:
  assumes "gauge_works net" "set_connected net em v st = (r, st')"
  shows "r = None" "st_dials st' = st_dials st" "st_writes st' = st_writes st" "st_slept st' = st_slept st"
    "gauge_trace MetricLensStreamConnected (st_tel st') =
       gauge_trace MetricLensStreamConnected (st_tel st) @ connected_records em v"
proof -
  obtain r1 tel where g: "gauge (ws_meter net) em MetricLensStreamConnected (FNum v) [] (st_tel st) = (r1, tel)"
    by (rule prod.exhaust)
  have n: "r1 = None"
    using gauge_succeeds [of "ws_meter net" MetricLensStreamConnected em "FNum v" "[]" "st_tel st"] assms(1) g
    by (simp add: gauge_works_def)
  have e: "r = r1" "st' = st\<lparr>st_tel := tel\<rparr>" using assms(2) g by (simp_all add: set_connected_def)
  show "r = None" "st_dials st' = st_dials st" "st_writes st' = st_writes st" "st_slept st' = st_slept st"
    using n e by simp_all
  show "gauge_trace MetricLensStreamConnected (st_tel st') =
       gauge_trace MetricLensStreamConnected (st_tel st) @ connected_records em v"
    using gauge_trace_gauge [OF g [unfolded n]] e by (simp add: connected_records_def)
qed

text \<open>What a part of a session adds: dials, frames and records of the connected gauge, but no pause.\<close>

definition adds :: "'w stream_st \<Rightarrow> 'w stream_st \<Rightarrow> (string \<times> string) list \<Rightarrow> json list \<Rightarrow> signal list \<Rightarrow> bool" where
  "adds st st' ds ws gs \<longleftrightarrow>
     st_dials st' = st_dials st @ ds \<and> st_writes st' = st_writes st @ ws \<and> st_slept st' = st_slept st \<and>
     gauge_trace MetricLensStreamConnected (st_tel st') = gauge_trace MetricLensStreamConnected (st_tel st) @ gs"

lemma adds_quiet: "quiet st st' \<longleftrightarrow> adds st st' [] [] []"
  by (simp add: quiet_def adds_def)

lemma adds_trans: "adds a b ds ws gs \<Longrightarrow> adds b c ds' ws' gs' \<Longrightarrow> adds a c (ds @ ds') (ws @ ws') (gs @ gs')"
  by (simp add: adds_def)

lemma adds_write: "stream_write net f st = (r, st') \<Longrightarrow> adds st st' [] [frame_json f] []"
  by (auto simp: stream_write_def adds_def split: prod.splits)

lemma adds_connected: "gauge_works net \<Longrightarrow> set_connected net em v st = (r, st') \<Longrightarrow> adds st st' [] [] (connected_records em v)"
  using set_connected_works by (auto simp: adds_def)

lemma subscribed_adds:
  assumes "gauge_works net" "subscribed net cfg em st = Some (e, st')"
  shows "\<exists>n \<le> 1. adds st st' [] [frame_json (subscribe_frame cfg)] (concat (replicate n (pulse em)))"
proof -
  obtain r1 st1 where w: "stream_write net (subscribe_frame cfg) st = (r1, st1)" by (rule prod.exhaust)
  obtain r2 st2 where g: "set_connected net em 1 st1 = (r2, st2)" by (rule prod.exhaust)
  show ?thesis
  proof (cases r1)
    case (Some x)
    with assms(2) w have "st' = st1" by (simp add: subscribed_def)
    with adds_write [OF w] show ?thesis by (intro exI [of _ 0]) simp
  next
    case None
    have "r2 = None" using set_connected_works(1) [OF assms(1) g] .
    with None w g assms(2) obtain st3 where l: "message_loop net em () st2 = Some (e, st3)"
      and e: "st' = snd (set_connected net em 0 st3)" by (auto simp: subscribed_def split: option.splits)
    obtain r4 where d: "set_connected net em 0 st3 = (r4, st')" using e by (metis prod.collapse)
    have "adds st st' [] [frame_json (subscribe_frame cfg)] (pulse em)"
      using adds_trans [OF adds_trans [OF adds_trans [OF adds_write [OF w] adds_connected [OF assms(1) g]]
            message_loop_quiet [OF l, unfolded adds_quiet]] adds_connected [OF assms(1) d]]
      by (simp add: pulse_def)
    then show ?thesis by (intro exI [of _ 1]) simp
  qed
qed

lemma handshake_adds:
  assumes "gauge_works net" "handshake net cfg em tok st = Some (e, st')"
  shows "\<exists>k n. 1 \<le> k \<and> k \<le> 2 \<and> n \<le> 1 \<and> (n = 0 \<or> k = 2) \<and>
    adds st st' [] (take k [frame_json (init_frame tok), frame_json (subscribe_frame cfg)]) (concat (replicate n (pulse em)))"
proof -
  let ?i = "frame_json (init_frame tok)" and ?s = "frame_json (subscribe_frame cfg)"
  obtain r1 st1 where w: "stream_write net (init_frame tok) st = (r1, st1)" by (rule prod.exhaust)
  obtain r2 st2 where r: "stream_read net (Some (AckTimeout cfg)) st1 = (r2, st2)" by (rule prod.exhaust)
  note a1 = adds_write [OF w]
  note a2 = adds_trans [OF a1 stream_read_quiet [OF r, unfolded adds_quiet]]
  have "adds st st' [] [?i] [] \<or> subscribed net cfg em st2 = Some (e, st')"
    using assms(2) w r a1 a2 by (auto simp: handshake_def split: option.splits sum.splits if_splits)
  then show ?thesis
  proof
    assume "adds st st' [] [?i] []"
    then show ?thesis by (intro exI [of _ 1] exI [of _ 0]) simp
  next
    assume "subscribed net cfg em st2 = Some (e, st')"
    then obtain n where n: "n \<le> 1" "adds st2 st' [] [?s] (concat (replicate n (pulse em)))"
      using subscribed_adds [OF assms(1)] by blast
    with adds_trans [OF a2 n(2)] show ?thesis by (intro exI [of _ 2] exI [of _ n]) simp
  qed
qed

lemma join_errors_head [simp]: "\<exists>y. join_errors (Some e # es) = Some y"
  using join_errors_None_iff [of "Some e # es"] by auto

lemma adds_close: "close_now net e st = (r, st') \<Longrightarrow> adds st st' [] [] [] \<and> r \<noteq> None"
  by (auto simp: close_now_def adds_def split: prod.splits)

lemma session_token_quiet: "session_token net cfg st = (r, st') \<Longrightarrow> quiet st st'"
  by (auto simp: session_token_def Let_def quiet_def split: prod.splits sum.splits if_splits)

lemma session_effects:
  assumes "gauge_works net" "session net cfg em st = Some (r, st')"
  shows "r \<noteq> None \<and>
    (\<exists>tok d k n. d \<le> 1 \<and> k \<le> 2 \<and> n \<le> 1 \<and> (k = 0 \<or> d = 1) \<and> (n = 0 \<or> k = 2) \<and>
      st_dials st' = st_dials st @ replicate d (stream_URL cfg, ''Bearer '' @ tok) \<and>
      st_writes st' = st_writes st @ take k [frame_json (init_frame tok), frame_json (subscribe_frame cfg)] \<and>
      st_slept st' = st_slept st \<and>
      gauge_trace MetricLensStreamConnected (st_tel st') =
        gauge_trace MetricLensStreamConnected (st_tel st) @ concat (replicate n (pulse em)))"
    (is "_ \<and> (\<exists>tok d k n. ?P tok d k n)")
proof -
  obtain t st1 where t: "session_token net cfg st = (t, st1)" by (rule prod.exhaust)
  note q = session_token_quiet [OF t]
  show ?thesis
  proof (cases t)
    case (Inl e)
    with assms(2) t have "r \<noteq> None" "st' = st1" by (auto simp: session_def)
    with q have "r \<noteq> None" "?P [] 0 0 0" by (simp_all add: quiet_def)
    then show ?thesis by blast
  next
    case (Inr tok)
    obtain de ce w where dial: "ws_dial net (stream_URL cfg) (''Bearer '' @ tok) [subprotocol] (st_net st1) = ((de, ce), w)"
      by (metis prod.exhaust)
    let ?st2 = "st1\<lparr>st_dials := st_dials st1 @ [(stream_URL cfg, ''Bearer '' @ tok)], st_net := w\<rparr>"
    have a2: "adds st ?st2 [(stream_URL cfg, ''Bearer '' @ tok)] [] []" using q by (simp add: adds_def quiet_def)
    consider "de \<noteq> None" "r \<noteq> None" "st' = ?st2"
      | e where "close_now net e ?st2 = (r, st')"
      | e st3 where "handshake net cfg em tok ?st2 = Some (e, st3)" "close_now net e st3 = (r, st')"
      using assms(2) t Inr dial
      by (auto simp: session_def Let_def split: option.splits prod.splits)
    then show ?thesis
    proof cases
      case 1
      with a2 have "?P tok 1 0 0" by (simp add: adds_def)
      with 1 show ?thesis by blast
    next
      case 2
      with adds_close [OF 2] a2 have "?P tok 1 0 0" "r \<noteq> None" by (simp_all add: adds_def)
      then show ?thesis by blast
    next
      case 3
      obtain k n where "k \<le> 2" "n \<le> 1" "n = 0 \<or> k = 2"
        "adds ?st2 st3 [] (take k [frame_json (init_frame tok), frame_json (subscribe_frame cfg)]) (concat (replicate n (pulse em)))"
        using handshake_adds [OF assms(1) 3(1)] by blast
      with adds_close [OF 3(2)] a2 have "?P tok 1 k n" "r \<noteq> None" by (simp_all add: adds_def)
      then show ?thesis by blast
    qed
  qed
qed

lemma session_trace:
  assumes "gauge_works net" "session net cfg em st = Some (r, st')"
  shows "r \<noteq> None \<and> (\<exists>n. st_slept st' = st_slept st \<and>
      gauge_trace MetricLensStreamConnected (st_tel st') =
        gauge_trace MetricLensStreamConnected (st_tel st) @ concat (replicate n (pulse em)))"
  using session_effects [OF assms] by blast

lemma context_not_done: "\<forall>w. \<not> fst (ws_ctx net w) \<Longrightarrow> \<exists>st'. context_done net st = (False, st')"
  by (auto simp: context_done_def split: prod.splits) (metis fst_conv)

lemma reconnect_goes_on:
  assumes "\<forall>d w. fst (ws_sleep net d w) = None" "\<forall>tel name. Float64Counter (ws_meter net) tel name = None"
  shows "\<exists>st'. reconnect net cfg em f st = Inr st'"
proof -
  obtain x tel where c: "counter (ws_meter net) em MetricStreamReconnects (FNum 1) [] (st_tel st) = (x, tel)" by (rule prod.exhaust)
  then have "x = None" using counter_succeeds [of "ws_meter net" em MetricStreamReconnects "FNum 1" "[]" "st_tel st"] assms(2) by simp
  moreover have "fst (stream_sleep net (stream_backoff cfg f) (st\<lparr>st_tel := tel\<rparr>)) = None"
    using assms(1) by (simp add: stream_sleep_def case_prod_unfold Let_def)
  then obtain s where "stream_sleep net (stream_backoff cfg f) (st\<lparr>st_tel := tel\<rparr>) = (None, s)"
    by (cases "stream_sleep net (stream_backoff cfg f) (st\<lparr>st_tel := tel\<rparr>)") simp
  ultimately show ?thesis using c by (auto simp: reconnect_def)
qed

lemma context_done_quiet: "context_done net st = (b, st') \<Longrightarrow> quiet st st'"
  by (auto simp: context_done_def quiet_def split: prod.splits)

text \<open>The pauses of a run that has failed \<open>f\<close> times before, and the pulses of its gauge.\<close>

definition run_trace :: "stream_config \<Rightarrow> emitter \<Rightarrow> nat \<Rightarrow> 'w stream_st \<Rightarrow> 'w stream_st \<Rightarrow> nat \<Rightarrow> nat \<Rightarrow> bool" where
  "run_trace cfg em f st st' n i \<longleftrightarrow>
     st_slept st' = st_slept st @ map (stream_backoff cfg) [max 1 f..<max 1 f + n] \<and>
     gauge_trace MetricLensStreamConnected (st_tel st') =
       gauge_trace MetricLensStreamConnected (st_tel st) @ concat (replicate i (pulse em))"

lemma run_trace_quiet: "quiet st st' \<Longrightarrow> run_trace cfg em f st st' 0 0"
  by (simp add: run_trace_def quiet_def)

lemma run_trace_quiet_after: "run_trace cfg em f st st' n i \<Longrightarrow> quiet st' st'' \<Longrightarrow> run_trace cfg em f st st'' n i"
  by (simp add: run_trace_def quiet_def)

lemma reconnect_trace:
  "reconnect net cfg em f st = Inl (r, st') \<Longrightarrow> \<exists>n. run_trace cfg em f st st' n 0"
  "reconnect net cfg em f st = Inr st' \<Longrightarrow> run_trace cfg em f st st' (if f = 0 then 0 else 1) 0"
proof -
  obtain x tel where c: "counter (ws_meter net) em MetricStreamReconnects (FNum 1) [] (st_tel st) = (x, tel)" by (rule prod.exhaust)
  let ?st = "st\<lparr>st_tel := tel\<rparr>"
  have q: "quiet st ?st" by (rule quiet_tel) (rule gauge_trace_counter [OF c])
  have sl: "run_trace cfg em f st s 1 0" if "stream_sleep net (stream_backoff cfg f) ?st = (y, s)" "f \<noteq> 0" for y s
    using that q by (auto simp: stream_sleep_def run_trace_def quiet_def split: prod.splits)
  have cx: "run_trace cfg em f st s 0 0" if "context_done net ?st = (b, s)" for b s
    using run_trace_quiet [OF quiet_trans [OF q context_done_quiet [OF that]]] .
  show "reconnect net cfg em f st = Inl (r, st') \<Longrightarrow> \<exists>n. run_trace cfg em f st st' n 0"
    using c sl cx by (auto simp: reconnect_def split: if_splits option.splits prod.splits bool.splits)
  show "reconnect net cfg em f st = Inr st' \<Longrightarrow> run_trace cfg em f st st' (if f = 0 then 0 else 1) 0"
    using c sl by (auto simp: reconnect_def run_trace_def split: if_splits option.splits prod.splits bool.splits)
qed

lemma run_trace_step:
  assumes "run_trace cfg em f st st1 (if f = 0 then 0 else 1) 0" "run_trace cfg em (Suc f) st2 st' n i"
    and "st_slept st2 = st_slept st1"
    and "gauge_trace MetricLensStreamConnected (st_tel st2) =
      gauge_trace MetricLensStreamConnected (st_tel st1) @ concat (replicate k (pulse em))"
  shows "run_trace cfg em f st st' (if f = 0 then n else Suc n) (k + i)"
proof -
  have "[f..<f + Suc n] = f # [Suc f..<Suc f + n]" by (simp add: upt_conv_Cons del: upt_Suc)
  moreover have "[f..<Suc f] = [f]" by simp
  ultimately show ?thesis using assms by (cases "f = 0") (auto simp: run_trace_def replicate_add simp del: upt_Suc)
qed

lemma run_from_trace:
  assumes "run_from net cfg em f st = Some (r, st')" "gauge_works net"
  shows "\<exists>n i. run_trace cfg em f st st' n i"
proof -
  have "gauge_works net \<longrightarrow> (\<exists>n i. run_trace cfg em f st (snd (r, st')) n i)"
  proof (rule run_from.raw_induct
      [where P = "\<lambda>net cfg em f st p. gauge_works net \<longrightarrow> (\<exists>n i. run_trace cfg em f st (snd p) n i)", OF _ assms(1)], rule impI)
    fix loop :: "'a stream_net \<Rightarrow> stream_config \<Rightarrow> emitter \<Rightarrow> nat \<Rightarrow> 'a stream_st \<Rightarrow> (goerr option \<times> 'a stream_st) option"
      and net cfg em f st p
    assume IH: "\<And>net cfg em f st p. loop net cfg em f st = Some p \<Longrightarrow>
        gauge_works net \<longrightarrow> (\<exists>n i. run_trace cfg em f st (snd p) n i)"
      and eq: "(case reconnect net cfg em f st of Inl r \<Rightarrow> Some r
        | Inr st1 \<Rightarrow> (case session net cfg em st1 of None \<Rightarrow> None
            | Some p \<Rightarrow> (case context_done net (snd p) of (stop, st2) \<Rightarrow>
                if stop then Some (None, st2) else if fst p = None then Some (None, st2)
                else loop net cfg em (Suc f) st2))) = Some p"
      and ok: "gauge_works net"
    show "\<exists>n i. run_trace cfg em f st (snd p) n i"
    proof (cases "reconnect net cfg em f st")
      case (Inl x)
      then have "p = x" using eq by simp
      then show ?thesis using reconnect_trace(1) [of net cfg em f st "fst x" "snd x"] Inl by auto
    next
      case (Inr st1)
      note t1 = reconnect_trace(2) [OF Inr]
      obtain r2 st2 where s: "session net cfg em st1 = Some (r2, st2)" using eq Inr by (auto split: option.splits)
      obtain b st3 where c: "context_done net st2 = (b, st3)" by (rule prod.exhaust)
      obtain k where k: "st_slept st2 = st_slept st1" "gauge_trace MetricLensStreamConnected (st_tel st2) =
          gauge_trace MetricLensStreamConnected (st_tel st1) @ concat (replicate k (pulse em))"
        using session_trace [OF ok s] by blast
      then have k3: "st_slept st3 = st_slept st1" "gauge_trace MetricLensStreamConnected (st_tel st3) =
          gauge_trace MetricLensStreamConnected (st_tel st1) @ concat (replicate k (pulse em))"
        using context_done_quiet [OF c] by (simp_all add: quiet_def)
      have "snd p = st3 \<or> loop net cfg em (Suc f) st3 = Some p" using eq Inr s c by (auto split: if_splits)
      moreover have "run_trace cfg em (Suc f) st3 st3 0 0" by (rule run_trace_quiet) (rule quiet_refl)
      ultimately obtain n i where "run_trace cfg em (Suc f) st3 (snd p) n i" using IH ok by metis
      from run_trace_step [OF t1 this k3] show ?thesis by blast
    qed
  qed
  with assms(2) show ?thesis by simp
qed



definition unstopped :: "'w stream_net \<Rightarrow> bool" where
  "unstopped net \<longleftrightarrow> (\<forall>w. \<not> fst (ws_ctx net w)) \<and> (\<forall>d w. fst (ws_sleep net d w) = None) \<and>
     (\<forall>tel name. Float64Counter (ws_meter net) tel name = None) \<and> gauge_works net"

text \<open>
  C18 (reconnecting forever). With valid settings, \<^verbatim>\<open>Run\<close> does not return as long as its context is not done,
  its pauses are not cut short and the reconnect counter can be recorded: whatever the server does,
  it connects again.
\<close>

theorem stream_never_gives_up:
  assumes "stream_validate cfg = None" "\<And>w. \<not> fst (ws_ctx net w)" "\<And>d w. fst (ws_sleep net d w) = None"
    and "\<And>tel name. Float64Counter (ws_meter net) tel name = None" "gauge_works net"
  shows "stream_Run net cfg st = None"
proof -
  have u: "unstopped net" using assms by (simp add: unstopped_def)
  have "\<not> unstopped net" if h: "run_from net cfg em f st = Some p" for em f st p
  proof (rule run_from.raw_induct [where P = "\<lambda>net cfg em f st p. \<not> unstopped net", OF _ h], rule notI)
    fix loop :: "'a stream_net \<Rightarrow> stream_config \<Rightarrow> emitter \<Rightarrow> nat \<Rightarrow> 'a stream_st \<Rightarrow> (goerr option \<times> 'a stream_st) option"
      and net cfg em f st p
    assume IH: "\<And>net cfg em f st p. loop net cfg em f st = Some p \<Longrightarrow> \<not> unstopped net"
      and eq: "(case reconnect net cfg em f st of Inl r \<Rightarrow> Some r
        | Inr st1 \<Rightarrow> (case session net cfg em st1 of None \<Rightarrow> None
            | Some p \<Rightarrow> (case context_done net (snd p) of (stop, st2) \<Rightarrow>
                if stop then Some (None, st2) else if fst p = None then Some (None, st2)
                else loop net cfg em (Suc f) st2))) = Some p"
      and ok: "unstopped net"
    obtain st1 where r: "reconnect net cfg em f st = Inr st1" using reconnect_goes_on ok unfolding unstopped_def by blast
    then obtain r2 st2 where s: "session net cfg em st1 = Some (r2, st2)" using eq by (auto split: option.splits)
    have "r2 \<noteq> None" using session_trace [OF _ s] ok unfolding unstopped_def by blast
    moreover obtain st3 where "context_done net st2 = (False, st3)" using ok context_not_done unfolding unstopped_def by blast
    ultimately have "loop net cfg em (Suc f) st3 = Some p" using eq r s by (cases r2) simp_all
    with IH ok show False by blast
  qed
  then have "run_from net cfg em 0 st = None" for em using u by (metis not_Some_eq)
  then show ?thesis using assms(1) by (simp add: stream_Run_def split: option.splits)
qed

section \<open>An example server\<close>

text \<open>It acknowledges, reports one device and drops the connection; the context is done after that.\<close>

definition ex_stream_read :: "int option \<Rightarrow> nat \<Rightarrow> json option result \<times> nat" where
  "ex_stream_read d w =
     (if w = 0 then Inr (Some (JObj [(''type'', JStr ''connection_ack'')]))
      else if w = 1 then Inr (Some (JObj [(''type'', JStr ''next''), (''payload'', JObj [(''data'', JObj [(''deviceStream'',
        JObj [(''id'', JStr ''d''), (''tenantId'', JStr ''t''), (''connected'', JBool True)])])])]))
      else Inl (Msg ''closed''), Suc w)"

definition ex_stream :: "nat stream_net" where
  "ex_stream = \<lparr>TokenSource = (\<lambda>w. (Inr [], w)), ws_dial = (\<lambda>u a ps w. ((None, None), w)), ws_write = (\<lambda>j w. (None, w)),
     ws_read = ex_stream_read, ws_close = (\<lambda>w. (None, w)), ws_sleep = (\<lambda>d w. (None, w)), ws_ctx = (\<lambda>w. (3 \<le> w, w)),
     ws_meter = ex_meter\<rparr>"

definition ex_stream_cfg :: stream_config where
  "ex_stream_cfg = \<lparr>stream_URL = ''wss'', stream_Token = ''tok'', has_TokenSource = False, DeviceIDs = [''d''], AckTimeout = 1,
     stream_MinBackoff = 1, stream_MaxBackoff = 8, stream_emitter = Some ex_emitter\<rparr>"

definition ex_stream_st :: "nat stream_st" where
  "ex_stream_st = \<lparr>st_dials = [], st_writes = [], st_slept = [], st_tel = ex_tel, st_net = 0\<rparr>"

declare message_loop.simps [code] run_from.simps [code]

lemma ex_gauge_works: "gauge_works ex_stream"
  by (simp add: gauge_works_def ex_stream_def ex_meter_def)

lemma ex_session_ends: "session ex_stream ex_stream_cfg ex_emitter ex_stream_st \<noteq> None"
  by code_simp

lemma ex_run_ends: "stream_Run ex_stream ex_stream_cfg ex_stream_st \<noteq> None"
  by code_simp



theorem stream_never_gives_up_witness:
  "stream_Run (ex_stream\<lparr>ws_ctx := (\<lambda>w. (False, w))\<rparr>) ex_stream_cfg ex_stream_st = None"
proof (rule stream_never_gives_up)
  show "stream_validate ex_stream_cfg = None" by code_simp
qed (simp_all add: ex_stream_def ex_meter_def gauge_works_def)

end
