(* ===== verification/GoBase64.thy ===== *)
theory GoBase64
  imports GoStrings
begin

text \<open>
  \<^verbatim>\<open>base64.StdEncoding.EncodeToString\<close> of Go's \<^verbatim>\<open>encoding/base64\<close>, and the reader of RFC 4648 for it, which states what a
  server makes of the text. Reading what was written gives back the bytes, so the encoding loses and hides nothing.
\<close>

definition base64_char :: "nat \<Rightarrow> char" where
  "base64_char n =
     (if n < 26 then char_of (65 + n) else if n < 52 then char_of (97 + (n - 26))
      else if n < 62 then char_of (48 + (n - 52)) else if n = 62 then CHR ''+'' else CHR ''/'')"

definition base64_index :: "char \<Rightarrow> nat option" where
  "base64_index c =
     (if is_upper c then Some (code c - 65) else if is_lower c then Some (code c - 97 + 26)
      else if is_digit c then Some (code c - 48 + 52) else if c = CHR ''+'' then Some 62 else if c = CHR ''/'' then Some 63 else None)"

text \<open>Three bytes become four sextets; a last group of one or two bytes is filled up with equals signs.\<close>

fun base64_encode :: "string \<Rightarrow> string" where
  "base64_encode [] = []"
| "base64_encode [a] = [base64_char (code a div 4), base64_char (code a mod 4 * 16), CHR ''='', CHR ''='']"
| "base64_encode [a, b] =
     [base64_char (code a div 4), base64_char (code a mod 4 * 16 + code b div 16), base64_char (code b mod 16 * 4), CHR ''='']"
| "base64_encode (a # b # c # s) =
     base64_char (code a div 4) # base64_char (code a mod 4 * 16 + code b div 16) #
     base64_char (code b mod 16 * 4 + code c div 64) # base64_char (code c mod 64) # base64_encode s"

fun base64_decode :: "string \<Rightarrow> string option" where
  "base64_decode [] = Some []"
| "base64_decode (w # x # y # z # s) =
     (case (base64_index w, base64_index x) of
        (Some i, Some j) \<Rightarrow>
          (case (base64_index y, base64_index z) of
             (Some k, Some l) \<Rightarrow>
               map_option (\<lambda>r. char_of (i * 4 + j div 16) # char_of (j mod 16 * 16 + k div 4) # char_of (k mod 4 * 64 + l) # r) (base64_decode s)
           | (Some k, None) \<Rightarrow>
               if z = CHR ''='' \<and> s = [] then Some [char_of (i * 4 + j div 16), char_of (j mod 16 * 16 + k div 4)] else None
           | (None, _) \<Rightarrow> if y = CHR ''='' \<and> z = CHR ''='' \<and> s = [] then Some [char_of (i * 4 + j div 16)] else None)
      | _ \<Rightarrow> None)"
| "base64_decode s = None"

lemma base64_index_char [simp]: "n < 64 \<Longrightarrow> base64_index (base64_char n) = Some n"
  by (auto simp: base64_index_def base64_char_def char_defs code_char_of)

lemma base64_index_pad [simp]: "base64_index (CHR ''='') = None"
  by code_simp

lemma char_of_code [simp]: "char_of (code c) = c"
  by (simp add: code_def)

lemma high_part [simp]: "y < n \<Longrightarrow> (x * n + y) div n = (x::nat)"
  by simp

lemma low_part [simp]: "y < n \<Longrightarrow> (x * n + y) mod n = (y::nat)"
  by (simp add: mod_add_eq [symmetric])

lemma div_bound: "a < n * m \<Longrightarrow> a div m < (n::nat)"
  by (rule less_mult_imp_div_less)

lemma joined_bound: "x < n \<Longrightarrow> y < m \<Longrightarrow> x * m + y < n * (m::nat)"
proof -
  assume "x < n" "y < m"
  then have "x * m + y < Suc x * m" "Suc x * m \<le> n * m" by simp (rule mult_le_mono1, use \<open>x < n\<close> in simp)
  then show ?thesis by (rule less_le_trans)
qed

lemma code_parts [simp]:
  "code a div 4 < 64" "code a div 16 < 16" "code a div 64 < 4" "code a mod 4 * 16 + code b div 16 < 64"
  "code a mod 16 * 4 + code b div 64 < 64" "code a mod 4 * 16 < 64" "code a mod 16 * 4 < 64"
proof -
  show d: "code a div 4 < 64" "code a div 16 < 16" "code a div 64 < 4" for a
    by (rule div_bound, use code_less [of a] in simp)+
  show "code a mod 4 * 16 + code b div 16 < 64" using joined_bound [of "code a mod 4" 4 "code b div 16" 16] d by simp
  show "code a mod 16 * 4 + code b div 64 < 64" using joined_bound [of "code a mod 16" 16 "code b div 64" 4] d by simp
  show "code a mod 4 * 16 < 64" using joined_bound [of "code a mod 4" 4 0 16] by simp
  show "code a mod 16 * 4 < 64" using joined_bound [of "code a mod 16" 16 0 4] by simp
qed

theorem base64_roundtrip: "base64_decode (base64_encode s) = Some s"
proof (induction s rule: base64_encode.induct)
  case (2 a)
  show ?case by (simp add: div_mult_mod_eq)
next
  case (3 a b)
  show ?case by (simp add: div_mult_mod_eq)
next
  case (4 a b c s)
  then show ?case by (simp add: div_mult_mod_eq)
qed simp

end
