(* ===== verification/Providers.thy ===== *)
theory Providers
  imports Telemetry GoBase64
begin

text \<open>
  \<^verbatim>\<open>internal/telemetry/provider.go\<close>: the three exporters, the providers over them and their shutdown.

  The objects of the OpenTelemetry SDK are represented by what they are made from: an exporter by its signal, its transport
  and the options its constructor is given, a provider by its resource and exporter. Whether a constructor or a shutdown
  fails is a parameter (\<open>sdk_env\<close>); the state (\<open>sdk_state\<close>) records the exporters made, the global providers and the
  providers shut down.
\<close>

section \<open>The SDK\<close>

datatype otlp_signal = MetricSignal | LogSignal | TraceSignal

datatype otlp_transport = OverHTTP | OverGRPC

datatype otlp_option = WithEndpointURL string | WithEndpoint string | WithHeaders "(string \<times> string) list" | WithInsecure

datatype exporter = Exporter (exp_signal: otlp_signal) (exp_transport: otlp_transport) (exp_options: "otlp_option list")

type_synonym resource = "(string \<times> string) list"

datatype provider = Provider (prov_resource: resource) (prov_exporter: exporter) (prov_interval: "int option")

record sdk_env =
  exporter_err :: "exporter \<Rightarrow> goerr option"
  resource_err :: "resource \<Rightarrow> goerr option"
  shutdown_err :: "provider \<Rightarrow> goerr option"

record sdk_state =
  sdk_made :: "exporter list"
  sdk_meter :: "provider option"
  sdk_tracer :: "provider option"
  sdk_down :: "provider list"

definition new_sdk :: sdk_state where
  "new_sdk = \<lparr>sdk_made = [], sdk_meter = None, sdk_tracer = None, sdk_down = []\<rparr>"

section \<open>NewProviders\<close>

text \<open>\<open>p_Emitter\<close> holds the base attributes of the SDK emitter; \<^verbatim>\<open>NewEmitter\<close> starts with none.\<close>

record provider_options =
  po_Endpoint :: string
  po_Protocol :: string
  po_InstanceID :: string
  po_Token :: string
  po_ServiceName :: string
  po_ServiceVersion :: string
  po_Insecure :: bool
  po_Interval :: int

record providers =
  p_Emitter :: "attr list"
  p_metrics :: provider
  p_logs :: provider
  p_traces :: provider

definition otlp_headers :: "provider_options \<Rightarrow> (string \<times> string) list" where
  "otlp_headers opt =
     (if po_InstanceID opt \<noteq> [] \<and> po_Token opt \<noteq> []
      then [(''Authorization'', ''Basic '' @ base64_encode (po_InstanceID opt @ '':'' @ po_Token opt))] else [])"

text \<open>\<^verbatim>\<open>strings.TrimRight\<close> with a slash.\<close>

definition otlp_base :: "provider_options \<Rightarrow> string" where
  "otlp_base opt = rev (dropWhile (\<lambda>c. c = CHR ''/'') (rev (po_Endpoint opt)))"

definition insecure_option :: "provider_options \<Rightarrow> otlp_option list" where
  "insecure_option opt = (if po_Insecure opt then [WithInsecure] else [])"

definition http_path :: "otlp_signal \<Rightarrow> string" where
  "http_path s = (case s of MetricSignal \<Rightarrow> ''/v1/metrics'' | LogSignal \<Rightarrow> ''/v1/logs'' | TraceSignal \<Rightarrow> ''/v1/traces'')"

definition http_exporter :: "provider_options \<Rightarrow> otlp_signal \<Rightarrow> exporter" where
  "http_exporter opt s =
     Exporter s OverHTTP ([WithEndpointURL (otlp_base opt @ http_path s), WithHeaders (otlp_headers opt)] @ insecure_option opt)"

definition grpc_exporter :: "provider_options \<Rightarrow> otlp_signal \<Rightarrow> exporter" where
  "grpc_exporter opt s = Exporter s OverGRPC ([WithEndpoint (otlp_base opt), WithHeaders (otlp_headers opt)] @ insecure_option opt)"

text \<open>Exporters are made one after the other; the first that fails ends the construction.\<close>

fun make_exporters :: "sdk_env \<Rightarrow> exporter list \<Rightarrow> sdk_state \<Rightarrow> goerr option \<times> sdk_state" where
  "make_exporters env [] st = (None, st)"
| "make_exporters env (x # xs) st =
     (case exporter_err env x of
        Some e \<Rightarrow> (Some e, st)
      | None \<Rightarrow> make_exporters env xs (st\<lparr>sdk_made := sdk_made st @ [x]\<rparr>))"

definition otlp_exporters :: "provider_options \<Rightarrow> (otlp_signal \<Rightarrow> exporter) result" where
  "otlp_exporters opt =
     (if po_Protocol opt = [] \<or> po_Protocol opt = ''http'' then Inr (http_exporter opt)
      else if po_Protocol opt = ''grpc'' then Inr (grpc_exporter opt)
      else Inl (Msg ''unsupported OTLP protocol''))"

definition otlp_resource :: "provider_options \<Rightarrow> resource" where
  "otlp_resource opt = [(''service.name'', po_ServiceName opt), (''service.version'', po_ServiceVersion opt)]"

definition otlp_interval :: "provider_options \<Rightarrow> int" where
  "otlp_interval opt = (if po_Interval opt \<le> 0 then 15 * 1000000000 else po_Interval opt)"

definition NewProviders :: "sdk_env \<Rightarrow> provider_options \<Rightarrow> sdk_state \<Rightarrow> providers result \<times> sdk_state" where
  "NewProviders env opt st =
     (case otlp_exporters opt of
        Inl e \<Rightarrow> (Inl e, st)
      | Inr mk \<Rightarrow>
          (case make_exporters env [mk MetricSignal, mk LogSignal, mk TraceSignal] st of
             (Some e, st1) \<Rightarrow> (Inl e, st1)
           | (None, st1) \<Rightarrow>
               (case resource_err env (otlp_resource opt) of
                  Some e \<Rightarrow> (Inl e, st1)
                | None \<Rightarrow>
                    (let res = otlp_resource opt;
                         mp = Provider res (mk MetricSignal) (Some (otlp_interval opt));
                         lp = Provider res (mk LogSignal) None;
                         tp = Provider res (mk TraceSignal) None in
                     (Inr \<lparr>p_Emitter = [], p_metrics = mp, p_logs = lp, p_traces = tp\<rparr>,
                      st1\<lparr>sdk_meter := Some mp, sdk_tracer := Some tp\<rparr>)))))"

section \<open>Shutdown\<close>

definition shut_down :: "sdk_env \<Rightarrow> provider \<Rightarrow> sdk_state \<Rightarrow> goerr option \<times> sdk_state" where
  "shut_down env p st = (shutdown_err env p, st\<lparr>sdk_down := sdk_down st @ [p]\<rparr>)"

definition Shutdown :: "sdk_env \<Rightarrow> providers \<Rightarrow> sdk_state \<Rightarrow> goerr option \<times> sdk_state" where
  "Shutdown env p st =
     (let (e1, st1) = shut_down env (p_metrics p) st; (e2, st2) = shut_down env (p_logs p) st1; (e3, st3) = shut_down env (p_traces p) st2 in
      (join_errors [e1, e2, e3], st3))"

section \<open>What the exporters are given\<close>

text \<open>What a server reads from a header of HTTP Basic authentication.\<close>

definition basic_credentials :: "(string \<times> string) list \<Rightarrow> string option" where
  "basic_credentials hs =
     (case map_of hs ''Authorization'' of
        None \<Rightarrow> None
      | Some v \<Rightarrow> if prefix ''Basic '' v then base64_decode (drop 6 v) else None)"

definition sent_headers :: "exporter \<Rightarrow> (string \<times> string) list" where
  "sent_headers x = concat (map (\<lambda>opt. case opt of WithHeaders hs \<Rightarrow> hs | _ \<Rightarrow> []) (exp_options x))"

definition provider_exporters :: "providers \<Rightarrow> exporter list" where
  "provider_exporters p = map prov_exporter [p_metrics p, p_logs p, p_traces p]"

lemma basic_credentials_headers:
  "basic_credentials (otlp_headers opt) =
     (if po_InstanceID opt \<noteq> [] \<and> po_Token opt \<noteq> [] then Some (po_InstanceID opt @ '':'' @ po_Token opt) else None)"
  by (simp add: basic_credentials_def otlp_headers_def base64_roundtrip)

lemma make_exporters_None:
  "make_exporters env xs st = (None, st') \<Longrightarrow> st' = st\<lparr>sdk_made := sdk_made st @ xs\<rparr> \<and> list_all (\<lambda>x. exporter_err env x = None) xs"
proof (induction xs arbitrary: st)
  case (Cons x xs)
  then show ?case by (cases "exporter_err env x") fastforce+
qed simp

lemma NewProviders_Inr:
  assumes "NewProviders env opt st = (Inr p, st')"
  obtains mk where "otlp_exporters opt = Inr mk" "provider_exporters p = [mk MetricSignal, mk LogSignal, mk TraceSignal]"
    "list_all (\<lambda>x. exporter_err env x = None) (provider_exporters p)" "sdk_made st' = sdk_made st @ provider_exporters p"
    "p_Emitter p = []" "prov_interval (p_metrics p) = Some (otlp_interval opt)"
    "sdk_meter st' = Some (p_metrics p)" "sdk_tracer st' = Some (p_traces p)"
proof -
  obtain mk where m: "otlp_exporters opt = Inr mk" using assms by (cases "otlp_exporters opt") (simp_all add: NewProviders_def)
  let ?xs = "[mk MetricSignal, mk LogSignal, mk TraceSignal]"
  obtain e st1 where x: "make_exporters env ?xs st = (e, st1)" by (rule prod.exhaust)
  with assms m have e: "e = None" by (cases e) (simp_all add: NewProviders_def del: make_exporters.simps)
  with make_exporters_None [of env ?xs st st1] x have
    l: "list_all (\<lambda>x. exporter_err env x = None) ?xs" "st1 = st\<lparr>sdk_made := sdk_made st @ ?xs\<rparr>" by blast+
  from assms m x e have "p = \<lparr>p_Emitter = [], p_metrics = Provider (otlp_resource opt) (mk MetricSignal) (Some (otlp_interval opt)),
      p_logs = Provider (otlp_resource opt) (mk LogSignal) None, p_traces = Provider (otlp_resource opt) (mk TraceSignal) None\<rparr>"
    "st' = st1\<lparr>sdk_meter := Some (p_metrics p), sdk_tracer := Some (p_traces p)\<rparr>"
    by (auto simp: NewProviders_def Let_def simp del: make_exporters.simps split: option.splits)
  with m l show ?thesis by (intro that [of mk]) (simp_all add: provider_exporters_def)
qed

lemma exporters_alike:
  assumes "otlp_exporters opt = Inr mk"
  shows "sent_headers (mk s) = otlp_headers opt" "exp_signal (mk s) = s" "WithInsecure \<in> set (exp_options (mk s)) \<longleftrightarrow> po_Insecure opt"
    "exp_transport (mk s) = (if po_Protocol opt = ''grpc'' then OverGRPC else OverHTTP)"
    "hd (exp_options (mk s)) = (if po_Protocol opt = ''grpc'' then WithEndpoint (otlp_base opt) else WithEndpointURL (otlp_base opt @ http_path s))"
  using assms
  by (auto simp: otlp_exporters_def http_exporter_def grpc_exporter_def sent_headers_def insecure_option_def split: if_splits)

text \<open>
  Exporters. When the providers are built there is one exporter for each of metrics, logs and traces, all three over the
  configured transport, to the configured endpoint without its trailing slashes, without TLS exactly when that is
  allowed, and with the same credentials: a server that reads the header as Basic authentication finds the instance and
  the token exactly when both are set. The emitter adds no attribute of its own, and the interval of the exports is positive.
\<close>

lemma provider_credentials:
  assumes "NewProviders env opt st = (Inr p, st')"
  shows "map exp_signal (provider_exporters p) = [MetricSignal, LogSignal, TraceSignal] \<and>
    list_all (\<lambda>x.
      exp_transport x = (if po_Protocol opt = ''grpc'' then OverGRPC else OverHTTP) \<and>
      hd (exp_options x) = (if po_Protocol opt = ''grpc'' then WithEndpoint (otlp_base opt) else WithEndpointURL (otlp_base opt @ http_path (exp_signal x))) \<and>
      (WithInsecure \<in> set (exp_options x) \<longleftrightarrow> po_Insecure opt) \<and>
      basic_credentials (sent_headers x) =
        (if po_InstanceID opt \<noteq> [] \<and> po_Token opt \<noteq> [] then Some (po_InstanceID opt @ '':'' @ po_Token opt) else None)) (provider_exporters p) \<and>
    p_Emitter p = [] \<and> (\<exists>i > 0. prov_interval (p_metrics p) = Some i \<and> (po_Interval opt > 0 \<longrightarrow> i = po_Interval opt))"
proof -
  obtain mk where mk: "otlp_exporters opt = Inr mk" "provider_exporters p = [mk MetricSignal, mk LogSignal, mk TraceSignal]"
    "p_Emitter p = []" "prov_interval (p_metrics p) = Some (otlp_interval opt)"
    using assms by (rule NewProviders_Inr)
  note a = exporters_alike [OF mk(1)]
  have "otlp_interval opt > 0 \<and> (po_Interval opt > 0 \<longrightarrow> otlp_interval opt = po_Interval opt)" by (simp add: otlp_interval_def)
  then show ?thesis by (simp add: mk(2-4) a basic_credentials_headers)
qed

lemma make_exporters_frame:
  "make_exporters env xs st = (e, st') \<Longrightarrow> sdk_down st' = sdk_down st \<and> sdk_meter st' = sdk_meter st \<and> sdk_tracer st' = sdk_tracer st"
  by (induction xs arbitrary: st) (fastforce split: option.splits)+

lemma NewProviders_down: "NewProviders env opt st = (r, st') \<Longrightarrow> sdk_down st' = sdk_down st"
  by (auto simp: NewProviders_def Let_def simp del: make_exporters.simps split: sum.splits prod.splits option.splits dest!: make_exporters_frame)

text \<open>A construction that fails may leave exporters behind that nobody shuts down; a shutdown reaches all three providers.\<close>

lemma NewProviders_fails:
  assumes "NewProviders env opt st = (Inl e, st')"
  shows "sdk_down st' = sdk_down st \<and> sdk_meter st' = sdk_meter st \<and> sdk_tracer st' = sdk_tracer st"
  using assms
  by (auto simp: NewProviders_def Let_def simp del: make_exporters.simps split: sum.splits prod.splits option.splits dest!: make_exporters_frame)

lemma Shutdown_reaches_all:
  "Shutdown env p st = (join_errors (map (shutdown_err env) [p_metrics p, p_logs p, p_traces p]),
     st\<lparr>sdk_down := sdk_down st @ [p_metrics p, p_logs p, p_traces p]\<rparr>)"
  by (simp add: Shutdown_def shut_down_def)

lemma Shutdown_ok: "fst (Shutdown env p st) = None \<longleftrightarrow> list_all (\<lambda>q. shutdown_err env q = None) [p_metrics p, p_logs p, p_traces p]"
  by (simp add: Shutdown_reaches_all join_errors_None_iff)

definition ex_sdk :: sdk_env where
  "ex_sdk = \<lparr>exporter_err = (\<lambda>_. None), resource_err = (\<lambda>_. None), shutdown_err = (\<lambda>_. None)\<rparr>"

lemma ex_sdk_builds: "otlp_exporters opt = Inr mk \<Longrightarrow> \<exists>p st'. NewProviders ex_sdk opt st = (Inr p, st')"
  by (simp add: NewProviders_def ex_sdk_def Let_def)

end
