(* ===== verification/StrOrder.thy ===== *)
theory StrOrder
  imports GoJson
begin

text \<open>
  The order of Go strings, byte by byte, and sorting by a string key as \<^verbatim>\<open>sort.Strings\<close> and \<^verbatim>\<open>sort.Slice\<close> do it. The
  program sorts values with distinct keys only, where the sorted list is unique and stability plays no part.
\<close>

lemma str_less_irrefl: "\<not> str_less s s"
  by (induction s) auto

lemma str_less_trans: "str_less a b \<Longrightarrow> str_less b c \<Longrightarrow> str_less a c"
proof (induction a b arbitrary: c rule: str_less.induct)
  case (2 d ds)
  then show ?case by (cases c) auto
next
  case (4 x xs y ys)
  then show ?case by (cases c) auto
qed auto

lemma str_less_total: "a \<noteq> b \<Longrightarrow> str_less a b \<or> str_less b a"
  by (induction a b rule: str_less.induct) (auto simp: code_inject neq_iff [of "code _" "code _", symmetric] dest: not_less_iff_gr_or_eq [THEN iffD1])

definition key_insert :: "('a \<Rightarrow> string) \<Rightarrow> 'a \<Rightarrow> 'a list \<Rightarrow> 'a list" where
  "key_insert f x ys = takeWhile (\<lambda>y. str_less (f y) (f x)) ys @ x # dropWhile (\<lambda>y. str_less (f y) (f x)) ys"

definition key_sort :: "('a \<Rightarrow> string) \<Rightarrow> 'a list \<Rightarrow> 'a list" where
  "key_sort f xs = foldr (key_insert f) xs []"

definition str_sort :: "string list \<Rightarrow> string list" where
  "str_sort xs = key_sort (\<lambda>x. x) xs"

lemma key_sort_simps [simp]: "key_sort f [] = []" "key_sort f (x # xs) = key_insert f x (key_sort f xs)"
  by (simp_all add: key_sort_def)

lemma key_insert_set: "set (key_insert f x ys) = insert x (set ys)"
proof -
  have "set ys = set (takeWhile P ys) \<union> set (dropWhile P ys)" for P by (metis set_append takeWhile_dropWhile_id)
  then show ?thesis unfolding key_insert_def by auto
qed

lemma key_insert_sorted:
  "sorted_wrt (\<lambda>a b. str_less (f a) (f b)) ys \<Longrightarrow> f x \<notin> f ` set ys \<Longrightarrow> sorted_wrt (\<lambda>a b. str_less (f a) (f b)) (key_insert f x ys)"
proof (induction ys)
  case (Cons y ys)
  show ?case
  proof (cases "str_less (f y) (f x)")
    case True
    with Cons have "sorted_wrt (\<lambda>a b. str_less (f a) (f b)) (key_insert f x ys)" by simp
    moreover have "key_insert f x (y # ys) = y # key_insert f x ys" using True by (simp add: key_insert_def)
    ultimately show ?thesis using Cons.prems(1) True by (simp add: key_insert_set)
  next
    case False
    then have "str_less (f x) (f y)" using Cons.prems(2) str_less_total [of "f x" "f y"] by auto
    with Cons.prems(1) False show ?thesis by (auto simp: key_insert_def intro: str_less_trans)
  qed
qed (simp add: key_insert_def)

lemma key_sort_set [simp]: "set (key_sort f xs) = set xs"
  by (induction xs) (simp_all add: key_insert_set)

lemma key_sort_sorted: "distinct (map f xs) \<Longrightarrow> sorted_wrt (\<lambda>a b. str_less (f a) (f b)) (key_sort f xs)"
  by (induction xs) (simp_all add: key_insert_sorted)

lemma key_sort_length [simp]: "length (key_sort f xs) = length xs"
proof (induction xs)
  case (Cons x xs)
  have "length (key_insert f x ys) = Suc (length ys)" for ys
    by (simp add: key_insert_def) (metis length_append takeWhile_dropWhile_id)
  with Cons show ?case by simp
qed simp

lemma key_sort_distinct: "distinct (map f xs) \<Longrightarrow> distinct (map f (key_sort f xs))"
  using key_sort_set [of f xs] key_sort_length [of f xs]
  by (metis card_distinct distinct_card length_map set_map)

lemma str_sort_set: "set (str_sort xs) = set xs"
  by (simp add: str_sort_def)

lemma str_sort_sorted: "distinct xs \<Longrightarrow> sorted_wrt str_less (str_sort xs)"
  using key_sort_sorted [of "\<lambda>x. x" xs] by (simp add: str_sort_def)

end
