(* ===== verification/Program.thy ===== *)
theory Program
  imports Registration PhoneTarget LensStream Providers StrOrder
begin

text \<open>
  \<^verbatim>\<open>cmd/polylens2otel/main.go\<close>: the command line, the steps of the start-up with their exit codes, the devices of a
  configuration without Lens, the discovery of devices with it, the phone targets, and the wait for the end.
\<close>

section \<open>The command line\<close>

text \<open>\<^verbatim>\<open>flag.FlagSet.Parse\<close> for the two flags the program defines.\<close>

record flags =
  configPath :: string
  showVersion :: bool

definition parse_bool :: "string \<Rightarrow> bool option" where
  "parse_bool s =
     (if s \<in> set [''1'', ''t'', ''T'', ''TRUE'', ''true'', ''True''] then Some True
      else if s \<in> set [''0'', ''f'', ''F'', ''FALSE'', ''false'', ''False''] then Some False else None)"

text \<open>A flag's name and its value after the first equals sign; the sign is not looked for at the first position.\<close>

definition flag_name :: "string \<Rightarrow> string \<times> string option" where
  "flag_name s =
     (case s of
        [] \<Rightarrow> ([], None)
      | c # r \<Rightarrow> (let n = takeWhile (\<lambda>x. x \<noteq> CHR ''='') r; v = dropWhile (\<lambda>x. x \<noteq> CHR ''='') r in
          (c # n, if v = [] then None else Some (tl v))))"

datatype 'a flag_step = FlagsEnd | FlagError goerr | FlagSet 'a

definition flag_arg :: "string \<Rightarrow> string flag_step" where
  "flag_arg s =
     (if length s < 2 \<or> hd s \<noteq> CHR ''-'' then FlagsEnd
      else let name = (if s ! 1 = CHR ''-'' then drop 2 s else drop 1 s) in
        if s ! 1 = CHR ''-'' \<and> length s = 2 then FlagsEnd
        else if name = [] \<or> hd name = CHR ''-'' \<or> hd name = CHR ''='' then FlagError (Msg (''bad flag syntax: '' @ s))
        else FlagSet name)"

function parse_flags :: "string list \<Rightarrow> flags \<Rightarrow> flags result" where
  "parse_flags [] f = Inr f"
| "parse_flags (s # args) f =
     (case flag_arg s of
        FlagsEnd \<Rightarrow> Inr f
      | FlagError e \<Rightarrow> Inl e
      | FlagSet spec \<Rightarrow>
          (let (name, v) = flag_name spec in
           if name = ''version'' then
             (case v of
                None \<Rightarrow> parse_flags args (f\<lparr>showVersion := True\<rparr>)
              | Some t \<Rightarrow>
                  (case parse_bool t of
                     None \<Rightarrow> Inl (Msg (''invalid boolean value '' @ t @ '' for -version''))
                   | Some b \<Rightarrow> parse_flags args (f\<lparr>showVersion := b\<rparr>)))
           else if name = ''config'' then
             (case v of
                Some t \<Rightarrow> parse_flags args (f\<lparr>configPath := t\<rparr>)
              | None \<Rightarrow> (case args of [] \<Rightarrow> Inl (Msg ''flag needs an argument: -config'') | t # rest \<Rightarrow> parse_flags rest (f\<lparr>configPath := t\<rparr>)))
           else if name = ''help'' \<or> name = ''h'' then Inl (Msg ''flag: help requested'')
           else Inl (Msg (''flag provided but not defined: -'' @ name))))"
  by pat_completeness auto
termination
  by (relation "measure (length \<circ> fst)") auto

section \<open>Logging, state directory, profiler\<close>

text \<open>\<^verbatim>\<open>slog.Level.UnmarshalText\<close>: a name in any case and an optional signed offset.\<close>

definition atoi_offset :: "string \<Rightarrow> int option" where
  "atoi_offset s =
     (case s of
        [] \<Rightarrow> None
      | c # ds \<Rightarrow>
          if ds = [] \<or> \<not> list_all is_digit ds then None
          else (let n = (if c = CHR ''-'' then - digits_val ds else digits_val ds) in
            if - (2 ^ 63) \<le> n \<and> n < 2 ^ 63 then Some n else None))"

definition slog_level :: "string \<Rightarrow> int result" where
  "slog_level s =
     (let name = takeWhile (\<lambda>c. c \<noteq> CHR ''+'' \<and> c \<noteq> CHR ''-'') s; rest = drop (length name) s;
          base = (if to_upper name = ''DEBUG'' then Some (-4) else if to_upper name = ''INFO'' then Some 0
            else if to_upper name = ''WARN'' then Some 4 else if to_upper name = ''ERROR'' then Some 8 else None) in
      case (if rest = [] then Some 0 else atoi_offset rest) of
        None \<Rightarrow> Inl (Msg (''slog: level string '' @ s @ '': invalid syntax''))
      | Some off \<Rightarrow> (case base of None \<Rightarrow> Inl (Msg (''slog: level string '' @ s @ '': unknown name'')) | Some b \<Rightarrow> Inr ((b + off + 2 ^ 63) mod 2 ^ 64 - 2 ^ 63)))"

datatype log_handler = JSONHandler int | TextHandler int

definition newLogger :: "log_config \<Rightarrow> log_handler result" where
  "newLogger cfg =
     (case slog_level (log_Level cfg) of
        Inl e \<Rightarrow> Inl e
      | Inr level \<Rightarrow>
          if to_lower (log_Format cfg) = ''json'' then Inr (JSONHandler level)
          else if to_lower (log_Format cfg) = ''text'' then Inr (TextHandler level)
          else Inl (Msg (''log format must be json or text, got '' @ go_quote (log_Format cfg))))"

definition probe_path :: "fs_env \<Rightarrow> path \<Rightarrow> fs \<Rightarrow> path" where
  "probe_path env dir f = dir @ [''.write-probe-'' @ int_digits (tmp_rand env dir f)]"

definition ensureStateDir :: "fs_env \<Rightarrow> string \<Rightarrow> fs \<Rightarrow> goerr option \<times> fs" where
  "ensureStateDir env dir f =
     (if blank dir then (Some (Msg ''state directory is empty''), f)
      else case fs_err env (MkdirAll [dir]) of
        Some e \<Rightarrow> (Some e, f)
      | None \<Rightarrow>
      case fs_err env (CreateTemp [dir]) of
        Some e \<Rightarrow> (Some e, f)
      | None \<Rightarrow>
      let p = probe_path env [dir] f; f1 = f(p \<mapsto> Corrupt) in
      case fs_err env (CloseTemp p) of
        Some e \<Rightarrow> (Some e, f1)
      | None \<Rightarrow>
      case fs_err env (RemoveTemp p) of
        Some e \<Rightarrow> (Some e, f1)
      | None \<Rightarrow> (None, f1(p := None)))"

text \<open>Whether the profiler is started; the profiler itself is a library.\<close>

definition startProfiler :: "(pyroscope_config \<Rightarrow> goerr option) \<Rightarrow> config \<Rightarrow> (bool \<times> goerr option)" where
  "startProfiler pyroscope_Start cfg =
     (let p = cfg_Profiling cfg in
      if pyro_Endpoint p = [] \<or> pyro_BasicAuthUser p = [] \<or> pyro_BasicAuthPassword p = [] then (False, None)
      else (case pyroscope_Start p of Some e \<Rightarrow> (False, Some e) | None \<Rightarrow> (True, None)))"

section \<open>Devices\<close>

definition static_device :: "string \<Rightarrow> (string \<times> string) list \<Rightarrow> string \<Rightarrow> lens_device" where
  "static_device tid targets d =
     zero_lens_device\<lparr>ld_TenantID := tid, ld_ID := d, ld_MACAddress := d,
       InternalIP := trim_space (case map_of targets d of None \<Rightarrow> [] | Some a \<Rightarrow> a)\<rparr>"

definition staticPhoneDevices :: "(string \<times> string) list \<Rightarrow> string list \<Rightarrow> (lens_device list \<times> string list) result" where
  "staticPhoneDevices targets configured =
     (if length configured > 1 \<and> targets \<noteq> []
      then Inl (Msg ''static phone targets without Lens credentials support at most one tenant'')
      else let tids = (if configured = [] then [discoveryTenantID] else configured) in
        Inr (map (static_device (hd tids) targets) (str_sort (map fst targets)), tids))"

fun discover_from :: "'w lens_env \<Rightarrow> lens_config \<Rightarrow> string list \<Rightarrow> 'w lens_st \<Rightarrow> (lens_device list result \<times> 'w lens_st) option" where
  "discover_from env lc [] st = Some (Inr [], st)"
| "discover_from env lc (t # ts) st =
     (case Devices env lc t st of
        None \<Rightarrow> None
      | Some (Inl e, st1) \<Rightarrow> Some (Inl e, st1)
      | Some (Inr found, st1) \<Rightarrow>
          (case discover_from env lc ts st1 of
             None \<Rightarrow> None
           | Some (Inl e, st2) \<Rightarrow> Some (Inl e, st2)
           | Some (Inr rest, st2) \<Rightarrow> Some (Inr (map (\<lambda>d. d\<lparr>ld_TenantID := t\<rparr>) found @ rest), st2)))"

definition discoverDevices :: "'w lens_env \<Rightarrow> lens_config \<Rightarrow> string list \<Rightarrow> 'w lens_st \<Rightarrow>
    ((string list \<times> lens_device list) result \<times> 'w lens_st) option" where
  "discoverDevices env lc configured st =
     (let (tids, st1) = (if configured \<noteq> [] then (Inr configured, st)
        else (case Tenants env lc st of (Inl e, st1) \<Rightarrow> (Inl e, st1) | (Inr ts, st1) \<Rightarrow> (Inr (map tenant_ID ts), st1))) in
      case tids of
        Inl e \<Rightarrow> Some (Inl e, st1)
      | Inr ts \<Rightarrow>
          (case discover_from env lc ts st1 of
             None \<Rightarrow> None
           | Some (Inl e, st2) \<Rightarrow> Some (Inl e, st2)
           | Some (Inr ds, st2) \<Rightarrow> Some (Inr (ts, ds), st2)))"

section \<open>Phone targets\<close>

definition on_wire :: "('p \<Rightarrow> 'a \<times> 'p) \<Rightarrow> ('l, 'p) world \<Rightarrow> 'a \<times> ('l, 'p) world" where
  "on_wire f w = (let (a, p) = f (wd_phone w) in (a, w\<lparr>wd_phone := p\<rparr>))"

definition world_phone_api :: "'p phone_api \<Rightarrow> ('l, 'p) world phone_api" where
  "world_phone_api api =
     \<lparr>Probe = on_wire (Probe api), NetworkStats = on_wire (NetworkStats api), NetworkInfo = on_wire (NetworkInfo api),
      CallLogs = on_wire (CallLogs api), LineInfo = on_wire (LineInfo api), ConfigGet = (\<lambda>ps. on_wire (ConfigGet api ps))\<rparr>"

text \<open>The constructor that is used when the factory is nil.\<close>

definition world_NewClient :: "(string \<Rightarrow> 'q phone_net) \<Rightarrow> 'q digest_env \<Rightarrow> ('l, 'q wire) world new_client" where
  "world_NewClient nets dg cfg em =
     (case default_NewClient nets dg cfg em of Inl e \<Rightarrow> Inl e | Inr api \<Rightarrow> Inr (world_phone_api api))"

definition main_resolver :: "config \<Rightarrow> emitter \<Rightarrow> resolver_config" where
  "main_resolver cfg em =
     \<lparr>Targets = map_of (phone_Targets (cfg_Phone cfg)), rc_Username = auth_Username (phone_Auth (cfg_Phone cfg)),
      rc_Password = NewSecret (auth_Password (phone_Auth (cfg_Phone cfg))), FromLensPolicy = auth_FromLensPolicy (phone_Auth (cfg_Phone cfg)),
      rc_Timeout = phone_RequestTimeout (cfg_Phone cfg),
      rc_TLS = \<lparr>VerifyChain = tls_VerifyChain (phone_TLS (cfg_Phone cfg)), CAFile = tls_CAFile (phone_TLS (cfg_Phone cfg))\<rparr>,
      HTTPEmitter = Some em\<rparr>"

definition collector_target :: "config \<Rightarrow> 'w phone_target \<Rightarrow> 'w target" where
  "collector_target cfg t =
     (let d = pt_Device t in
      \<lparr>TenantID = ld_TenantID d,
       tgt_Device = \<lparr>dev_ID = ld_ID d, dev_Name = ld_Name d, dev_MAC = ld_MACAddress d, dev_Model = ld_HardwareModel d,
         dev_Site = (case ld_Site d of None \<Rightarrow> [] | Some st \<Rightarrow> site_Name st), dev_IP = pt_Address t\<rparr>,
       tgt_API = pt_API t, StateDir = cfg_StateDir cfg, CallLogsInterval = iv_PhoneCallLogs (cfg_Collectors cfg),
       NetworkInfoInterval = iv_PhoneNetworkInfo (cfg_Collectors cfg)\<rparr>)"

definition resolvePhoneTargets :: "meter \<Rightarrow> ('l, 'p) world new_client \<Rightarrow> config \<Rightarrow> ('l lens_env \<times> lens_config) option \<Rightarrow> emitter \<Rightarrow>
    lens_device list \<Rightarrow> ('l, 'p) world phone_run \<Rightarrow> ('l, 'p) world target list result \<times> ('l, 'p) world phone_run" where
  "resolvePhoneTargets m nc cfg lens em devices s =
     (if \<not> phone_Enabled (cfg_Phone cfg) then (Inr [], s)
      else
        case (if auth_FromLensPolicy (phone_Auth (cfg_Phone cfg)) \<and> lens \<noteq> None
              then map_sum id Some (NewLensPolicySource (map_option (\<lambda>(env, lc). world_query env lc) lens)) else Inr None) of
          Inl e \<Rightarrow> (Inl e, s)
        | Inr policy \<Rightarrow>
            (case Resolve m (main_resolver cfg em) nc policy (Some em) devices s of
               (Inl e, s') \<Rightarrow> (Inl e, s')
             | (Inr ts, s') \<Rightarrow> (Inr (map (collector_target cfg) ts), s')))"

section \<open>Start-up\<close>

record ('k, 'l, 'p) main_env =
  me_prog :: "('l, 'p) prog_env"
  me_koanf :: "'k koanf_env"
  me_sdk :: sdk_env
  me_pyroscope :: "pyroscope_config \<Rightarrow> goerr option"
  me_lens :: "'l lens_env"
  me_NewClient :: "('l, 'p) world new_client"

definition has_lens :: "config \<Rightarrow> bool" where
  "has_lens cfg \<longleftrightarrow> \<not> blank (lens_ClientID (cfg_Lens cfg)) \<and> \<not> blank (lens_ClientSecret (cfg_Lens cfg))"

definition main_lens_config :: "config \<Rightarrow> emitter \<Rightarrow> lens_config" where
  "main_lens_config cfg em =
     (let l = cfg_Lens cfg in
      \<lparr>TokenURL = lens_TokenURL l, GraphQLURL = lens_GraphQLURL l, ClientID = lens_ClientID l, ClientSecret = lens_ClientSecret l,
       PageSize = lens_PageSize l, MaxAttempts = retry_MaxAttempts (lens_Retry l), MinBackoff = retry_MinBackoff (lens_Retry l),
       MaxBackoff = retry_MaxBackoff (lens_Retry l), lens_emitter = Some em\<rparr>)"

text \<open>The Lens client, the tenants and the devices; without Lens they come from the configuration.\<close>

definition inventory :: "('k, 'l, 'p) main_env \<Rightarrow> config \<Rightarrow> emitter \<Rightarrow> ('l, 'p) world \<Rightarrow>
    ((lens_config option \<times> string list \<times> lens_device list) result \<times> ('l, 'p) world) option" where
  "inventory me cfg em w =
     (if has_lens cfg then
        (case lens_New (main_lens_config cfg em) of
           Inl e \<Rightarrow> Some (Inl e, w)
         | Inr lc \<Rightarrow>
             (case discoverDevices (me_lens me) lc (lens_Tenants (cfg_Lens cfg)) (wd_lens w) of
                None \<Rightarrow> None
              | Some (Inl e, l) \<Rightarrow> Some (Inl e, w\<lparr>wd_lens := l\<rparr>)
              | Some (Inr (tids, ds), l) \<Rightarrow> Some (Inr (Some lc, tids, ds), w\<lparr>wd_lens := l\<rparr>)))
      else (case staticPhoneDevices (phone_Targets (cfg_Phone cfg)) (lens_Tenants (cfg_Lens cfg)) of
          Inl e \<Rightarrow> Some (Inl e, w)
        | Inr (ds, tids) \<Rightarrow> Some (Inr (None, tids, ds), w)))"

record ('l, 'p) started =
  up_cfg :: config
  up_providers :: providers
  up_sdk :: sdk_state
  up_emitter :: emitter
  up_lens :: "('l lens_env \<times> lens_config) option"
  up_devices :: "lens_device list"
  up_targets :: "('l, 'p) world target list"
  up_registry :: "('l, 'p) world collector list"
  up_stream :: "stream_config option"
  up_profiler :: bool

definition main_stream :: "config \<Rightarrow> emitter \<Rightarrow> ('l lens_env \<times> lens_config) option \<Rightarrow> lens_device list \<Rightarrow> stream_config option" where
  "main_stream cfg em lens devices =
     (if lens \<noteq> None \<and> stream_Enabled (lens_Stream (cfg_Lens cfg)) \<and> devices \<noteq> []
      then Some \<lparr>stream_URL = lens_WebSocketURL (cfg_Lens cfg), stream_Token = [], has_TokenSource = True, DeviceIDs = map ld_ID devices,
        AckTimeout = stream_AckTimeout (lens_Stream (cfg_Lens cfg)), stream_MinBackoff = section_MinBackoff (lens_Stream (cfg_Lens cfg)),
        stream_MaxBackoff = section_MaxBackoff (lens_Stream (cfg_Lens cfg)), stream_emitter = Some em\<rparr>
      else None)"

definition startup_event :: "('k, 'l, 'p) main_env \<Rightarrow> emitter \<Rightarrow> ('l, 'p) world phone_run fallible" where
  "startup_event me em s =
     (let (t, w) = pe_now (me_prog me) (snd s); v = pe_version (me_prog me);
          (e, tel) = log_event em EventExporterStartup ''polylens2otel started'' t
            [Attr AttrVersion (ver_Version v), Attr AttrCommit (ver_Commit v), Attr AttrBuildDate (ver_BuildDate v)] (fst s) in
      (e, (tel, w)))"

text \<open>A run that stops early has an exit code, and the providers that are shut down on the way out if they were made.\<close>

type_synonym stop = "int \<times> providers option \<times> sdk_state"

text \<open>
  The tenants of the emitter's scope are shared: after \<^verbatim>\<open>SetTenants\<close> the Lens client, too, emits for the tenants
  that were found.
\<close>

definition run_runtime :: "('k, 'l, 'p) main_env \<Rightarrow> config \<Rightarrow> providers \<Rightarrow> sdk_state \<Rightarrow> ('l, 'p) world phone_run \<Rightarrow>
    ((stop + ('l, 'p) started) \<times> ('l, 'p) world phone_run) option" where
  "run_runtime me cfg p k s =
     (let em0 = new_tenant_emitter (p_Emitter p) (lens_Tenants (cfg_Lens cfg)) in
      case inventory me cfg em0 (snd s) of
        None \<Rightarrow> None
      | Some (Inl e, w) \<Rightarrow> Some (Inl (1, Some p, k), (fst s, w))
      | Some (Inr (lc, tids, devices), w) \<Rightarrow>
          let em = set_tenants tids em0;
              lens = map_option (\<lambda>c. (me_lens me, c\<lparr>lens_emitter := Some em\<rparr>)) lc;
              rcfg = cfg\<lparr>cfg_Lens := (cfg_Lens cfg)\<lparr>lens_Tenants := tids\<rparr>\<rparr> in
          (case resolvePhoneTargets (pe_meter (me_prog me)) (me_NewClient me) rcfg lens em devices (fst s, w) of
             (Inl e, s1) \<Rightarrow> Some (Inl (1, Some p, k), s1)
           | (Inr targets, s1) \<Rightarrow>
               (case startup_event me em s1 of
                  (Some e, s2) \<Rightarrow> Some (Inl (1, Some p, k), s2)
                | (None, s2) \<Rightarrow>
                    Some (Inr \<lparr>up_cfg = rcfg, up_providers = p, up_sdk = k, up_emitter = em, up_lens = lens, up_devices = devices, up_targets = targets,
                      up_registry = main_registry (me_prog me) rcfg lens targets, up_stream = main_stream rcfg em lens devices,
                      up_profiler = fst (startProfiler (me_pyroscope me) cfg)\<rparr>, s2))))"

definition main_providers :: "version \<Rightarrow> config \<Rightarrow> provider_options" where
  "main_providers v cfg =
     (let ot = cfg_OTLP cfg in
      \<lparr>po_Endpoint = otlp_Endpoint ot, po_Protocol = otlp_Protocol ot, po_InstanceID = otlp_InstanceID ot, po_Token = otlp_Token ot,
       po_ServiceName = ''polylens2otel'', po_ServiceVersion = ver_Version v, po_Insecure = otlp_Insecure ot,
       po_Interval = otlp_ExportInterval ot\<rparr>)"

definition run_startup :: "('k, 'l, 'p) main_env \<Rightarrow> string list \<Rightarrow> ('l, 'p) world phone_run \<Rightarrow>
    ((stop + ('l, 'p) started) \<times> ('l, 'p) world phone_run) option" where
  "run_startup me args s =
     (case parse_flags args \<lparr>configPath = [], showVersion = False\<rparr> of
        Inl e \<Rightarrow> Some (Inl (2, None, new_sdk), s)
      | Inr f \<Rightarrow>
          if showVersion f then Some (Inl (0, None, new_sdk), s)
          else (case Load (me_koanf me) (configPath f) of
              Inl e \<Rightarrow> Some (Inl (1, None, new_sdk), s)
            | Inr cfg \<Rightarrow>
                if Validate cfg \<noteq> None then Some (Inl (1, None, new_sdk), s)
                else (case newLogger (cfg_Log cfg) of
                    Inl e \<Rightarrow> Some (Inl (1, None, new_sdk), s)
                  | Inr logger \<Rightarrow>
                      (let (e, fs) = ensureStateDir (pe_files (me_prog me)) (cfg_StateDir cfg) (wd_files (snd s));
                           s1 = (fst s, (snd s)\<lparr>wd_files := fs\<rparr>) in
                       if e \<noteq> None then Some (Inl (1, None, new_sdk), s1)
                       else (case NewProviders (me_sdk me) (main_providers (pe_version (me_prog me)) cfg) new_sdk of
                           (Inl err, k) \<Rightarrow> Some (Inl (1, None, k), s1)
                         | (Inr p, k) \<Rightarrow> run_runtime me cfg p k s1)))))"

section \<open>The end\<close>

text \<open>A component that returns an error while the runtime is not being stopped is an event; the first event decides.\<close>

datatype run_event = ContextDone | ComponentError goerr

definition component_event :: "string \<Rightarrow> goerr option \<Rightarrow> bool \<Rightarrow> run_event option" where
  "component_event name err cancelled =
     (case err of None \<Rightarrow> None | Some e \<Rightarrow> if cancelled then None else Some (ComponentError (Wrap name e)))"

definition exit_code :: "run_event \<Rightarrow> int" where
  "exit_code ev = (case ev of ContextDone \<Rightarrow> 0 | ComponentError _ \<Rightarrow> 1)"

text \<open>
  The whole run, with the first event once it has started. What the collectors and the stream do in between is the subject
  of their own theories; the state that comes back is the one at the start. The deferred function shuts the providers down.
\<close>

definition run :: "('k, 'l, 'p) main_env \<Rightarrow> string list \<Rightarrow> run_event \<Rightarrow> ('l, 'p) world phone_run \<Rightarrow>
    (int \<times> sdk_state \<times> ('l, 'p) world phone_run) option" where
  "run me args ev s =
     (case run_startup me args s of
        None \<Rightarrow> None
      | Some (r, s') \<Rightarrow>
          (let (rc, p, k) = (case r of Inl x \<Rightarrow> x | Inr up \<Rightarrow> (exit_code ev, Some (up_providers up), up_sdk up)) in
           Some (rc, (case p of None \<Rightarrow> k | Some q \<Rightarrow> snd (Shutdown (me_sdk me) q k)), s')))"

section \<open>Devices without Lens\<close>

lemma valid_static:
  assumes "Validate c = None" "\<not> has_lens c" "phone_Enabled (cfg_Phone c)" "phone_Targets (cfg_Phone c) \<noteq> []"
  shows "length (lens_Tenants (cfg_Lens c)) \<le> 1" "t \<in> set (phone_Targets (cfg_Phone c)) \<Longrightarrow> isStaticPhoneMAC (fst t)"
proof -
  have m: "missing_keys c = []" and st: "static_targets_error c = None"
    using assms(1) by (auto simp: Validate_def split: if_splits option.splits)
  have "blank (lens_ClientID (cfg_Lens c)) = blank (lens_ClientSecret (cfg_Lens c))"
    using m by (auto simp: missing_keys_def Let_def split: if_splits)
  with assms(2) have "blank (lens_ClientID (cfg_Lens c))" by (auto simp: has_lens_def)
  with st assms(3,4) have l: "length (lens_Tenants (cfg_Lens c)) \<le> 1" "find (\<lambda>t. \<not> isStaticPhoneMAC (fst t)) (phone_Targets (cfg_Phone c)) = None"
    by (auto simp: static_targets_error_def split: if_splits option.splits)
  then show "length (lens_Tenants (cfg_Lens c)) \<le> 1" by simp
  from l(2) show "isStaticPhoneMAC (fst t)" if "t \<in> set (phone_Targets (cfg_Phone c))"
    using that unfolding find_None_iff by blast
qed

lemma static_MAC_normal: "isStaticPhoneMAC s \<Longrightarrow> normalizedMAC s = Inr (to_upper s)"
proof -
  assume s: "isStaticPhoneMAC s"
  have "c \<notin> mac_separators" if "is_hex c" for c
    using that by (auto simp: mac_separators_def char_defs)
  with s have "filter (\<lambda>c. c \<notin> mac_separators) s = s"
    by (simp add: isStaticPhoneMAC_def hex_ok_def list_all_iff filter_id_conv)
  with s show ?thesis by (simp add: normalizedMAC_def isStaticPhoneMAC_def)
qed

text \<open>
  C23 (static targets of a valid configuration). A configuration that passes \<^verbatim>\<open>Validate\<close> without Lens credentials and with the
  phone side enabled always gives devices: one for each configured key, in ascending order, each with the trimmed address
  of its key, a MAC address the phone client can normalise, and the one configured tenant or the discovery tenant.
\<close>

theorem static_devices_of_valid_config:
  assumes "Validate cfg = None" "\<not> has_lens cfg" "phone_Enabled (cfg_Phone cfg)"
    and "phone_Targets (cfg_Phone cfg) \<noteq> []" "distinct (map fst (phone_Targets (cfg_Phone cfg)))"
  shows "\<exists>ds tid. staticPhoneDevices (phone_Targets (cfg_Phone cfg)) (lens_Tenants (cfg_Lens cfg)) = Inr (ds, [tid]) \<and>
    set (lens_Tenants (cfg_Lens cfg)) \<subseteq> {tid} \<and>
    sorted_wrt str_less (map ld_ID ds) \<and> set (map ld_ID ds) = set (map fst (phone_Targets (cfg_Phone cfg))) \<and>
    list_all (\<lambda>d. normalizedMAC (ld_MACAddress d) = Inr (to_upper (ld_ID d)) \<and> ld_TenantID d = tid \<and>
      (\<exists>a. (ld_ID d, a) \<in> set (phone_Targets (cfg_Phone cfg)) \<and> InternalIP d = trim_space a)) ds"
proof -
  let ?ts = "phone_Targets (cfg_Phone cfg)" and ?cfgd = "lens_Tenants (cfg_Lens cfg)"
  let ?tid = "hd (if ?cfgd = [] then [discoveryTenantID] else ?cfgd)"
  note v = valid_static [OF assms(1-4)]
  let ?ds = "map (static_device ?tid ?ts) (str_sort (map fst ?ts))"
  have t1: "(if ?cfgd = [] then [discoveryTenantID] else ?cfgd) = [?tid]" "set ?cfgd \<subseteq> {?tid}"
    using v(1) by (cases ?cfgd; simp)+
  have "staticPhoneDevices ?ts ?cfgd = Inr (?ds, [?tid])"
    using v(1) t1(1) by (simp add: staticPhoneDevices_def Let_def)
  moreover have ids: "map ld_ID ?ds = str_sort (map fst ?ts)" by (simp add: static_device_def comp_def)
  moreover have dev: "normalizedMAC (ld_MACAddress (static_device ?tid ?ts d)) = Inr (to_upper d) \<and>
      ld_ID (static_device ?tid ?ts d) = d \<and> ld_TenantID (static_device ?tid ?ts d) = ?tid \<and>
      (\<exists>a. (d, a) \<in> set ?ts \<and> InternalIP (static_device ?tid ?ts d) = trim_space a)" if "d \<in> set (map fst ?ts)" for d
  proof -
    from that obtain a where a: "(d, a) \<in> set ?ts" by auto
    with assms(5) have "map_of ?ts d = Some a" by (simp add: map_of_eq_Some_iff)
    with a v(2) [OF a] static_MAC_normal [of d] show ?thesis by (auto simp: static_device_def)
  qed
  have "list_all (\<lambda>d. normalizedMAC (ld_MACAddress d) = Inr (to_upper (ld_ID d)) \<and> ld_TenantID d = ?tid \<and>
      (\<exists>a. (ld_ID d, a) \<in> set ?ts \<and> InternalIP d = trim_space a)) ?ds"
    unfolding list_all_iff set_map str_sort_set ball_simps using dev by auto
  ultimately show ?thesis
    using t1(2) str_sort_sorted [OF assms(5)] str_sort_set [of "map fst ?ts"]
    by (intro exI [of _ ?ds] exI [of _ ?tid] conjI) (simp_all del: map_map set_map list.pred_map)
qed

text \<open>With the phone side disabled, the same settings are not checked, and several tenants stop the program at start-up.\<close>

lemma static_devices_unchecked:
  assumes "length (lens_Tenants (cfg_Lens cfg)) > 1" "phone_Targets (cfg_Phone cfg) \<noteq> []" "\<not> has_lens cfg"
  shows "\<exists>s'. run_runtime me cfg p k s = Some (Inl (1, Some p, k), s')"
  using assms by (simp add: run_runtime_def inventory_def staticPhoneDevices_def Let_def)

section \<open>Discovery\<close>

text \<open>
  Discovery. When the program discovers its inventory, the devices are those Lens lists for the tenants, tenant by tenant
  and in the order of the listing, each marked with the tenant it was listed for; the tenants are the
  configured ones, or those Lens lists when none is configured.
\<close>

theorem discovered_devices:
  assumes "discoverDevices env lc configured st = Some (Inr (tids, ds), st')"
  shows "(configured \<noteq> [] \<longrightarrow> tids = configured) \<and>
    (configured = [] \<longrightarrow> (\<exists>ts st1. Tenants env lc st = (Inr ts, st1) \<and> tids = map tenant_ID ts)) \<and>
    (\<exists>found. list_all2 (\<lambda>t fs. \<exists>st1 st2. Devices env lc t st1 = Some (Inr fs, st2)) tids found \<and>
      ds = concat (map2 (\<lambda>t. map (\<lambda>d. d\<lparr>ld_TenantID := t\<rparr>)) tids found))"
proof -
  have f: "\<exists>found. list_all2 (\<lambda>t fs. \<exists>st1 st2. Devices env lc t st1 = Some (Inr fs, st2)) ts found \<and>
      ds = concat (map2 (\<lambda>t. map (\<lambda>d. d\<lparr>ld_TenantID := t\<rparr>)) ts found)"
    if "discover_from env lc ts st1 = Some (Inr ds, st2)" for ts ds st1 st2
    using that
  proof (induction ts arbitrary: ds st1)
    case (Cons t ts)
    then obtain fs st3 rest where r: "Devices env lc t st1 = Some (Inr fs, st3)" "discover_from env lc ts st3 = Some (Inr rest, st2)"
      "ds = map (\<lambda>d. d\<lparr>ld_TenantID := t\<rparr>) fs @ rest"
      by (auto split: option.splits prod.splits sum.splits)
    from Cons.IH [OF r(2)] obtain found where
      "list_all2 (\<lambda>t fs. \<exists>st1 st2. Devices env lc t st1 = Some (Inr fs, st2)) ts found"
      "rest = concat (map2 (\<lambda>t. map (\<lambda>d. d\<lparr>ld_TenantID := t\<rparr>)) ts found)" by blast
    with r show ?case by (intro exI [of _ "fs # found"]) auto
  qed simp
  show ?thesis
  proof (cases "configured = []")
    case True
    obtain x st1 where x: "Tenants env lc st = (x, st1)" by (rule prod.exhaust)
    with assms True obtain ts where "x = Inr ts" "tids = map tenant_ID ts" "discover_from env lc tids st1 = Some (Inr ds, st')"
      by (auto simp: discoverDevices_def split: sum.splits option.splits prod.splits)
    with f x True show ?thesis by blast
  next
    case False
    with assms have "tids = configured" "discover_from env lc tids st = Some (Inr ds, st')"
      by (auto simp: discoverDevices_def split: sum.splits option.splits prod.splits)
    with f False show ?thesis by blast
  qed
qed

section \<open>The started program\<close>

lemma resolved_pairs:
  assumes "Resolve m cfg nc policy em ds s = (Inr ts, s')"
  shows "map (\<lambda>t. (pt_Device t, pt_Address t)) ts = map (\<lambda>d. (d, target_address cfg d)) (filter (\<lambda>d. target_address cfg d \<noteq> []) ds)"
  using Resolve_built [OF assms] by (induction rule: list_all2_induct) (auto simp: built_from_def)

definition target_of :: "config \<Rightarrow> emitter \<Rightarrow> lens_device \<Rightarrow> string \<times> string \<times> string \<times> string" where
  "target_of cfg em d = (ld_TenantID d, ld_ID d, ld_MACAddress d, target_address (main_resolver cfg em) d)"

lemma resolvePhoneTargets_of:
  assumes "resolvePhoneTargets m nc cfg lens em ds s = (Inr ts, s')"
  shows "map (\<lambda>t. (TenantID t, dev_ID (tgt_Device t), dev_MAC (tgt_Device t), dev_IP (tgt_Device t))) ts =
    (if phone_Enabled (cfg_Phone cfg) then map (target_of cfg em) (filter (\<lambda>d. target_address (main_resolver cfg em) d \<noteq> []) ds) else [])"
proof (cases "phone_Enabled (cfg_Phone cfg)")
  case True
  with assms obtain policy rs where "Resolve m (main_resolver cfg em) nc policy (Some em) ds s = (Inr rs, s')" "ts = map (collector_target cfg) rs"
    by (auto simp: resolvePhoneTargets_def Let_def split: prod.splits sum.splits if_splits)
  note r = this
  let ?f = "\<lambda>(d, a). (ld_TenantID d, ld_ID d, ld_MACAddress d, a)"
  from resolved_pairs [OF r(1)] have "map ?f (map (\<lambda>t. (pt_Device t, pt_Address t)) rs) =
      map ?f (map (\<lambda>d. (d, target_address (main_resolver cfg em) d)) (filter (\<lambda>d. target_address (main_resolver cfg em) d \<noteq> []) ds))"
    by (rule arg_cong)
  with r(2) True show ?thesis by (simp add: collector_target_def Let_def target_of_def comp_def)
qed (use assms in \<open>simp add: resolvePhoneTargets_def\<close>)

lemma run_runtime_Inr:
  assumes "run_runtime me cfg p k s = Some (Inr up, s')"
  obtains tids ds lc w s1 where "inventory me cfg (new_tenant_emitter (p_Emitter p) (lens_Tenants (cfg_Lens cfg))) (snd s) = Some (Inr (lc, tids, ds), w)"
    "up_emitter up = set_tenants tids (new_tenant_emitter (p_Emitter p) (lens_Tenants (cfg_Lens cfg)))"
    "up_cfg up = cfg\<lparr>cfg_Lens := (cfg_Lens cfg)\<lparr>lens_Tenants := tids\<rparr>\<rparr>" "up_devices up = ds"
    "resolvePhoneTargets (pe_meter (me_prog me)) (me_NewClient me) (up_cfg up) (up_lens up) (up_emitter up) ds (fst s, w) = (Inr (up_targets up), s1)"
    "up_registry up = main_registry (me_prog me) (up_cfg up) (up_lens up) (up_targets up)" "up_lens up = None \<longleftrightarrow> lc = None" "up_providers up = p" "up_sdk up = k"
  using assms unfolding run_runtime_def Let_def
  by (auto split: option.splits prod.splits sum.splits)

lemma run_startup_Inr:
  assumes "run_startup me args s = Some (Inr up, s')"
  obtains cfg p k s1 where "Validate cfg = None" "run_runtime me cfg p k s1 = Some (Inr up, s')"
    "NewProviders (me_sdk me) (main_providers (pe_version (me_prog me)) cfg) new_sdk = (Inr p, k)"
  using assms unfolding run_startup_def Let_def
  by (auto split: sum.splits if_splits prod.splits)



lemma valid_export:
  assumes "Validate c = None"
  shows "otlp_InstanceID (cfg_OTLP c) \<noteq> []" "otlp_Token (cfg_OTLP c) \<noteq> []"
    "otlp_Protocol (cfg_OTLP c) = ''http'' \<or> otlp_Protocol (cfg_OTLP c) = ''grpc''"
proof -
  have "missing_keys c = []" using assms by (simp add: Validate_def split: if_splits)
  then have "\<not> blank (otlp_InstanceID (cfg_OTLP c))" "\<not> blank (otlp_Token (cfg_OTLP c))"
    by (auto simp: missing_keys_def split: if_splits)
  then show "otlp_InstanceID (cfg_OTLP c) \<noteq> []" "otlp_Token (cfg_OTLP c) \<noteq> []" by (auto simp: blank_def)
  show "otlp_Protocol (cfg_OTLP c) = ''http'' \<or> otlp_Protocol (cfg_OTLP c) = ''grpc''"
    using assms by (auto simp: Validate_def split: if_splits option.splits)
qed

lemma run_startup_Inl:
  assumes "run_startup me args s = Some (Inl (c, p, k), s')"
  shows "p = None \<and> sdk_meter k = None \<and> sdk_down k = [] \<and>
      (c = 2 \<longleftrightarrow> \<not> isOK (parse_flags args \<lparr>configPath = [], showVersion = False\<rparr>)) \<and>
      (c = 0 \<longleftrightarrow> (\<exists>f. parse_flags args \<lparr>configPath = [], showVersion = False\<rparr> = Inr f \<and> showVersion f)) \<or>
    (\<exists>q f opt. p = Some q \<and> c = 1 \<and> parse_flags args \<lparr>configPath = [], showVersion = False\<rparr> = Inr f \<and> \<not> showVersion f \<and>
      NewProviders (me_sdk me) opt new_sdk = (Inr q, k))"
proof -
  have r: "c = 1 \<and> p = Some q \<and> k = k0" if "run_runtime me cfg q k0 s0 = Some (Inl (c, p, k), s')" for cfg q k0 s0
    using that unfolding run_runtime_def Let_def by (auto split: option.splits prod.splits sum.splits)
  have n: "sdk_meter k0 = None \<and> sdk_down k0 = []" if "NewProviders (me_sdk me) opt new_sdk = (Inl e, k0)" for opt e k0
    using NewProviders_fails [OF that] by (simp add: new_sdk_def)
  show ?thesis
    using assms unfolding run_startup_def Let_def
    by (auto simp: new_sdk_def [symmetric] split: sum.splits if_splits prod.splits dest!: r dest: n) (auto simp: new_sdk_def)
qed

lemma shutdown_complete:
  assumes "NewProviders env opt new_sdk = (Inr p, k)"
  shows "sdk_meter (snd (Shutdown env' p k)) \<noteq> None" "map (exp_signal \<circ> prov_exporter) (sdk_down (snd (Shutdown env' p k))) = [MetricSignal, LogSignal, TraceSignal]"
    "map prov_exporter (sdk_down (snd (Shutdown env' p k))) = sdk_made (snd (Shutdown env' p k))"
proof -
  obtain mk where m: "otlp_exporters opt = Inr mk" "provider_exporters p = [mk MetricSignal, mk LogSignal, mk TraceSignal]"
    "sdk_made k = sdk_made new_sdk @ provider_exporters p" "sdk_meter k = Some (p_metrics p)" "sdk_down k = []"
    using assms NewProviders_down [OF assms] by (auto elim: NewProviders_Inr simp: new_sdk_def)
  have e: "map prov_exporter [p_metrics p, p_logs p, p_traces p] = provider_exporters p" by (simp add: provider_exporters_def)
  show "sdk_meter (snd (Shutdown env' p k)) \<noteq> None" by (simp add: Shutdown_reaches_all m(4))
  show "map prov_exporter (sdk_down (snd (Shutdown env' p k))) = sdk_made (snd (Shutdown env' p k))"
    using e by (simp add: Shutdown_reaches_all m(3,5) new_sdk_def)
  have "map exp_signal (map prov_exporter (sdk_down (snd (Shutdown env' p k)))) = map exp_signal (provider_exporters p)"
    using e by (simp add: Shutdown_reaches_all m(5))
  then show "map (exp_signal \<circ> prov_exporter) (sdk_down (snd (Shutdown env' p k))) = [MetricSignal, LogSignal, TraceSignal]"
    by (simp add: m(2) exporters_alike [OF m(1)])
qed



section \<open>Example values\<close>

lemma static_devices_of_valid_config_witness:
  "\<exists>ds tid. staticPhoneDevices (phone_Targets (cfg_Phone ex_config)) (lens_Tenants (cfg_Lens ex_config)) = Inr (ds, [tid]) \<and>
    set (map ld_ID ds) = set (map fst (phone_Targets (cfg_Phone ex_config)))"
proof -
  have c: "\<not> has_lens ex_config" "phone_Enabled (cfg_Phone ex_config)" "phone_Targets (cfg_Phone ex_config) \<noteq> []"
    "distinct (map fst (phone_Targets (cfg_Phone ex_config)))"
    by code_simp+
  from static_devices_of_valid_config [OF ex_config_valid c] show ?thesis by blast
qed

definition ex_phone :: "(nat, unit) world phone_api" where
  "ex_phone = world_phone_api ex_api"

definition ex_main :: "(string list, nat, unit) main_env" where
  "ex_main = \<lparr>me_prog = ex_prog, me_koanf = ex_koanf\<lparr>koanf_Unmarshal := (\<lambda>_. Inr ex_config)\<rparr>, me_sdk = ex_sdk,
     me_pyroscope = (\<lambda>_. None), me_lens = ex_lens_env, me_NewClient = (\<lambda>_ _. Inr ex_phone)\<rparr>"

lemma ex_unexpected:
  assumes "emitUnexpected ex_meter em d s = (r, s')"
  shows "r = None"
proof (cases em)
  case (Some e)
  show ?thesis
    using assms ex_emit [of e MetricAPIUnexpected "FNum 1" "[Attr AttrDeviceID d]" s]
    by (cases "emitGauge ex_meter e MetricAPIUnexpected (FNum 1) [Attr AttrDeviceID d] s") (simp add: Some emitUnexpected_def)
qed (use assms in \<open>simp add: emitUnexpected_def\<close>)

lemma Resolve_ex:
  assumes "\<And>c e. nc c e = Inr api"
  shows "\<exists>ts s'. Resolve ex_meter cfg nc policy em ds s = (Inr ts, s')"
proof (induction ds arbitrary: s)
  case (Cons d ds)
  have p: "\<exists>pw s'. resolve_password ex_meter cfg policy em d s = (Inr pw, s')"
    by (auto simp: resolve_password_def Let_def split: option.splits prod.splits sum.splits dest: ex_unexpected)
  have q: "\<exists>s'. probe_target ex_meter em d api s = (None, s')" for s
    by (auto simp: probe_target_def split: prod.splits dest: ex_unexpected) (metis ex_unexpected prod.collapse)
  obtain pw s1 where p': "resolve_password ex_meter cfg policy em d s = (Inr pw, s1)" using p by blast
  obtain s2 where q': "probe_target ex_meter em d api s1 = (None, s2)" using q by blast
  obtain ts s3 where r': "Resolve ex_meter cfg nc policy em ds s2 = (Inr ts, s3)" using Cons by blast
  obtain us s4 where "Resolve ex_meter cfg nc policy em ds s = (Inr us, s4)" using Cons by blast
  moreover have "resolve_device ex_meter cfg nc policy em d (target_address cfg d) s =
      (Inr \<lparr>pt_Device = d, pt_Address = target_address cfg d, pt_API = api\<rparr>, s2)"
    by (simp add: resolve_device_def p' q' assms)
  ultimately show ?case by (simp add: r' del: split_paired_Ex)
qed simp

lemma ex_started: "\<exists>up s'. run_startup ex_main [] (ex_tel, ex_world) = Some (Inr up, s')"
proof -
  have l: "Load (me_koanf ex_main) [] = Inr ex_config"
    by (simp add: Load_def load_file_def wrap_result_def ex_main_def ex_koanf_def prefixed_def)
  have g: "newLogger (cfg_Log ex_config) = Inr (JSONHandler 0)" by code_simp
  have e: "fst (ensureStateDir (pe_files (me_prog ex_main)) (cfg_StateDir ex_config) f) = None" for f
  proof -
    have "\<not> blank (cfg_StateDir ex_config)" by code_simp
    then show ?thesis by (simp add: ensureStateDir_def Let_def ex_main_def ex_prog_def ex_files_def)
  qed
  have i: "\<exists>tids ds. inventory ex_main ex_config em w = Some (Inr (None, tids, ds), w)" for em w
  proof -
    have "\<not> has_lens ex_config" by code_simp
    then show ?thesis by (auto simp: inventory_def staticPhoneDevices_def ex_config_def Default_def Let_def)
  qed
  have r: "\<exists>ts s'. resolvePhoneTargets ex_meter (me_NewClient ex_main) cfg None em ds s = (Inr ts, s')" for cfg em ds s
  proof -
    obtain ts s' where "Resolve ex_meter (main_resolver cfg em) (me_NewClient ex_main) None (Some em) ds s = (Inr ts, s')"
      using Resolve_ex [of "me_NewClient ex_main" ex_phone] by (simp add: ex_main_def) blast
    then show ?thesis unfolding resolvePhoneTargets_def by simp
  qed
  have u: "fst (startup_event ex_main em s) = None" for em s
    using log_event_succeeds by (simp add: startup_event_def Let_def case_prod_unfold ex_main_def ex_prog_def is_zero_def)
  have "\<exists>up s'. run_runtime ex_main ex_config p k s = Some (Inr up, s')" for p k s
  proof -
    obtain tids ds where i': "inventory ex_main ex_config (new_tenant_emitter (p_Emitter p) (lens_Tenants (cfg_Lens ex_config))) (snd s) = Some (Inr (None, tids, ds), snd s)"
      using i by blast
    let ?em = "set_tenants tids (new_tenant_emitter (p_Emitter p) (lens_Tenants (cfg_Lens ex_config)))"
    let ?cfg = "ex_config\<lparr>cfg_Lens := (cfg_Lens ex_config)\<lparr>lens_Tenants := tids\<rparr>\<rparr>"
    obtain ts s1 where r': "resolvePhoneTargets ex_meter (me_NewClient ex_main) ?cfg None ?em ds (fst s, snd s) = (Inr ts, s1)"
      using r by blast
    obtain s2 where u': "startup_event ex_main ?em s1 = (None, s2)" using u by (metis prod.collapse)
    have m: "pe_meter (me_prog ex_main) = ex_meter" by (simp add: ex_main_def ex_prog_def)
    show ?thesis unfolding run_runtime_def Let_def i' by (simp only: option.case prod.case sum.case m option.map r' u') blast
  qed
  note rt = this
  obtain p k where n: "NewProviders (me_sdk ex_main) (main_providers (pe_version (me_prog ex_main)) ex_config) new_sdk = (Inr p, k)"
  proof -
    have "otlp_Protocol (cfg_OTLP ex_config) = ''http''" by code_simp
    then have "\<exists>mk. otlp_exporters (main_providers v ex_config) = Inr mk" for v
      by (auto simp: otlp_exporters_def main_providers_def Let_def)
    then show ?thesis using that ex_sdk_builds by (metis ex_main_def main_env.select_convs(3))
  qed
  show ?thesis
    unfolding run_startup_def by (simp add: l g ex_config_valid Let_def case_prod_unfold e n rt del: split_paired_Ex)
qed





definition ex_data :: json where
  "ex_data = JObj [(''tenants'', JArr [JObj [(''id'', JStr ''t'')]]),
     (''tenant'', JObj [(''inventory'', JObj [(''deviceSearch'', JObj [(''pageInfo'', JObj [(''hasNextPage'', JBool False)]),
       (''edges'', JArr [JObj [(''node'', JObj [(''id'', JStr ''d'')])]])])])])]"

text \<open>A Lens service that answers every request with the same data.\<close>

definition answering :: "json \<Rightarrow> nat lens_env" where
  "answering d = ex_lens_env\<lparr>lens_exchange := (\<lambda>rq w. (Inr \<lparr>ls_status = 200, ls_text = Inr ''q'', ls_close = None\<rparr>, Suc w)),
     clock := (\<lambda>w. (0, w)), parse_text := (\<lambda>t. Some (JObj [(''data'', d)]))\<rparr>"

definition ex_inventory_env :: "nat lens_env" where
  "ex_inventory_env = answering ex_data"

definition ex_inventory_st :: "nat lens_st" where
  "ex_inventory_st = ex_lens_st\<lparr>lt_token := ''tok'', lt_expiresAt := 100000000000\<rparr>"

lemma answering_envelope: "read_envelope (answering d) lc tok text = Inr d"
  by (simp add: read_envelope_def answering_def dec_envelope_def dec_struct_def fld_def field_of_def dec_raw_def)

lemma answering_query:
  assumes "0 < MaxAttempts lc" "\<not> mutationKeyword doc" "lt_token st = ''tok''" "lt_expiresAt st = 100000000000"
  shows "\<exists>st'. lens_Query (answering d) lc doc vars st = (Inr d, st') \<and> lt_token st' = ''tok'' \<and> lt_expiresAt st' = 100000000000"
proof -
  have a: "accessToken (answering d) lc st = (Inr ''tok'', st)"
    using assms by (simp add: accessToken_def read_clock_def answering_def)
  have o: "\<exists>st' data. do_from (answering d) lc rq i (Suc n) st = (Inr data, st') \<and> lt_token st' = lt_token st \<and> lt_expiresAt st' = lt_expiresAt st" for rq i n
    by (simp add: answering_def ex_lens_env_def attempt_once_def read_response_def Let_def)
  obtain n where m: "nat (MaxAttempts lc) = Suc n" using assms(1) by (metis not0_implies_Suc zero_less_nat_eq less_numeral_extra(3))
  from o [of "\<lparr>lq_url = GraphQLURL lc, lq_body = query_body doc vars, lq_bearer = ''tok''\<rparr>" 1 n] obtain st' data where
    "lens_do (answering d) lc (GraphQLURL lc) (query_body doc vars) ''tok'' st = (Inr data, st')"
    "lt_token st' = lt_token st" "lt_expiresAt st' = lt_expiresAt st"
    unfolding lens_do_def m by blast
  with assms show ?thesis by (simp add: lens_Query_def a answering_envelope)
qed

lemma ex_inventory_query:
  "\<not> mutationKeyword doc \<Longrightarrow> lt_token st = ''tok'' \<Longrightarrow> lt_expiresAt st = 100000000000 \<Longrightarrow>
     \<exists>st'. lens_Query ex_inventory_env ex_lens_cfg doc vars st = (Inr ex_data, st') \<and> lt_token st' = ''tok'' \<and> lt_expiresAt st' = 100000000000"
  unfolding ex_inventory_env_def by (rule answering_query) (simp_all add: ex_lens_cfg_def)

lemma own_queries: "\<not> mutationKeyword tenantsQuery" "\<not> mutationKeyword devicesQuery" "\<not> mutationKeyword cdr_query"
  using own_documents by (simp_all add: no_pair_no_mutation)

lemma ex_discovered: "\<exists>st'. discoverDevices ex_inventory_env ex_lens_cfg [] ex_inventory_st = Some (Inr ([''t''], [zero_lens_device\<lparr>ld_TenantID := ''t'', ld_ID := ''d''\<rparr>]), st')"
proof -
  have i: "lt_token ex_inventory_st = ''tok''" "lt_expiresAt ex_inventory_st = 100000000000" by (simp_all add: ex_inventory_st_def)
  from ex_inventory_query [OF own_queries(1) i, of JNull] obtain st1 where q:
    "lens_Query ex_inventory_env ex_lens_cfg tenantsQuery JNull ex_inventory_st = (Inr ex_data, st1)"
    "lt_token st1 = ''tok''" "lt_expiresAt st1 = 100000000000" by blast
  have d: "query_into [] (dec_struct [fld ''tenants''
        (dec_list \<lparr>tenant_ID = [], tenant_Name = []\<rparr>
           (dec_struct [fld ''id'' dec_string tenant_ID (\<lambda>v t. t\<lparr>tenant_ID := v\<rparr>),
                        fld ''name'' dec_string tenant_Name (\<lambda>v t. t\<lparr>tenant_Name := v\<rparr>)]))
        (\<lambda>r. r) (\<lambda>v r. v)]) (Inr ex_data, w) = (Inr [\<lparr>tenant_ID = ''t'', tenant_Name = []\<rparr>], w)" for w :: "nat lens_st"
  proof -
    have "fst (query_into [] (dec_struct [fld ''tenants''
        (dec_list \<lparr>tenant_ID = [], tenant_Name = []\<rparr>
           (dec_struct [fld ''id'' dec_string tenant_ID (\<lambda>v t. t\<lparr>tenant_ID := v\<rparr>),
                        fld ''name'' dec_string tenant_Name (\<lambda>v t. t\<lparr>tenant_Name := v\<rparr>)]))
        (\<lambda>r. r) (\<lambda>v r. v)]) (Inr ex_data, ())) = Inr [\<lparr>tenant_ID = ''t'', tenant_Name = []\<rparr>]" by code_simp
    then show ?thesis by (simp add: query_into_def split: option.splits if_splits)
  qed
  have t: "Tenants ex_inventory_env ex_lens_cfg ex_inventory_st = (Inr [\<lparr>tenant_ID = ''t'', tenant_Name = []\<rparr>], st1)"
    unfolding Tenants_def q(1) d ..
  from ex_inventory_query [OF own_queries(2) q(2,3), of "devices_vars ex_lens_cfg ''t'' None"] obtain st2 where
    "lens_Query ex_inventory_env ex_lens_cfg devicesQuery (devices_vars ex_lens_cfg ''t'' None) st1 = (Inr ex_data, st2)" by blast
  moreover have "query_into zero_device_page dec_device_page (Inr ex_data, w) =
      (Inr \<lparr>dp_HasNextPage = False, dp_NextToken = None, dp_Edges = [zero_lens_device\<lparr>ld_ID := ''d''\<rparr>]\<rparr>, w)" for w :: "nat lens_st"
  proof -
    have "fst (query_into zero_device_page dec_device_page (Inr ex_data, ())) =
      Inr \<lparr>dp_HasNextPage = False, dp_NextToken = None, dp_Edges = [zero_lens_device\<lparr>ld_ID := ''d''\<rparr>]\<rparr>" by code_simp
    then show ?thesis by (simp add: query_into_def split: option.splits if_splits)
  qed
  ultimately have "fetch_devices ex_inventory_env ex_lens_cfg ''t'' None st1 =
      (Inr \<lparr>dp_HasNextPage = False, dp_NextToken = None, dp_Edges = [zero_lens_device\<lparr>ld_ID := ''d''\<rparr>]\<rparr>, st2)"
    by (simp add: fetch_devices_def)
  then have "pages_of ex_inventory_env ex_lens_cfg ''t'' None st1 [[zero_lens_device\<lparr>ld_ID := ''d''\<rparr>]] st2"
    using last_page [of ex_inventory_env ex_lens_cfg "''t''" None st1] by fastforce
  from devices_loop_pages [OF this, of "[]"]
  have "Devices ex_inventory_env ex_lens_cfg ''t'' st1 = Some (Inr [zero_lens_device\<lparr>ld_ID := ''d''\<rparr>], st2)"
    by (simp add: Devices_def)
  then show ?thesis by (simp add: discoverDevices_def t)
qed

lemma discovered_devices_witness:
  "\<exists>st' found. discoverDevices ex_inventory_env ex_lens_cfg [] ex_inventory_st =
      Some (Inr ([''t''], [zero_lens_device\<lparr>ld_TenantID := ''t'', ld_ID := ''d''\<rparr>]), st') \<and>
    [zero_lens_device\<lparr>ld_TenantID := ''t'', ld_ID := ''d''\<rparr>] = concat (map2 (\<lambda>t. map (\<lambda>d. d\<lparr>ld_TenantID := t\<rparr>)) [''t''] found)"
proof -
  obtain st' where d: "discoverDevices ex_inventory_env ex_lens_cfg [] ex_inventory_st =
      Some (Inr ([''t''], [zero_lens_device\<lparr>ld_TenantID := ''t'', ld_ID := ''d''\<rparr>]), st')" using ex_discovered by blast
  from discovered_devices [OF d] d show ?thesis by blast
qed

end
