(* ===== verification/StateIsolation.thy ===== *)
theory StateIsolation
  imports Registration
begin

text \<open>
  Which files a run of a collector can change. The collectors share the directory of their state: this theory shows that
  only the call-record collector of a tenant changes the watermark of that tenant, whatever the others are answered.
\<close>

section \<open>What the world behind the collectors keeps\<close>

locale world_relation = step_relation Q for Q :: "'w \<Rightarrow> 'w \<Rightarrow> bool"
begin

definition phone_within :: "'w phone_api \<Rightarrow> bool" where
  "phone_within api \<longleftrightarrow> (\<forall>w. Q w (snd (Probe api w)) \<and> Q w (snd (NetworkStats api w)) \<and> Q w (snd (NetworkInfo api w)) \<and>
     Q w (snd (LineInfo api w)) \<and> (\<forall>ps. Q w (snd (ConfigGet api ps w))))"

definition lens_within :: "'w lens_api \<Rightarrow> bool" where
  "lens_within api \<longleftrightarrow> (\<forall>t w r w'. api_Devices api t w = Some (r, w') \<longrightarrow> Q w w') \<and>
     (\<forall>d w. Q w (snd (api_ActiveCalls api d w))) \<and> (\<forall>p w. Q w (snd (api_LatestFirmware api p w))) \<and>
     (\<forall>lookup w. api_Tenants api = Some lookup \<longrightarrow> Q w (snd (lookup w)))"

lemma phone_withinD:
  assumes "phone_within api"
  shows "Probe api w = (st, w') \<Longrightarrow> Q w w'" "NetworkStats api w = (r1, w') \<Longrightarrow> Q w w'" "NetworkInfo api w = (r2, w') \<Longrightarrow> Q w w'"
    "LineInfo api w = (r3, w') \<Longrightarrow> Q w w'" "ConfigGet api ps w = (r4, w') \<Longrightarrow> Q w w'"
  using assms unfolding phone_within_def by (metis snd_conv)+

lemma lens_withinD:
  assumes "lens_within api"
  shows "api_Devices api t w = Some (r, w') \<Longrightarrow> Q w w'" "api_ActiveCalls api d w = (r1, w') \<Longrightarrow> Q w w'"
    "api_LatestFirmware api p w = (r2, w') \<Longrightarrow> Q w w'" "api_Tenants api = Some lookup \<Longrightarrow> lookup w = (r3, w') \<Longrightarrow> Q w w'"
  using assms unfolding lens_within_def by (metis snd_conv)+

text \<open>The emitters do not touch the world.\<close>

lemma keeps_emitted:
  "keeps snd (emitGauge m em n v attrs)"
  "keeps snd (emitCounter m em n v attrs)"
  by (auto simp: keeps_def emitGauge_def emitCounter_def R_refl split: prod.splits)

lemma keeps_after: "keeps snd f \<Longrightarrow> Q w w' \<Longrightarrow> Q w (snd (snd (f (tel, w'))))"
  using R_trans keepsD [of snd f "(tel, w')" w'] by simp

lemmas keeps_world = keeps_and_then keeps_for_each keeps_if keeps_emitted

subsection \<open>Phone collectors\<close>

lemma keeps_when_ok:
  assumes "phone_within (tgt_API tgt)" "keeps snd (f tgt)"
  shows "keeps snd (when_ok f tgt)"
  unfolding keeps_def when_ok_def Let_def
  by (auto split: prod.splits intro: phone_withinD(1) [OF assms(1)] keeps_after [OF assms(2)])

lemma keeps_status:
  assumes "\<forall>tgt \<in> set ts. phone_within (tgt_API tgt)"
  shows "keeps snd (status_collect m em ts)"
proof -
  have k: "keeps snd (status_target m em tgt)" if p: "phone_within (tgt_API tgt)" for tgt
  proof -
    have "keeps snd (status_stats m em tgt)"
      unfolding keeps_def [of snd "status_stats m em tgt"] status_stats_def Let_def
      by (auto split: prod.splits sum.splits intro: phone_withinD [OF p] intro!: keeps_after keeps_world)
    then have "keeps snd (and_then (for_each (state_gauge m (targetEmitter em tgt) st) apiStates)
        (\<lambda>s. if st \<noteq> StateOK then (None, s) else status_stats m em tgt s))" for st
      unfolding state_gauge_def by (intro keeps_world)
    then show ?thesis
      unfolding keeps_def [of snd "status_target m em tgt"] status_target_def Let_def
      by (auto split: prod.splits intro: phone_withinD [OF p] intro!: keeps_after)
  qed
  then show ?thesis unfolding status_collect_def using assms by (blast intro: keeps_for_each_in)
qed

lemma keeps_lines:
  assumes "\<forall>tgt \<in> set ts. phone_within (tgt_API tgt)"
  shows "keeps snd (lines_collect m em ts)"
proof -
  have "keeps snd (lines_target m em tgt)" if p: "phone_within (tgt_API tgt)" for tgt
    unfolding keeps_def [of snd "lines_target m em tgt"] lines_target_def line_gauge_def Let_def
    by (auto split: prod.splits sum.splits intro: phone_withinD [OF p] intro!: keeps_after keeps_world)
  then show ?thesis unfolding lines_collect_def using assms by (blast intro: keeps_for_each_in keeps_when_ok)
qed

lemma keeps_config:
  assumes "\<forall>tgt \<in> set ts. phone_within (tgt_API tgt)"
  shows "keeps snd (config_collect m em names ts)"
proof -
  have g: "keeps snd (param_gauge m em tgt params name)" for tgt :: "'w target" and params name
    unfolding keeps_def param_gauge_def
    by (auto split: option.splits simp: R_refl intro: keepsD [OF keeps_emitted(1)])
  have "keeps snd (config_target m em names tgt)" if p: "phone_within (tgt_API tgt)" for tgt
    unfolding keeps_def [of snd "config_target m em names tgt"] config_target_def
    by (auto split: prod.splits sum.splits intro: phone_withinD [OF p] intro!: keeps_after keeps_for_each g)
  then show ?thesis unfolding config_collect_def using assms by (blast intro: keeps_for_each_in keeps_when_ok)
qed

lemma keeps_network_info:
  assumes "\<forall>tgt \<in> set ts. phone_within (tgt_API tgt)"
  shows "keeps snd (network_info_collect m em ts)"
proof -
  have "keeps snd (network_info_target m em tgt)" if p: "phone_within (tgt_API tgt)" for tgt
    unfolding keeps_def [of snd "network_info_target m em tgt"] network_info_target_def Let_def
    by (auto split: prod.splits sum.splits intro: phone_withinD [OF p] intro!: keeps_after keeps_world)
  then show ?thesis unfolding network_info_collect_def using assms by (blast intro: keeps_for_each_in keeps_when_ok)
qed

subsection \<open>Lens collectors\<close>

lemma tenants_within: "lens_within api \<Longrightarrow> resolveTenants api c w = (r, w') \<Longrightarrow> Q w w'"
  by (auto simp: resolveTenants_def R_refl split: if_splits option.splits prod.splits sum.splits intro: lens_withinD(4))

lemma listing_within: "lens_within api \<Longrightarrow> tenant_devices api ts w = Some (r, w') \<Longrightarrow> Q w w'"
proof (induction ts arbitrary: w r)
  case (Cons t ts)
  then show ?case
    by (auto split: option.splits prod.splits sum.splits intro: lens_withinD(1)) (metis R_trans lens_withinD(1))+
qed (simp add: R_refl)

lemma base_within:
  assumes "\<And>api. client = Some api \<Longrightarrow> lens_within api" "base_devices m client c em s = Some (r, s')"
  shows "Q (snd s) (snd s')"
proof (cases client)
  case None
  with assms(2) show ?thesis by (simp add: base_devices_def R_refl)
next
  case (Some api)
  note w = assms(1) [OF Some]
  have t: "snd s1 = w1" if "too_many m em n mx (fst s, w1) = (e, s1)" for n mx w1 e s1
    using that by (auto simp: too_many_def emitGauge_def split: prod.splits option.splits)
  show ?thesis
    using assms(2) Some R_trans [OF tenants_within [OF w] listing_within [OF w]] tenants_within [OF w]
    by (auto simp: base_devices_def split: prod.splits sum.splits option.splits if_splits dest: t)
qed

lemma for_devices_within:
  assumes "\<And>api. client = Some api \<Longrightarrow> lens_within api" "\<And>entry. keeps snd (body entry)"
    and "for_devices m client c em body s = Some (r, s')"
  shows "Q (snd s) (snd s')"
proof -
  obtain x s1 where b: "base_devices m client c em s = Some (x, s1)"
    using assms(3) by (auto simp: for_devices_def split: option.splits prod.splits)
  note q = base_within [OF assms(1) b]
  show ?thesis
  proof (cases x)
    case (Inl e)
    with assms(3) b q show ?thesis by (simp add: for_devices_def)
  next
    case (Inr ds)
    with assms(3) b have "for_each body ds s1 = (r, s')" by (simp add: for_devices_def)
    with R_trans [OF q keepsD [OF keeps_for_each [of snd body ds, OF assms(2)] refl, of s1]] show ?thesis by simp
  qed
qed

lemma keeps_emitAge:
  assumes "\<And>w. Q w (snd (now w))"
  shows "keeps snd (emitAge m now em n ts)"
proof -
  have n: "Q w w'" if "now w = (t, w')" for w t w' using assms [of w] that by simp
  show ?thesis
    unfolding keeps_def emitAge_def Let_def
    by (auto split: option.splits prod.splits simp: R_refl intro!: keeps_after keeps_emitted intro: n)
qed

lemma lens_bodies_keep:
  assumes "\<And>api. client = Some api \<Longrightarrow> lens_within api" "\<And>w. Q w (snd (now w))"
  shows "keeps snd (device_entry m now em entry)"
    "keeps snd (\<lambda>s. case client of None \<Rightarrow> (Some errClientUnavailable, s) | Some api \<Rightarrow> calls_entry m order api em entry s)"
    "keeps snd (\<lambda>s. case client of None \<Rightarrow> (Some errClientUnavailable, s) | Some api \<Rightarrow> firmware_entry m api em entry s)"
proof -
  show "keeps snd (device_entry m now em entry)"
    unfolding device_entry_def Let_def by (intro keeps_world keeps_emitAge assms(2))
  show "keeps snd (\<lambda>s. case client of None \<Rightarrow> (Some errClientUnavailable, s) | Some api \<Rightarrow> calls_entry m order api em entry s)"
    unfolding keeps_def calls_entry_def
    by (auto split: option.splits prod.splits sum.splits simp: R_refl
        intro: lens_withinD(2) [OF assms(1)] intro!: keeps_after keeps_for_each keeps_emitted)
  show "keeps snd (\<lambda>s. case client of None \<Rightarrow> (Some errClientUnavailable, s) | Some api \<Rightarrow> firmware_entry m api em entry s)"
    unfolding keeps_def firmware_entry_def
    by (auto split: option.splits prod.splits sum.splits simp: R_refl
        intro: lens_withinD(3) [OF assms(1)] intro!: keeps_after keeps_emitted)
qed

lemma lens_collectors_within:
  assumes "lens_within api" "\<And>w. Q w (snd (now w))"
  shows "devices_collect m now (Some api) c em s = Some (r, s') \<Longrightarrow> Q (snd s) (snd s')"
    "active_calls_collect m order (Some api) c em s = Some (r, s') \<Longrightarrow> Q (snd s) (snd s')"
    "firmware_collect m (Some api) c em s = Some (r, s') \<Longrightarrow> Q (snd s) (snd s')"
proof -
  have w: "lens_within a" if "Some api = Some a" for a using assms(1) that by simp
  show "devices_collect m now (Some api) c em s = Some (r, s') \<Longrightarrow> Q (snd s) (snd s')"
    unfolding devices_collect_def by (rule for_devices_within [OF w lens_bodies_keep(1) [where client = "Some api", OF w assms(2)]])
  show "active_calls_collect m order (Some api) c em s = Some (r, s') \<Longrightarrow> Q (snd s) (snd s')"
    unfolding active_calls_collect_def by (rule for_devices_within [OF w lens_bodies_keep(2) [where client = "Some api", OF w assms(2)]])
  show "firmware_collect m (Some api) c em s = Some (r, s') \<Longrightarrow> Q (snd s) (snd s')"
    unfolding firmware_collect_def by (rule for_devices_within [OF w lens_bodies_keep(3) [where client = "Some api", OF w assms(2)]])
qed

end

section \<open>The files\<close>

text \<open>One file of the state directory: the network of Lens and the one of the phones do not touch it.\<close>

interpretation state_file: world_relation "\<lambda>w w'. wd_files w' p = wd_files w p" for p
  by unfold_locales auto

lemma lens_client_file: "state_file.lens_within p (world_lens_api env lc)"
  by (auto simp: state_file.lens_within_def world_lens_api_def on_lens_def split: option.splits prod.splits)

lemma lens_entries_file:
  assumes "\<And>w. wd_files (snd (pe_now pe w)) p = wd_files w p"
    and "c \<in> set (lens_entries pe env lc cfg)" "Collect c em s = Some (res, s')"
  shows "wd_files (snd s') p = wd_files (snd s) p"
proof -
  have ao: "\<exists>e. r = Some (e, s')" if "as_outcome r = Some (res, s')" for r
    using that by (auto simp: as_outcome_def split: option.splits)
  note f = state_file.lens_collectors_within [OF lens_client_file [of p env lc] assms(1)]
  from assms(2,3) show ?thesis
    by (auto simp: lens_entry_defs lens_collectors_def Let_def dest!: ao dest: f)
qed

lemma selfobs_entry_file: "Collect (selfobs_entry pe cfg) em s = Some (res, s') \<Longrightarrow> wd_files (snd s') p = wd_files (snd s) p"
  by (auto simp: selfobs_entry_def build_info_collect_def emitGauge_def as_outcome_def split: prod.splits)

text \<open>The call-log collector changes files of its own directory only.\<close>

lemma call_logs_file:
  assumes "call_logs_collect env fse m c em ts s = (r, s')" "d \<noteq> call_log_dir c"
  shows "snd (snd s') (d @ [h @ ''.json'']) = snd (snd s) (d @ [h @ ''.json''])"
proof -
  have s: "last (snd (saveCallLogWatermark env fse c tgt wm f)) (d @ [h @ ''.json'']) = f (d @ [h @ ''.json''])" for tgt :: "'a target" and wm f
  proof (cases "cl_stateDir c = []")
    case False
    then show ?thesis
      unfolding saveCallLogWatermark_def if_not_P [OF False]
      by (intro save_doc_frame [OF last_in_set [OF save_doc_states_not_Nil]])
        (use assms(2) temp_path_not_json [of fse "call_log_dir c" f d h] in auto)
  qed (simp add: saveCallLogWatermark_def)
  have s': "last fs (d @ [h @ ''.json'']) = f (d @ [h @ ''.json''])" if "saveCallLogWatermark env fse c tgt wm f = (x, fs)"
    for tgt :: "'a target" and wm f x fs
    using s [of tgt wm f] that by simp
  have t: "snd (snd (snd (call_logs_target env fse m c em tgt s))) (d @ [h @ ''.json'']) = snd (snd s) (d @ [h @ ''.json''])" for tgt :: "'a target" and s
    unfolding call_logs_target_def Let_def
    by (auto split: prod.splits option.splits sum.splits dest: s')
  show ?thesis
    using assms(1) unfolding call_logs_collect_def
    by (rule for_each_inv [where I = "\<lambda>t. snd (snd t) (d @ [h @ ''.json'']) = snd (snd s) (d @ [h @ ''.json''])"]) (metis t snd_conv)+
qed

lemma phone_entries_file:
  assumes "\<forall>tgt \<in> set ts. state_file.phone_within (d @ [h @ ''.json'']) (tgt_API tgt)" "d \<noteq> call_log_dir (NewCallLogs ts)"
    and "c \<in> set (phone_entries pe cfg ts)" "Collect c em s = Some (res, s')"
  shows "wd_files (snd s') (d @ [h @ ''.json'']) = wd_files (snd s) (d @ [h @ ''.json''])"
proof -
  let ?p = "d @ [h @ ''.json'']"
  have ph: "wd_files (snd s') ?p = wd_files (snd s) ?p" if "state_file.keeps ?p snd f" "as_outcome (Some (f s)) = Some (res, s')" for f
    using state_file.keepsD [OF that(1) refl, of s] that(2) by (auto simp: as_outcome_def split: prod.splits)
  have fi: "wd_files (snd s') ?p = wd_files (snd s) ?p"
    if "on_files (call_logs_collect (pe_calls pe) (pe_files pe) (pe_meter pe) (NewCallLogs ts) em ts) s = Some (res, s')"
    using that call_logs_file [OF _ assms(2), of "pe_calls pe" "pe_files pe" "pe_meter pe" em ts "(fst s, snd s, wd_files (snd s))"]
    by (auto simp: on_files_def split: prod.splits)
  note k = state_file.keeps_status [OF assms(1)] state_file.keeps_lines [OF assms(1)] state_file.keeps_config [OF assms(1)]
    state_file.keeps_network_info [OF assms(1)]
  from assms(3,4) show ?thesis
    by (auto simp: phone_entry_defs intro: fi ph [OF k(1)] ph [OF k(2)] ph [OF k(3)] ph [OF k(4)])
qed

text \<open>Nor does a run for another tenant.\<close>

lemma cdr_entry_file:
  assumes "watermarkPath (pe_cdr pe) c' \<noteq> watermarkPath (pe_cdr pe) (cdr_New (cfg_StateDir cfg) tid)"
    and "Collect (cdr_entry pe env lc cfg tid) em s = Some (res, s')"
  shows "wd_files (snd s') (watermarkPath (pe_cdr pe) c') = wd_files (snd s) (watermarkPath (pe_cdr pe) c')"
proof -
  let ?c = "(cdr_New (cfg_StateDir cfg) tid)\<lparr>interval := iv_LensCDR (cfg_Collectors cfg)\<rparr>"
  have p: "watermarkPath (pe_cdr pe) c' \<noteq> watermarkPath (pe_cdr pe) ?c"
    using assms(1) by (simp add: watermarkPath_def watermark_dir_def watermark_name_def cdr_New_def)
  from assms(2) obtain e tel w f where
    "collect (pe_cdr pe) (pe_files pe) (Some (world_query env lc)) (pe_meter pe) ?c em (fst s) (snd s) (wd_files (snd s)) = Some (e, tel, w, f)"
    "s' = (tel, w\<lparr>wd_files := f\<rparr>)"
    by (auto simp: cdr_entry_defs Let_def split: option.splits)
  with collect_other_file [OF this(1) p] show ?thesis by simp
qed

end
