(* ===== verification/CallRecords.thy ===== *)
theory CallRecords
  imports Program StateIsolation
begin

text \<open>
  The call-detail records of a running program: what the collectors of all tenants and the phones, run in any interleaving by
  the scheduler, hand to the SDK for one tenant. Composes \<^verbatim>\<open>cmd/polylens2otel/main.go\<close>, the scheduler, the registration
  and the call-record collector.
\<close>

section \<open>The call records of a tenant\<close>

definition signal_attr :: "string \<Rightarrow> signal \<Rightarrow> string option" where
  "signal_attr k s = map_option attr_value (find (\<lambda>a. attr_key a = k) (signal_attrs s))"

definition call_record :: "string \<Rightarrow> signal \<Rightarrow> bool" where
  "call_record tid s \<longleftrightarrow> is_log s \<and> signal_attr AttrEventName s = Some EventLensCDR \<and> signal_attr AttrTenantID s = Some tid"

definition call_records :: "string \<Rightarrow> instruments \<Rightarrow> signal list" where
  "call_records tid tel = filter (call_record tid) (out tel)"

lemma call_records_logs: "call_records tid tel = filter (call_record tid) (logs tel)"
  by (auto simp: call_records_def logs_def call_record_def intro: filter_cong)

lemma call_records_appended:
  "out tel' = out tel @ sigs \<Longrightarrow> list_all (\<lambda>s. \<not> call_record tid s) sigs \<Longrightarrow> call_records tid tel' = call_records tid tel"
  by (simp add: call_records_def list_all_iff filter_empty_conv)

lemma call_records_spans:
  "call_records tid (start_span e n attrs tel) = call_records tid tel"
  "call_records tid (end_span e n attrs err tel) = call_records tid tel"
  by (rule call_records_appended, simp add: start_span_def end_span_def fold_send_out, simp add: list_all_iff call_record_def is_log_def)+

lemma call_records_gauge: "call_records tid (snd (gauge m e n v attrs tel)) = call_records tid tel"
proof -
  obtain r tel' where g: "gauge m e n v attrs tel = (r, tel')" by (rule prod.exhaust)
  from gauge_sub [OF g] show ?thesis
    by (auto simp: g list_all_iff call_record_def is_log_def intro: call_records_appended)
qed

lemma call_records_counter: "call_records tid (snd (counter m e n v attrs tel)) = call_records tid tel"
proof -
  obtain r tel' where c: "counter m e n v attrs tel = (r, tel')" by (rule prod.exhaust)
  from counter_sub [OF c] show ?thesis
    by (auto simp: c list_all_iff call_record_def is_log_def intro: call_records_appended)
qed

lemma call_records_log:
  assumes "\<And>base. base \<in> set (scoped e) \<Longrightarrow> \<not> call_record tid (LogRecord body ts (Attr AttrEventName event # base @ attrs))"
  shows "call_records tid (snd (log_event e event body ts attrs tel)) = call_records tid tel"
proof -
  obtain r tel' where l: "log_event e event body ts attrs tel = (r, tel')" by (rule prod.exhaust)
  from log_event_sub [OF l] obtain cs where "subseq cs (scoped e)"
    "out tel' = out tel @ map (\<lambda>base. LogRecord body ts (Attr AttrEventName event # base @ attrs)) cs" by blast
  moreover have "set cs \<subseteq> set (scoped e)" using calculation(1) by (auto dest: list_emb_set)
  moreover have "list_all (\<lambda>s. \<not> call_record tid s) (map (\<lambda>base. LogRecord body ts (Attr AttrEventName event # base @ attrs)) cs)"
    unfolding list_all_iff set_map using assms calculation(3) by blast
  ultimately show ?thesis by (auto simp: l intro: call_records_appended)
qed

text \<open>
  The collectors of other kinds log other events; the call-record collectors of other tenants log under the identifier of
  their own.
\<close>

definition base_tenant :: "attr list \<Rightarrow> string option" where
  "base_tenant b = map_option attr_value (find (\<lambda>a. attr_key a = AttrTenantID) b)"

definition foreign :: "string \<Rightarrow> emitter \<Rightarrow> bool" where
  "foreign tid e \<longleftrightarrow> list_all (\<lambda>b. base_tenant b \<noteq> None \<and> base_tenant b \<noteq> Some tid) (scoped e)"

lemma find_append: "find P (xs @ ys) = (case find P xs of None \<Rightarrow> find P ys | Some x \<Rightarrow> Some x)"
  by (induction xs) auto

interpretation other_events: signal_relation
    "\<lambda>t t'. call_records tid t' = call_records tid t" "\<lambda>_. True" "\<lambda>event. event \<noteq> EventLensCDR" for tid
  by unfold_locales (auto simp: call_records_gauge call_records_counter call_record_def signal_attr_def intro!: call_records_log)

interpretation other_tenants: emission
    "\<lambda>t t'. call_records tid t' = call_records tid t" "foreign tid" "\<lambda>_. True" for tid
proof unfold_locales
  fix e event body ts attrs t
  assume f: "foreign tid e"
  have "\<not> call_record tid (LogRecord body ts (Attr AttrEventName event # base @ attrs))" if "base \<in> set (scoped e)" for base
    using f that by (auto simp: foreign_def list_all_iff base_tenant_def call_record_def signal_attr_def find_append split: option.splits)
  then show "call_records tid (snd (log_event e event body ts attrs t)) = call_records tid t" by (rule call_records_log)
qed (auto simp: call_records_gauge call_records_counter)

lemma tenant_emitter_scope: "\<not> blank tid \<Longrightarrow> scoped (with_tenant tid (TenantEmitter [] scope)) = [[Attr AttrTenantID tid]]"
  by (simp add: blank_def otel_with_tenant_def)

lemma own_row_logs:
  assumes "\<not> blank tid"
  shows "filter (call_record tid) (row_logs env (with_tenant tid (TenantEmitter [] scope)) row) = row_logs env (with_tenant tid (TenantEmitter [] scope)) row"
  unfolding row_logs_def tenant_emitter_scope [OF assms]
  by (auto simp: call_record_def signal_attr_def is_log_def split: option.splits)

section \<open>A run that succeeds\<close>

lemma collect_success:
  assumes "collect env fse (Some q) m c em tel w f = Some (None, tel', w', f')" "loadWatermark env fse c f = Inr wm"
    and "fs_err fse (ReadFile (watermarkPath env c)) = None" "\<And>rows. serves q (tenantID c) None w rows w' \<Longrightarrow> good_rows rows"
  shows "\<exists>rows. serves q (tenantID c) None w rows w' \<and>
    logs tel' = logs tel @ concat (map (row_logs env (with_tenant (tenantID c) em)) (selected_run wm rows)) \<and>
    loadWatermark env fse c f' = Inr (fold advance_row (selected_run wm rows) wm)"
proof -
  let ?st = "\<lparr>run_wm = wm, run_seen = set (Keys wm), run_tel = tel, run_net = w\<rparr>" and ?em = "with_tenant (tenantID c) em"
  from assms(1,2) obtain st fs where l: "cdr_loop env q m ?em (tenantID c) wm None ?st = Some (None, st)"
    and s: "saveWatermark env fse c (run_wm st) f = (None, fs)" and e: "tel' = run_tel st" "w' = run_net st" "f' = last fs"
    by (auto simp: collect_def Let_def split: option.splits prod.splits)
  from cdr_loop_finite [OF l] cdr_loop_success_serves obtain rows where v: "serves q (tenantID c) None w rows w'"
    unfolding e by (metis cdr_run.select_convs(4))
  with assms(4) have "\<forall>row \<in> set rows. nonzero_row row" by (auto simp: good_rows_def list_all_iff)
  from cdr_loop_serves [OF v this, of ?st env m ?em wm] l obtain tel'' where
    "st = processed (wm_mark wm) rows tel'' w' ?st"
    "logs tel'' = logs tel @ concat (map (row_logs env ?em) (selected_run wm rows))"
    by (auto simp: selected_run_def)
  moreover from this have "run_wm st = fold advance_row (selected_run wm rows) wm" "tel' = tel''"
    unfolding e(1) by (simp_all add: processed_def selected_run_def)
  ultimately show ?thesis using v load_after_save [OF s assms(3)] e(3) by auto
qed

section \<open>The runs of one tenant\<close>

definition after_runs :: "watermark \<Rightarrow> cdr list list \<Rightarrow> watermark" where
  "after_runs wm batches = fold (\<lambda>rows wm. fold advance_row (selected_run wm rows) wm) batches wm"

lemma history_snoc: "history wm (batches @ [rows]) = history wm batches @ selected_run (after_runs wm batches) rows"
  by (induction batches arbitrary: wm) (simp_all add: after_runs_def)

text \<open>The collector of the \<open>k\<close>-th tenant comes after the three polling collectors.\<close>

lemma nth_registry:
  assumes "k < length (lens_Tenants (cfg_Lens cfg))"
  shows "main_registry pe cfg (Some (env, lc)) ts ! (3 + k) = cdr_entry pe env lc cfg (lens_Tenants (cfg_Lens cfg) ! k)"
    "3 + k < length (main_registry pe cfg (Some (env, lc)) ts)"
proof -
  have "length (lens_entries pe env lc (Some cfg)) = 3" by (simp add: lens_entry_defs lens_collectors_def Let_def)
  with assms show "main_registry pe cfg (Some (env, lc)) ts ! (3 + k) = cdr_entry pe env lc cfg (lens_Tenants (cfg_Lens cfg) ! k)"
    "3 + k < length (main_registry pe cfg (Some (env, lc)) ts)"
    by (simp_all add: main_registry_eq nth_append)
qed

lemma other_entry:
  assumes "i < length (main_registry pe cfg (Some (env, lc)) ts)" "i \<noteq> 3 + k" "distinct (lens_Tenants (cfg_Lens cfg))"
    "k < length (lens_Tenants (cfg_Lens cfg))"
  obtains (lens) "main_registry pe cfg (Some (env, lc)) ts ! i \<in> set (lens_entries pe env lc (Some cfg))"
  | (cdr) tid where "main_registry pe cfg (Some (env, lc)) ts ! i = cdr_entry pe env lc cfg tid"
      "tid \<in> set (lens_Tenants (cfg_Lens cfg))" "tid \<noteq> lens_Tenants (cfg_Lens cfg) ! k"
  | (phone) "main_registry pe cfg (Some (env, lc)) ts ! i \<in> set (phone_entries pe cfg ts)" "ts \<noteq> []"
  | (self) "main_registry pe cfg (Some (env, lc)) ts ! i = selfobs_entry pe (Some cfg)"
proof -
  let ?cs = "main_registry pe cfg (Some (env, lc)) ts" and ?tids = "lens_Tenants (cfg_Lens cfg)"
  have l: "length (lens_entries pe env lc (Some cfg)) = 3" by (simp add: lens_entry_defs lens_collectors_def Let_def)
  consider "i < 3" | j where "i = 3 + j" "j < length ?tids" | "i \<ge> 3 + length ?tids"
    by (metis le_Suc_ex nat_add_left_cancel_less not_less)
  then show thesis
  proof cases
    case 1
    then have "?cs ! i = lens_entries pe env lc (Some cfg) ! i" using l by (simp add: main_registry_eq nth_append)
    with 1 l show thesis using lens by simp
  next
    case 2
    then have "?tids ! j \<noteq> ?tids ! k" using assms(2-4) by (simp add: nth_eq_iff_index_eq)
    from cdr [OF _ nth_mem [OF 2(2)] this] show thesis unfolding 2(1) by (simp only: nth_registry(1) [OF 2(2)])
  next
    case 3
    let ?rest = "(if phone_Enabled (cfg_Phone cfg) \<and> ts \<noteq> [] then phone_entries pe cfg ts else []) @ [selfobs_entry pe (Some cfg)]"
    let ?front = "lens_entries pe env lc (Some cfg) @ map (cdr_entry pe env lc cfg) ?tids"
    have cs: "?cs = ?front @ ?rest" by (simp add: main_registry_eq)
    have f: "length ?front = 3 + length ?tids" using l by simp
    have "?cs ! i = ?rest ! (i - length ?front)" "i - length ?front < length ?rest"
      using 3 assms(1) f unfolding cs nth_append by auto
    then have "?cs ! i \<in> set ?rest" by (metis nth_mem)
    then show thesis using phone self by (auto split: if_splits)
  qed
qed

text \<open>What a step leaves as it is for the tenant: its records and its watermark file \<open>p\<close>.\<close>

definition same_records :: "string \<Rightarrow> path \<Rightarrow> ('l, 'p) world phone_run \<Rightarrow> ('l, 'p) world phone_run \<Rightarrow> bool" where
  "same_records tid p s s' \<longleftrightarrow> call_records tid (fst s') = call_records tid (fst s) \<and> wd_files (snd s') p = wd_files (snd s) p"

text \<open>The outcomes of the runs of a collector, the one that is being reported included.\<close>

definition reporting :: "phase \<Rightarrow> outcome list" where
  "reporting ph = (case ph of Reporting _ _ res \<Rightarrow> [res] | _ \<Rightarrow> [])"

definition runs_of :: "nat \<Rightarrow> 'w sched \<Rightarrow> outcome list" where
  "runs_of i st = map snd (filter (\<lambda>r. fst r = i) (sc_finished st)) @ reporting (sc_phases st ! i)"

lemma loop_step_records:
  assumes "loop_step m now em c cancelled ph s ph' s' h" "\<And>w. wd_files (snd (now w)) p = wd_files w p"
  shows "h @ reporting ph' = reporting ph \<and> same_records tid p s s' \<or>
    (\<exists>res. Collect c em s = Some (res, s') \<and> h @ reporting ph' = reporting ph @ [res])"
proof -
  have n: "wd_files w' p = wd_files w p" if "now w = (t, w')" for w t w' using assms(2) [of w] that by simp
  have b: "same_records tid p s s'" if "run_begin now em c s = (t, s')" for t
    using that by (auto simp: run_begin_def same_records_def call_records_spans split: prod.splits dest: n)
  have r: "same_records tid p s s'" if "run_report m now em c t res s = (e, s')" for t res e
    using that by (auto simp: run_report_def Let_def same_records_def call_records_spans call_records_gauge split: prod.splits dest: n)
  show ?thesis
    using assms(1)
  proof cases
    case (report_run t res err b)
    from r [OF report_run(4)] report_run show ?thesis by (simp add: reporting_def)
  qed (auto simp: reporting_def dest: b, simp_all add: same_records_def)
qed

lemma watermark_of_tenant:
  "watermarkPath env (c\<lparr>interval := i\<rparr>) = watermarkPath env c"
  "loadWatermark env fse (c\<lparr>interval := i\<rparr>) = loadWatermark env fse c"
  by (simp_all add: fun_eq_iff watermarkPath_def watermark_dir_def watermark_name_def loadWatermark_def)

lemma load_same_file:
  "f' (watermarkPath env c) = f (watermarkPath env c) \<Longrightarrow> loadWatermark env fse c f' = loadWatermark env fse c f"
  by (simp add: loadWatermark_def read_doc_def)

text \<open>In every state of the world Lens answers rows with start times that can be logged and printed; and rows that it answers in some state.\<close>

definition good_answers :: "'w query_client \<Rightarrow> string \<Rightarrow> bool" where
  "good_answers q tid \<longleftrightarrow> (\<forall>w rows w'. serves q tid None w rows w' \<longrightarrow> good_rows rows)"

definition served :: "'w query_client \<Rightarrow> string \<Rightarrow> cdr list \<Rightarrow> bool" where
  "served q tid rows \<longleftrightarrow> (\<exists>w w'. serves q tid None w rows w')"

lemma own_run:
  fixes pe :: "('l, 'p) prog_env"
  assumes "Collect (cdr_entry pe env lc cfg tid) (TenantEmitter [] scope) s = Some (res, s')" "succeeded res" "\<not> blank tid"
    and "loadWatermark (pe_cdr pe) (pe_files pe) (cdr_New (cfg_StateDir cfg) tid) (wd_files (snd s)) = Inr wm"
    and "fs_err (pe_files pe) (ReadFile (watermarkPath (pe_cdr pe) (cdr_New (cfg_StateDir cfg) tid))) = None"
    and "good_answers (world_query env lc :: ('l, 'p) world query_client) tid"
  obtains rows w where "serves (world_query env lc) tid None (snd s) rows w"
    "call_records tid (fst s') = call_records tid (fst s) @
       concat (map (row_logs (pe_cdr pe) (with_tenant tid (TenantEmitter [] scope))) (selected_run wm rows))"
    "loadWatermark (pe_cdr pe) (pe_files pe) (cdr_New (cfg_StateDir cfg) tid) (wd_files (snd s')) =
       Inr (fold advance_row (selected_run wm rows) wm)"
proof -
  let ?c = "(cdr_New (cfg_StateDir cfg) tid)\<lparr>interval := iv_LensCDR (cfg_Collectors cfg)\<rparr>" and ?em = "TenantEmitter [] scope"
  have t: "tenantID ?c = tid" by (simp add: cdr_New_def)
  from assms(1,2) obtain tel w f where
    c: "collect (pe_cdr pe) (pe_files pe) (Some (world_query env lc)) (pe_meter pe) ?c ?em (fst s) (snd s) (wd_files (snd s)) = Some (None, tel, w, f)"
    and s': "s' = (tel, w\<lparr>wd_files := f\<rparr>)"
    by (auto simp: cdr_entry_defs Let_def succeeded_def split: option.splits)
  obtain rows where "serves (world_query env lc) tid None (snd s) rows w"
    and l: "logs tel = logs (fst s) @ concat (map (row_logs (pe_cdr pe) (with_tenant tid ?em)) (selected_run wm rows))"
    and "loadWatermark (pe_cdr pe) (pe_files pe) (cdr_New (cfg_StateDir cfg) tid) f = Inr (fold advance_row (selected_run wm rows) wm)"
    using collect_success [OF c, unfolded watermark_of_tenant t, OF assms(4,5)] assms(6) unfolding good_answers_def by blast
  moreover have "filter (call_record tid) (concat (map (row_logs (pe_cdr pe) (with_tenant tid ?em)) rs)) =
      concat (map (row_logs (pe_cdr pe) (with_tenant tid ?em)) rs)" for rs
    by (induction rs) (simp_all add: own_row_logs [OF assms(3)] del: with_tenant.simps)
  ultimately show thesis using that by (simp add: s' call_records_logs)
qed

lemma other_run:
  assumes "i < length (main_registry pe cfg (Some (env, lc)) ts)" "i \<noteq> 3 + k" "k < length (lens_Tenants (cfg_Lens cfg))"
    and "distinct (lens_Tenants (cfg_Lens cfg))" "\<forall>t \<in> set (lens_Tenants (cfg_Lens cfg)). \<not> blank t"
    and "inj_on (sha256hex (pe_cdr pe)) (set (lens_Tenants (cfg_Lens cfg)))"
    and "\<forall>tgt \<in> set ts. \<exists>api. tgt_API tgt = world_phone_api api"
    and "\<And>w p. wd_files (snd (pe_now pe w)) p = wd_files w p"
    and "Collect (main_registry pe cfg (Some (env, lc)) ts ! i) (TenantEmitter [] scope) s = Some (res, s')"
  shows "same_records (lens_Tenants (cfg_Lens cfg) ! k)
    (watermarkPath (pe_cdr pe) (cdr_New (cfg_StateDir cfg) (lens_Tenants (cfg_Lens cfg) ! k))) s s'"
proof -
  let ?tid = "lens_Tenants (cfg_Lens cfg) ! k"
  let ?c = "cdr_New (cfg_StateDir cfg) ?tid"
  have p: "watermarkPath (pe_cdr pe) ?c = watermark_dir ?c @ [sha256hex (pe_cdr pe) ?tid @ ''.json'']"
    by (simp add: watermarkPath_def watermark_name_def cdr_New_def)
  from assms(1,2,4,3) show ?thesis
  proof (cases rule: other_entry)
    case lens
    with assms(9) other_events.lens_entries_keep [OF TrueI lens assms(9)] lens_entries_file [OF assms(8) lens assms(9)]
    show ?thesis by (simp add: same_records_def)
  next
    case (cdr tid)
    from cdr(2) assms(5) have "scoped (with_tenant tid (TenantEmitter [] scope)) = [[Attr AttrTenantID tid]]"
      by (intro tenant_emitter_scope) blast
    with cdr(3) have f: "foreign ?tid (with_tenant tid (TenantEmitter [] scope))" by (simp add: foreign_def base_tenant_def)
    have "sha256hex (pe_cdr pe) ?tid \<noteq> sha256hex (pe_cdr pe) tid"
      using assms(6) cdr(2,3) nth_mem [OF assms(3)] by (metis inj_onD)
    then have "watermarkPath (pe_cdr pe) ?c \<noteq> watermarkPath (pe_cdr pe) (cdr_New (cfg_StateDir cfg) tid)"
      by (simp add: watermarkPath_def watermark_name_def cdr_New_def)
    from cdr_entry_file [OF this] other_tenants.cdr_entry_keeps [OF f TrueI] assms(9) cdr(1) show ?thesis
      by (simp add: same_records_def)
  next
    case phone
    have w: "\<forall>tgt \<in> set ts. state_file.phone_within (watermark_dir ?c @ [sha256hex (pe_cdr pe) ?tid @ ''.json'']) (tgt_API tgt)"
      using assms(7) by (auto simp: state_file.phone_within_def world_phone_api_def on_wire_def split: prod.splits)
    have "callLogsID \<noteq> collectorID" by code_simp
    then have "watermark_dir ?c \<noteq> call_log_dir (NewCallLogs ts)" by (simp add: watermark_dir_def call_log_dir_def)
    from phone_entries_file [OF w this phone(1) assms(9)] other_events.phone_entries_keep [OF TrueI _ phone(1) assms(9)]
    show ?thesis unfolding same_records_def p by simp
  next
    case self
    with assms(9) selfobs_entry_file other_events.selfobs_entry_keeps [OF TrueI] show ?thesis by (simp add: same_records_def) blast
  qed
qed

section \<open>All interleavings\<close>

text \<open>
  The invariant: as long as no run of the tenant's collector has failed, its records are those of the history of one batch per
  run, each one a list of rows that Lens served, and its watermark is the one after them.
\<close>

definition records_inv :: "('l, 'p) prog_env \<Rightarrow> config \<Rightarrow> 'l lens_env \<Rightarrow> lens_config \<Rightarrow> string list \<Rightarrow> nat \<Rightarrow> watermark \<Rightarrow>
    signal list \<Rightarrow> ('l, 'p) world sched \<Rightarrow> bool" where
  "records_inv pe cfg env lc scope k wm before st \<longleftrightarrow>
     (let tid = lens_Tenants (cfg_Lens cfg) ! k in
      list_all succeeded (runs_of (3 + k) st) \<longrightarrow>
      (\<exists>batches. length batches = length (runs_of (3 + k) st) \<and>
         list_all (served (world_query env lc :: ('l, 'p) world query_client) tid) batches \<and>
         call_records tid (fst (sc_run st)) = before @
           concat (map (row_logs (pe_cdr pe) (with_tenant tid (TenantEmitter [] scope))) (history wm batches)) \<and>
         loadWatermark (pe_cdr pe) (pe_files pe) (cdr_New (cfg_StateDir cfg) tid) (wd_files (snd (sc_run st))) = Inr (after_runs wm batches)))"

lemma records_inv_same:
  assumes "records_inv pe cfg env lc scope k wm before st" "runs_of (3 + k) st' = runs_of (3 + k) st"
    "same_records (lens_Tenants (cfg_Lens cfg) ! k)
       (watermarkPath (pe_cdr pe) (cdr_New (cfg_StateDir cfg) (lens_Tenants (cfg_Lens cfg) ! k))) (sc_run st) (sc_run st')"
  shows "records_inv pe cfg env lc scope k wm before st'"
proof -
  let ?c = "cdr_New (cfg_StateDir cfg) (lens_Tenants (cfg_Lens cfg) ! k)"
  have "loadWatermark (pe_cdr pe) (pe_files pe) ?c (wd_files (snd (sc_run st'))) = loadWatermark (pe_cdr pe) (pe_files pe) ?c (wd_files (snd (sc_run st)))"
    by (rule load_same_file) (use assms(3) in \<open>simp add: same_records_def\<close>)
  with assms show ?thesis unfolding records_inv_def same_records_def by simp
qed

lemma records_inv_run:
  fixes pe :: "('l, 'p) prog_env"
  assumes "records_inv pe cfg env lc scope k wm before st" "runs_of (3 + k) st' = runs_of (3 + k) st @ [res]"
    and "Collect (cdr_entry pe env lc cfg (lens_Tenants (cfg_Lens cfg) ! k)) (TenantEmitter [] scope) (sc_run st) = Some (res, sc_run st')"
    and "\<not> blank (lens_Tenants (cfg_Lens cfg) ! k)"
    and "fs_err (pe_files pe) (ReadFile (watermarkPath (pe_cdr pe) (cdr_New (cfg_StateDir cfg) (lens_Tenants (cfg_Lens cfg) ! k)))) = None"
    and "good_answers (world_query env lc :: ('l, 'p) world query_client) (lens_Tenants (cfg_Lens cfg) ! k)"
  shows "records_inv pe cfg env lc scope k wm before st'"
proof -
  let ?tid = "lens_Tenants (cfg_Lens cfg) ! k"
  let ?c = "cdr_New (cfg_StateDir cfg) ?tid" and ?em = "with_tenant ?tid (TenantEmitter [] scope)"
  have "\<exists>batches. length batches = length (runs_of (3 + k) st') \<and>
      list_all (served (world_query env lc :: ('l, 'p) world query_client) ?tid) batches \<and>
      call_records ?tid (fst (sc_run st')) = before @ concat (map (row_logs (pe_cdr pe) ?em) (history wm batches)) \<and>
      loadWatermark (pe_cdr pe) (pe_files pe) ?c (wd_files (snd (sc_run st'))) = Inr (after_runs wm batches)"
    if ok: "list_all succeeded (runs_of (3 + k) st')"
  proof -
    from ok assms(1,2) obtain batches where b: "length batches = length (runs_of (3 + k) st)"
      "list_all (served (world_query env lc :: ('l, 'p) world query_client) ?tid) batches"
      "call_records ?tid (fst (sc_run st)) = before @ concat (map (row_logs (pe_cdr pe) ?em) (history wm batches))"
      and l: "loadWatermark (pe_cdr pe) (pe_files pe) ?c (wd_files (snd (sc_run st))) = Inr (after_runs wm batches)"
      unfolding records_inv_def Let_def by auto
    have "succeeded res" using ok assms(2) by simp
    from own_run [OF assms(3) this assms(4) l assms(5,6)] obtain rows w where
      "serves (world_query env lc) ?tid None (snd (sc_run st)) rows w"
      "call_records ?tid (fst (sc_run st')) = call_records ?tid (fst (sc_run st)) @
         concat (map (row_logs (pe_cdr pe) ?em) (selected_run (after_runs wm batches) rows))"
      "loadWatermark (pe_cdr pe) (pe_files pe) ?c (wd_files (snd (sc_run st'))) =
         Inr (fold advance_row (selected_run (after_runs wm batches) rows) (after_runs wm batches))" by blast
    then show ?thesis
      using b assms(2) by (intro exI [of _ "batches @ [rows]"]) (auto simp: history_snoc after_runs_def served_def)
  qed
  then show ?thesis unfolding records_inv_def Let_def by blast
qed

lemma runs_of_init: "i < length cs \<Longrightarrow> runs_of i (sched_init (Entries cs) s) = []"
  by (simp add: runs_of_def sched_init_def reporting_def Entries_def)

lemma runs_of_goroutine:
  assumes "j < length (sc_phases st)"
  shows "runs_of i (st\<lparr>sc_phases := (sc_phases st)[j := ph], sc_run := s', sc_finished := sc_finished st @ map (Pair j) h\<rparr>) =
    (if i = j then map snd (filter (\<lambda>r. fst r = i) (sc_finished st)) @ h @ reporting ph else runs_of i st)"
  using assms by (auto simp: runs_of_def filter_map comp_def)

text \<open>One collector per tenant, each with a file of its own.\<close>

definition separate_tenants :: "cdr_env \<Rightarrow> string list \<Rightarrow> bool" where
  "separate_tenants env tids \<longleftrightarrow> distinct (map (sha256hex env) tids) \<and> list_all (\<lambda>t. \<not> blank t) tids"

lemma records_inv_step:
  fixes pe :: "('l, 'p) prog_env"
  assumes "sched_step (pe_meter pe) (pe_now pe) (TenantEmitter [] scope) (main_registry pe cfg (Some (env, lc)) ts) st st'"
    and "length (sc_phases st) = length (main_registry pe cfg (Some (env, lc)) ts)" "records_inv pe cfg env lc scope k wm before st"
    and "k < length (lens_Tenants (cfg_Lens cfg))" "separate_tenants (pe_cdr pe) (lens_Tenants (cfg_Lens cfg))"
    and "\<forall>tgt \<in> set ts. \<exists>api. tgt_API tgt = world_phone_api api" "\<And>w p. wd_files (snd (pe_now pe w)) p = wd_files w p"
    and "fs_err (pe_files pe) (ReadFile (watermarkPath (pe_cdr pe) (cdr_New (cfg_StateDir cfg) (lens_Tenants (cfg_Lens cfg) ! k)))) = None"
    and "good_answers (world_query env lc :: ('l, 'p) world query_client) (lens_Tenants (cfg_Lens cfg) ! k)"
  shows "length (sc_phases st') = length (main_registry pe cfg (Some (env, lc)) ts) \<and> records_inv pe cfg env lc scope k wm before st'"
  using assms(1)
proof cases
  case (goroutine j ph s' h)
  let ?tid = "lens_Tenants (cfg_Lens cfg) ! k" and ?cs = "main_registry pe cfg (Some (env, lc)) ts" and ?em = "TenantEmitter [] scope"
  let ?c = "cdr_New (cfg_StateDir cfg) ?tid"
  have t: "distinct (lens_Tenants (cfg_Lens cfg))" "\<forall>t \<in> set (lens_Tenants (cfg_Lens cfg)). \<not> blank t"
    "inj_on (sha256hex (pe_cdr pe)) (set (lens_Tenants (cfg_Lens cfg)))"
    using assms(5) by (auto simp: separate_tenants_def distinct_map list_all_iff)
  note runs = runs_of_goroutine [where i = "3 + k" and ph = ph and s' = s' and h = h, folded goroutine(1)]
  have j: "j < length (sc_phases st)" using goroutine(2) assms(2) by simp
  have same: "same_records ?tid (watermarkPath (pe_cdr pe) ?c) (sc_run st) (sc_run st') \<and> runs_of (3 + k) st' = runs_of (3 + k) st \<or>
      (\<exists>res. j = 3 + k \<and> Collect (?cs ! j) ?em (sc_run st) = Some (res, s') \<and> runs_of (3 + k) st' = runs_of (3 + k) st @ [res])"
  proof (cases "j = 3 + k")
    case True
    with loop_step_records [OF goroutine(4) assms(7), of ?tid "watermarkPath (pe_cdr pe) ?c"] runs [OF j] show ?thesis
      by (auto simp: goroutine(1) runs_of_def)
  next
    case False
    have "same_records ?tid (watermarkPath (pe_cdr pe) ?c) (sc_run st) s'"
      using loop_step_records [OF goroutine(4) assms(7), of ?tid "watermarkPath (pe_cdr pe) ?c"]
        other_run [OF goroutine(2) False assms(4) t assms(6,7)] by blast
    with False runs [OF j] show ?thesis by (simp add: goroutine(1))
  qed
  have "records_inv pe cfg env lc scope k wm before st'"
    using same
  proof (elim disjE exE conjE)
    assume "same_records ?tid (watermarkPath (pe_cdr pe) ?c) (sc_run st) (sc_run st')" "runs_of (3 + k) st' = runs_of (3 + k) st"
    with records_inv_same [OF assms(3)] show ?thesis by blast
  next
    fix res
    assume "j = 3 + k" "Collect (?cs ! j) ?em (sc_run st) = Some (res, s')" and r: "runs_of (3 + k) st' = runs_of (3 + k) st @ [res]"
    then have c: "Collect (cdr_entry pe env lc cfg ?tid) ?em (sc_run st) = Some (res, sc_run st')"
      by (simp add: nth_registry(1) [OF assms(4)] goroutine(1))
    have "\<not> blank ?tid" using t(2) nth_mem [OF assms(4)] by blast
    from records_inv_run [OF assms(3) r c this assms(8,9)] show ?thesis .
  qed
  with assms(2) show ?thesis by (simp add: goroutine(1))
next
  case cancel
  then have "same_records tid p (sc_run st) (sc_run st')" "runs_of (3 + k) st' = runs_of (3 + k) st" for tid p
    by (simp_all add: same_records_def runs_of_def)
  from records_inv_same [OF assms(3) this(2) this(1)] assms(2) cancel show ?thesis by simp
qed

section \<open>The started program\<close>

lemma started_program_parts:
  assumes "run_startup me args s0 = Some (Inr up, s)"
  obtains scope where "up_emitter up = TenantEmitter [] scope"
    "up_registry up = main_registry (me_prog me) (up_cfg up) (up_lens up) (up_targets up)"
proof -
  obtain cfg p k s1 where r: "run_runtime me cfg p k s1 = Some (Inr up, s)"
    and n: "NewProviders (me_sdk me) (main_providers (pe_version (me_prog me)) cfg) new_sdk = (Inr p, k)"
    using assms by (rule run_startup_Inr)
  from r obtain tids where "up_emitter up = set_tenants tids (new_tenant_emitter (p_Emitter p) (lens_Tenants (cfg_Lens cfg)))"
    "up_registry up = main_registry (me_prog me) (up_cfg up) (up_lens up) (up_targets up)"
    by (rule run_runtime_Inr)
  moreover have "p_Emitter p = []" using n by (rule NewProviders_Inr)
  ultimately show thesis using that by (simp add: set_tenants_def new_tenant_emitter_def)
qed

lemma world_client: "world_NewClient nets dg ccfg em = Inr a \<Longrightarrow> \<exists>api. a = world_phone_api api"
  by (auto simp: world_NewClient_def split: sum.splits)

lemma started_targets_on_wire:
  assumes "run_startup me args s0 = Some (Inr up, s)" "me_NewClient me = world_NewClient nets dg"
  shows "\<forall>tgt \<in> set (up_targets up). \<exists>api. tgt_API tgt = world_phone_api api"
proof -
  obtain cfg p k s1 where "run_runtime me cfg p k s1 = Some (Inr up, s)" using assms(1) by (rule run_startup_Inr)
  then obtain ds w s2 where
    "resolvePhoneTargets (pe_meter (me_prog me)) (me_NewClient me) (up_cfg up) (up_lens up) (up_emitter up) ds (fst s1, w) = (Inr (up_targets up), s2)"
    by (rule run_runtime_Inr)
  then consider "up_targets up = []"
    | m rc policy em s3 rs where "Resolve m rc (me_NewClient me) policy em ds s3 = (Inr rs, s2)" "up_targets up = map (collector_target (up_cfg up)) rs"
    by (auto simp: resolvePhoneTargets_def Let_def split: prod.splits sum.splits if_splits)
  then show ?thesis
  proof cases
    case 2
    have "\<exists>api. pt_API r = world_phone_api api" if "r \<in> set rs" for r
    proof -
      from Resolve_built [OF 2(1)] that obtain d where "built_from rc (me_NewClient me) policy d r"
        by (auto simp: list_all2_conv_all_nth in_set_conv_nth)
      then show ?thesis
        using world_client by (auto simp: built_from_def assms(2))
    qed
    then show ?thesis by (auto simp: 2(2) collector_target_def Let_def)
  qed simp
qed

text \<open>
  C1 (call records of a running program). Consider a started program with Lens and any interleaving of its collectors - the polling
  ones, those of the phones and the call-record collectors of all tenants - up to any moment, in which no run of the call-record
  collector of tenant \<open>tid\<close> has failed; runs of the others may have failed or panicked. If every tenant has a watermark file
  of its own, the clock does not write files, the watermark of \<open>tid\<close> was readable and well-formed at the start and Lens
  answers printable start times, then the call records handed to the SDK for \<open>tid\<close> since the start are those of one batch of rows
  served by Lens per run, each record in the tenant's name, and no two of them have one device and start time.
\<close>

theorem started_program_call_records:
  fixes me :: "('k, 'l, 'q wire) main_env"
  assumes "run_startup me args s0 = Some (Inr up, s)" "me_NewClient me = world_NewClient nets dg" "up_lens up = Some (env, lc)"
    and "k < length (lens_Tenants (cfg_Lens (up_cfg up)))" "tid = lens_Tenants (cfg_Lens (up_cfg up)) ! k"
    and "separate_tenants (pe_cdr (me_prog me)) (lens_Tenants (cfg_Lens (up_cfg up)))"
    and "\<And>w p. wd_files (snd (pe_now (me_prog me) w)) p = wd_files w p"
    and "good_answers (world_query env lc :: ('l, 'q wire) world query_client) tid"
    and "fs_err (pe_files (me_prog me)) (ReadFile (watermarkPath (pe_cdr (me_prog me)) (cdr_New (cfg_StateDir (up_cfg up)) tid))) = None"
    and "loadWatermark (pe_cdr (me_prog me)) (pe_files (me_prog me)) (cdr_New (cfg_StateDir (up_cfg up)) tid) (wd_files (snd s)) = Inr wm" "wm_ok wm"
    and "sched_reach (pe_meter (me_prog me)) (pe_now (me_prog me)) (up_emitter up) (up_registry up) s st"
    and "list_all succeeded (runs_of (3 + k) st)"
  shows "\<exists>batches. length batches = length (runs_of (3 + k) st) \<and>
    list_all (served (world_query env lc :: ('l, 'q wire) world query_client) tid) batches \<and>
    call_records tid (fst (sc_run st)) = call_records tid (fst s) @
      concat (map (row_logs (pe_cdr (me_prog me)) (with_tenant tid (up_emitter up))) (history wm batches)) \<and>
    distinct (map row_key (history wm batches))"
proof -
  let ?pe = "me_prog me" and ?cfg = "up_cfg up"
  obtain scope where em: "up_emitter up = TenantEmitter [] scope"
    and rg: "up_registry up = main_registry ?pe ?cfg (Some (env, lc)) (up_targets up)"
    using started_program_parts [OF assms(1)] assms(3) by metis
  note tg = started_targets_on_wire [OF assms(1,2)]
  have "length (sc_phases st) = length (up_registry up) \<and> records_inv ?pe ?cfg env lc scope k wm (call_records tid (fst s)) st"
    using assms(12) unfolding em rg
  proof (induction rule: rtranclp_induct)
    case base
    have "records_inv ?pe ?cfg env lc scope k wm (call_records tid (fst s)) (sched_init (Entries (up_registry up)) s)"
      using assms(10) unfolding records_inv_def Let_def rg runs_of_init [OF nth_registry(2) [OF assms(4)]]
      by (intro impI exI [of _ "[]"]) (simp add: sched_init_def after_runs_def assms(5))
    then show ?case by (simp add: rg sched_init_def Entries_def)
  next
    case (step y z)
    from records_inv_step [OF step(2) conjunct1 [OF step(3)] conjunct2 [OF step(3)] assms(4,6) tg assms(7) assms(9,8) [unfolded assms(5)]]
    show ?case .
  qed
  then obtain batches where b: "length batches = length (runs_of (3 + k) st)"
    "list_all (served (world_query env lc :: ('l, 'q wire) world query_client) tid) batches"
    "call_records tid (fst (sc_run st)) = call_records tid (fst s) @
      concat (map (row_logs (pe_cdr ?pe) (with_tenant tid (up_emitter up))) (history wm batches))"
    using assms(13) unfolding records_inv_def Let_def em assms(5) by blast
  moreover have "list_all good_rows batches"
    using b(2) assms(8) by (auto simp: list_all_iff served_def good_answers_def)
  ultimately show ?thesis using distinct_history [OF assms(11)] by blast
qed

section \<open>Example values\<close>

text \<open>An account with one tenant, whose device listing and call records are in one answer.\<close>

definition ex_account :: json where
  "ex_account = JObj
     [(''tenant'', JObj [(''inventory'', JObj [(''deviceSearch'', JObj [(''pageInfo'', JObj [(''hasNextPage'', JBool False)]), (''edges'', JArr [])])])]),
      (''meetingRecordLists'', JObj [(''pageInfo'', JObj [(''hasNextPage'', JBool False)]), (''edges'', JArr (map (\<lambda>r. JObj [(''node'', cdr_json r)]) ex_rows))])]"

definition ex_account_cfg :: config where
  "ex_account_cfg = ex_config
     \<lparr>cfg_Lens := (cfg_Lens ex_config)\<lparr>lens_ClientID := ''id'', lens_ClientSecret := ''s3cret'', lens_Tenants := [''t'']\<rparr>,
      cfg_Phone := (cfg_Phone ex_config)\<lparr>phone_Enabled := False\<rparr>\<rparr>"

definition ex_account_prog :: "(nat, unit wire) prog_env" where
  "ex_account_prog = \<lparr>pe_meter = ex_meter, pe_now = (\<lambda>w. (\<lparr>t_unix = 0, t_nsec = 0, t_off = 0\<rparr>, w)), pe_order = id, pe_cdr = LensCDR.ex_env,
     pe_calls = ex_call_env, pe_files = ex_files, pe_version = dev_version\<rparr>"

definition ex_account_main :: "(string list, nat, unit wire) main_env" where
  "ex_account_main = \<lparr>me_prog = ex_account_prog, me_koanf = ex_koanf\<lparr>koanf_Unmarshal := (\<lambda>_. Inr ex_account_cfg)\<rparr>, me_sdk = ex_sdk,
     me_pyroscope = (\<lambda>_. None), me_lens = answering ex_account, me_NewClient = world_NewClient (\<lambda>_. ex_net []) ex_digest_env\<rparr>"

definition ex_account_world :: "(nat, unit wire) world" where
  "ex_account_world = \<lparr>wd_lens = ex_inventory_st, wd_phone = ([], ()), wd_files = Map.empty\<rparr>"

abbreviation ex_account_client :: "emitter \<Rightarrow> lens_config" where
  "ex_account_client em \<equiv> with_defaults (main_lens_config ex_account_cfg em)"

lemma ex_account_valid: "Validate ex_account_cfg = None" by code_simp

lemma ex_account_settings: "has_lens ex_account_cfg" "newLogger (cfg_Log ex_account_cfg) = Inr (JSONHandler 0)"
  "\<not> blank (cfg_StateDir ex_account_cfg)" "otlp_Protocol (cfg_OTLP ex_account_cfg) = ''http''" "lens_Tenants (cfg_Lens ex_account_cfg) = [''t'']"
  "\<not> phone_Enabled (cfg_Phone ex_account_cfg)"
  by code_simp+

lemma ex_account_client: "lens_New (main_lens_config ex_account_cfg em) = Inr (ex_account_client em)" "0 < MaxAttempts (ex_account_client em)"
  by code_simp+

lemma ex_account_devices:
  assumes "0 < MaxAttempts lc" "lt_token st = ''tok''" "lt_expiresAt st = 100000000000"
  shows "\<exists>st'. Devices (answering ex_account) lc ''t'' st = Some (Inr [], st') \<and> lt_token st' = ''tok'' \<and> lt_expiresAt st' = 100000000000"
proof -
  let ?page = "\<lparr>dp_HasNextPage = False, dp_NextToken = None, dp_Edges = []\<rparr>"
  obtain st' where q: "lens_Query (answering ex_account) lc devicesQuery (devices_vars lc ''t'' None) st = (Inr ex_account, st')"
    and t: "lt_token st' = ''tok''" "lt_expiresAt st' = 100000000000"
    using answering_query [OF assms(1) own_queries(2) assms(2,3)] by blast
  have "fst (query_into zero_device_page dec_device_page (Inr ex_account, ())) = Inr ?page" by code_simp
  then have "query_into zero_device_page dec_device_page (Inr ex_account, w) = (Inr ?page, w)" for w :: "nat lens_st"
    by (simp add: query_into_def split: option.splits if_splits)
  with q have "fetch_devices (answering ex_account) lc ''t'' None st = (Inr ?page, st')" by (simp add: fetch_devices_def)
  then have "pages_of (answering ex_account) lc ''t'' None st [[]] st'"
    using last_page [of "answering ex_account" lc "''t''" None st] by fastforce
  from devices_loop_pages [OF this, of "[]"] t show ?thesis by (simp add: Devices_def)
qed

lemma ex_account_started:
  obtains up s lc where "run_startup ex_account_main [] (ex_tel, ex_account_world) = Some (Inr up, s)"
    "up_lens up = Some (answering ex_account, lc)" "0 < MaxAttempts lc" "lens_Tenants (cfg_Lens (up_cfg up)) = [''t'']"
    "wd_files (snd s) = Map.empty" "lt_token (wd_lens (snd s)) = ''tok''" "lt_expiresAt (wd_lens (snd s)) = 100000000000"
proof -
  let ?me = ex_account_main and ?cfg = ex_account_cfg
  note c = ex_account_settings
  have l: "Load (me_koanf ?me) [] = Inr ?cfg"
    by (simp add: Load_def load_file_def wrap_result_def ex_account_main_def ex_koanf_def prefixed_def)
  have d: "ensureStateDir (pe_files (me_prog ?me)) (cfg_StateDir ?cfg) Map.empty = (None, Map.empty)"
    by (simp add: ensureStateDir_def Let_def ex_account_main_def ex_account_prog_def ex_files_def c(3))
  obtain p k where n: "NewProviders (me_sdk ?me) (main_providers (pe_version (me_prog ?me)) ?cfg) new_sdk = (Inr p, k)"
  proof -
    have "\<exists>mk. otlp_exporters (main_providers v ?cfg) = Inr mk" for v
      using c(4) by (auto simp: otlp_exporters_def main_providers_def Let_def)
    then show ?thesis using that ex_sdk_builds by (metis ex_account_main_def main_env.select_convs(3))
  qed
  let ?e0 = "new_tenant_emitter (p_Emitter p) [''t'']"
  let ?e1 = "set_tenants [''t''] ?e0" and ?lc = "ex_account_client ?e0"
  obtain st where v: "Devices (answering ex_account) ?lc ''t'' ex_inventory_st = Some (Inr [], st)"
    and t: "lt_token st = ''tok''" "lt_expiresAt st = 100000000000"
    using ex_account_devices [OF ex_account_client(2), of ex_inventory_st ?e0] unfolding ex_inventory_st_def by auto
  let ?w = "ex_account_world\<lparr>wd_lens := st\<rparr>"
  have i: "inventory ?me ?cfg ?e0 ex_account_world = Some (Inr (Some ?lc, [''t''], []), ?w)"
    using c(1,5) v by (simp add: inventory_def ex_account_client(1) discoverDevices_def ex_account_main_def ex_account_world_def)
  obtain tel where u: "startup_event ?me ?e1 (ex_tel, ?w) = (None, (tel, ?w))"
  proof -
    have "\<not> is_zero \<lparr>t_unix = 0, t_nsec = 0, t_off = 0\<rparr>" by code_simp
    from log_event_succeeds [OF this] show ?thesis
      by (intro that) (simp add: startup_event_def Let_def case_prod_unfold ex_account_main_def ex_account_prog_def)
  qed
  have r: "resolvePhoneTargets m nc (?cfg\<lparr>cfg_Lens := x\<rparr>) lens em ds y = (Inr [], y)" for m nc x lens em ds and y :: "(nat, unit wire) world phone_run"
    using c(6) by (simp add: resolvePhoneTargets_def)
  obtain up where "run_runtime ?me ?cfg p k (ex_tel, ex_account_world) = Some (Inr up, (tel, ?w))"
    "up_lens up = Some (me_lens ?me, ?lc\<lparr>lens_emitter := Some ?e1\<rparr>)" "lens_Tenants (cfg_Lens (up_cfg up)) = [''t'']"
    unfolding run_runtime_def Let_def c(5) snd_conv fst_conv i by (simp add: u r)
  note up = this
  have "run_startup ?me [] (ex_tel, ex_account_world) = Some (Inr up, (tel, ?w))"
    using up(1) unfolding run_startup_def
    by (simp add: l c(2) ex_account_valid d n ex_account_world_def)
  from that [OF this] show thesis using up(2,3) t ex_account_client(2) by (simp add: ex_account_world_def ex_account_main_def)
qed

abbreviation ex_account_page :: cdr_page where
  "ex_account_page \<equiv> \<lparr>PageInfo = \<lparr>HasNextPage = False, EndCursor = None\<rparr>, Edges = ex_rows\<rparr>"

lemma ex_account_answer: "query_into zero_page dec_response (Inr ex_account, w) = (Inr ex_account_page, w)"
proof -
  have "fst (query_into zero_page dec_response (Inr ex_account, ())) = Inr ex_account_page" by code_simp
  then show ?thesis by (simp add: query_into_def split: option.splits if_splits)
qed

lemma ex_account_rows:
  assumes "serves (world_query (answering ex_account) lc) tid after w rows w'"
  shows "rows = ex_rows"
proof -
  have p: "page = ex_account_page" if "fetch_page (world_query (answering ex_account) lc) tid after w = (Inr page, w')" for tid after w page w'
    using that
    by (auto simp: ex_account_answer fetch_page_def world_query_def on_lens_def lens_Query_def answering_envelope query_into_def [of _ _ "(Inl _, _)"] Let_def
        split: if_splits prod.splits sum.splits)
  from assms show ?thesis by cases (auto dest: p)
qed

lemma ex_account_served:
  assumes "0 < MaxAttempts lc" "lt_token (wd_lens w) = ''tok''" "lt_expiresAt (wd_lens w) = 100000000000"
  shows "\<exists>w'. serves (world_query (answering ex_account) lc) tid None w ex_rows w'"
proof -
  obtain st where "lens_Query (answering ex_account) lc cdr_query (cdr_vars tid None) (wd_lens w) = (Inr ex_account, st)"
    using answering_query [OF assms(1) own_queries(3) assms(2,3)] by blast
  then have "fetch_page (world_query (answering ex_account) lc) tid None w = (Inr ex_account_page, w\<lparr>wd_lens := st\<rparr>)"
    by (simp add: fetch_page_def world_query_def on_lens_def ex_account_answer)
  from serves_last [OF this] show ?thesis by auto
qed

text \<open>A first run of a collector.\<close>

lemma first_run_reached:
  assumes "i < length cs" "run_begin now em (cs ! i) s = (t, s1)" "Collect (cs ! i) em s1 = Some (res, s2)"
  shows "\<exists>st. sched_reach m now em cs s st \<and> runs_of i st = [res] \<and> sc_run st = s2"
proof -
  define st0 st1 st where "st0 = sched_init (Entries cs) s"
    and "st1 = st0\<lparr>sc_phases := (sc_phases st0)[i := Collecting False t], sc_run := s1, sc_finished := sc_finished st0 @ map (Pair i) []\<rparr>"
    and "st = st1\<lparr>sc_phases := (sc_phases st1)[i := Reporting False t res], sc_run := s2, sc_finished := sc_finished st1 @ map (Pair i) []\<rparr>"
  note st = this
  have "sched_step m now em cs st0 st1" unfolding st(2)
    by (rule goroutine [OF assms(1)]) (use assms first_run [OF assms(2)] in \<open>auto simp: st(1) sched_init_def Entries_def\<close>)
  moreover have "sched_step m now em cs st1 st" unfolding st(3)
  proof (rule goroutine [OF assms(1)])
    show "Crashed \<notin> set (sc_phases st1)"
      using set_update_subset_insert [of "map (\<lambda>_. Starting) cs" i "Collecting False t"] by (auto simp: st(1,2) sched_init_def Entries_def)
    show "loop_step m now em (cs ! i) (sc_cancelled st1) (sc_phases st1 ! i) (sc_run st1) (Reporting False t res) s2 []"
      using collect_run [OF assms(3)] assms(1) by (simp add: st(1,2) sched_init_def Entries_def)
  qed
  ultimately have "sched_reach m now em cs s st" unfolding st(1) by (meson rtranclp.rtrancl_into_rtrancl rtranclp.rtrancl_refl)
  moreover have "runs_of i st = [res]" "sc_run st = s2"
    using assms(1) by (simp_all add: st runs_of_def sched_init_def reporting_def Entries_def)
  ultimately show ?thesis by blast
qed

lemma ex_account_run:
  assumes "0 < MaxAttempts lc" "wd_files w = Map.empty" "lt_token (wd_lens w) = ''tok''" "lt_expiresAt (wd_lens w) = 100000000000"
  shows "\<exists>s'. Collect (cdr_entry ex_account_prog (answering ex_account) lc cfg ''t'') em (tel, w) = Some (Finished None, s')"
proof -
  let ?c = "(cdr_New (cfg_StateDir cfg) ''t'')\<lparr>interval := iv_LensCDR (cfg_Collectors cfg)\<rparr>"
  obtain w' where "serves (world_query (answering ex_account) lc) (tenantID ?c) None w ex_rows w'"
    using ex_account_served [OF assms(1,3,4), of "''t''"] by (auto simp: cdr_New_def)
  moreover have "loadWatermark LensCDR.ex_env ex_files ?c (wd_files w) = Inr zero_watermark" by (simp add: assms(2) loadWatermark_def read_doc_def)
  moreover have "fs_healthy ex_files" by (simp add: fs_healthy_def ex_files_def)
  ultimately obtain tel' f' where
    "collect LensCDR.ex_env ex_files (Some (world_query (answering ex_account) lc)) ex_meter ?c em tel w (wd_files w) = Some (None, tel', w', f')"
    using collect_ok [OF _ ex_good, of "world_query (answering ex_account) lc" ?c w w' LensCDR.ex_env ex_files "wd_files w" zero_watermark ex_meter em tel]
    by blast
  then show ?thesis by (simp add: cdr_entry_defs ex_account_prog_def Let_def)
qed

lemma ex_account_logs:
  "length (concat (map (row_logs LensCDR.ex_env (with_tenant ''t'' (TenantEmitter [] scope))) (history zero_watermark [ex_rows]))) = 2"
proof -
  have "\<not> blank ''t''" by code_simp
  then have "length (row_logs LensCDR.ex_env (with_tenant ''t'' (TenantEmitter [] scope)) r) = 1" if "eventTimes r \<noteq> None" for r
    using that unfolding row_logs_def by (simp add: tenant_emitter_scope del: with_tenant.simps split: option.splits)
  moreover have "list_all (\<lambda>r. eventTimes r \<noteq> None) (take 2 ex_rows)" by code_simp
  moreover have "history zero_watermark [ex_rows] = take 2 ex_rows" by code_simp
  ultimately show ?thesis by (simp add: ex_rows_def del: with_tenant.simps)
qed

lemma started_program_call_records_witness:
  "\<exists>up s st sigs. run_startup ex_account_main [] (ex_tel, ex_account_world) = Some (Inr up, s) \<and>
    sched_reach ex_meter (pe_now ex_account_prog) (up_emitter up) (up_registry up) s st \<and> runs_of 3 st = [Finished None] \<and>
    call_records ''t'' (fst (sc_run st)) = call_records ''t'' (fst s) @ sigs \<and> length sigs = 2"
proof -
  obtain up s lc where u: "run_startup ex_account_main [] (ex_tel, ex_account_world) = Some (Inr up, s)"
    "up_lens up = Some (answering ex_account, lc)" "0 < MaxAttempts lc" "lens_Tenants (cfg_Lens (up_cfg up)) = [''t'']"
    "wd_files (snd s) = Map.empty" "lt_token (wd_lens (snd s)) = ''tok''" "lt_expiresAt (wd_lens (snd s)) = 100000000000"
    by (rule ex_account_started)
  have me: "me_prog ex_account_main = ex_account_prog" "me_NewClient ex_account_main = world_NewClient (\<lambda>_. ex_net []) ex_digest_env"
    by (simp_all add: ex_account_main_def)
  obtain scope where em: "up_emitter up = TenantEmitter [] scope"
    and rg: "up_registry up = main_registry ex_account_prog (up_cfg up) (Some (answering ex_account, lc)) (up_targets up)"
    using started_program_parts [OF u(1)] u(2) me by metis
  have k: "0 < length (lens_Tenants (cfg_Lens (up_cfg up)))" using u(4) by simp
  let ?cs = "up_registry up" and ?em = "up_emitter up" and ?now = "pe_now ex_account_prog"
  have c: "?cs ! 3 = cdr_entry ex_account_prog (answering ex_account) lc (up_cfg up) ''t''" "3 < length ?cs"
    using nth_registry [OF k] u(4) by (simp_all add: rg)
  obtain t tel where b: "run_begin ?now ?em (?cs ! 3) s = (t, (tel, snd s))" by (simp add: run_begin_def ex_account_prog_def)
  obtain s2 where "Collect (?cs ! 3) ?em (tel, snd s) = Some (Finished None, s2)"
    using ex_account_run [OF u(3,5-7)] unfolding c(1) by blast
  from first_run_reached [OF c(2) b this] obtain st where
    st: "sched_reach ex_meter ?now ?em ?cs s st" "runs_of 3 st = [Finished None]" by blast
  have good: "good_answers (world_query (answering ex_account) lc :: (nat, unit wire) world query_client) ''t''"
    using ex_good by (auto simp: good_answers_def dest: ex_account_rows)
  have "separate_tenants LensCDR.ex_env [''t'']" by code_simp
  with started_program_call_records [OF u(1) me(2) u(2) k _ _ _ good _ _ ex_wm_ok, of st] st u(4,5) obtain batches where
    "length batches = 1" "list_all (served (world_query (answering ex_account) lc :: (nat, unit wire) world query_client) ''t'') batches"
    and r: "call_records ''t'' (fst (sc_run st)) = call_records ''t'' (fst s) @
      concat (map (row_logs LensCDR.ex_env (with_tenant ''t'' ?em)) (history zero_watermark batches))"
    by (auto simp: me ex_account_prog_def succeeded_def ex_files_def loadWatermark_def read_doc_def)
  then have "batches = [ex_rows]" by (cases batches) (auto simp: served_def dest: ex_account_rows)
  with r ex_account_logs [of scope] em u(1) st show ?thesis by metis
qed

end
