(* ===== verification/GoDuration.thy ===== *)
theory GoDuration
  imports GoStrings
begin

text \<open>
  \<^verbatim>\<open>Duration.String\<close> of Go's \<^verbatim>\<open>time\<close> package: hours, minutes and seconds with a fraction, or one smaller unit below a
  second. A duration is its number of nanoseconds, and the absolute value of the smallest one fits the unsigned word the
  code works on.
\<close>

text \<open>\<^verbatim>\<open>fmtFrac\<close>: digits from the last one on, without trailing zeros; the rest of the number comes back.\<close>

fun fmt_frac :: "nat \<Rightarrow> int \<Rightarrow> bool \<Rightarrow> string \<Rightarrow> string \<times> int" where
  "fmt_frac 0 v print acc = (if print then CHR ''.'' # acc else acc, v)"
| "fmt_frac (Suc n) v print acc =
     (let p = print \<or> v mod 10 \<noteq> 0 in fmt_frac n (v div 10) p (if p then digit_of (v mod 10) # acc else acc))"

definition micro_sign :: string where
  "micro_sign = [CHR 0xC2, CHR 0xB5]"

definition small_duration :: "int \<Rightarrow> string" where
  "small_duration u =
     (if u = 0 then ''0s''
      else let (prec, unit) = (if u < 1000 then (0, ''ns'') else if u < 1000000 then (3, micro_sign @ ''s'') else (6, ''ms''));
               (frac, v) = fmt_frac prec u False [] in
        int_digits v @ frac @ unit)"

definition large_duration :: "int \<Rightarrow> string" where
  "large_duration u =
     (let (frac, secs) = fmt_frac 9 u False []; m = secs div 60; h = m div 60 in
      (if m > 0 then (if h > 0 then int_digits h @ ''h'' else []) @ int_digits (m mod 60) @ ''m'' else []) @
      int_digits (secs mod 60) @ frac @ ''s'')"

definition duration_String :: "int \<Rightarrow> string" where
  "duration_String d =
     (let u = \<bar>d\<bar>; s = (if u < 1000000000 then small_duration u else large_duration u) in
      if d < 0 then CHR ''-'' # s else s)"

lemma duration_examples:
  "duration_String 60000000000 = ''1m0s''" "duration_String 86400000000000 = ''24h0m0s''"
  "duration_String 1500000000 = ''1.5s''" "duration_String 1100000 = ''1.1ms''" "duration_String (- 5) = ''-5ns''"
  by code_simp+

end
