(* ===== verification/GoPath.thy ===== *)
theory GoPath
  imports GoStrings
begin

text \<open>
  \<^verbatim>\<open>Clean\<close>, \<^verbatim>\<open>Dir\<close> and \<^verbatim>\<open>Join\<close> of Go's \<^verbatim>\<open>path/filepath\<close> on Unix, and that going from a rooted path to its directory makes
  it shorter until the root is reached.
\<close>

section \<open>Definitions\<close>

text \<open>The elements of a path that are kept; the stack holds the last one first.\<close>

fun clean_elems :: "bool \<Rightarrow> string list \<Rightarrow> string list \<Rightarrow> string list" where
  "clean_elems rooted stk [] = rev stk"
| "clean_elems rooted stk (e # es) =
     (if e = [] \<or> e = ''.'' then clean_elems rooted stk es
      else if e = ''..'' then
        (case stk of
           [] \<Rightarrow> clean_elems rooted (if rooted then [] else [e]) es
         | t # r \<Rightarrow> clean_elems rooted (if t = ''..'' then e # stk else r) es)
      else clean_elems rooted (e # stk) es)"

definition rooted_path :: "string \<Rightarrow> bool" where
  "rooted_path p \<longleftrightarrow> prefix ''/'' p"

definition path_Clean :: "string \<Rightarrow> string" where
  "path_Clean p =
     (let r = rooted_path p; q = (if r then ''/'' else []) @ join ''/'' (clean_elems r [] (split_on (CHR ''/'') p)) in
      if q = [] then ''.'' else q)"

definition dir_part :: "string \<Rightarrow> string" where
  "dir_part p = rev (dropWhile (\<lambda>c. c \<noteq> CHR ''/'') (rev p))"

definition path_Dir :: "string \<Rightarrow> string" where
  "path_Dir p = path_Clean (dir_part p)"

definition path_Join :: "string list \<Rightarrow> string" where
  "path_Join es = (case dropWhile (\<lambda>e. e = []) es of [] \<Rightarrow> [] | fs \<Rightarrow> path_Clean (join ''/'' fs))"

section \<open>Cleaning makes a path shorter\<close>

definition weight :: "string list \<Rightarrow> nat" where
  "weight es = sum_list (map (\<lambda>e. Suc (length e)) es)"

lemma weight_simps [simp]: "weight [] = 0" "weight (e # es) = Suc (length e + weight es)" "weight (es @ fs) = weight es + weight fs"
  "weight (rev es) = weight es"
  by (simp_all add: weight_def rev_map [symmetric])

lemma length_join: "es \<noteq> [] \<Longrightarrow> Suc (length (join [sep] es)) = weight es"
proof (induction es)
  case (Cons e es)
  then show ?case by (cases "es = []") (simp_all add: join_Cons)
qed simp

lemma clean_elems_weight:
  "clean_elems True stk es = rev stk @ es \<or> weight (clean_elems True stk es) < weight stk + weight es"
proof (induction es arbitrary: stk)
  case (Cons e es)
  consider "e = [] \<or> e = ''.''" | "e = ''..''" "stk = []" | t r where "e = ''..''" "stk = t # r" "t = ''..''"
    | t r where "e = ''..''" "stk = t # r" "t \<noteq> ''..''" | "e \<noteq> []" "e \<noteq> ''.''" "e \<noteq> ''..''"
    by (cases stk) auto
  then show ?case
  proof cases
    case 1
    then show ?thesis using Cons.IH [of stk] by auto
  next
    case 2
    then show ?thesis using Cons.IH [of "[]"] by auto
  next
    case 3
    then show ?thesis using Cons.IH [of "e # stk"] by auto
  next
    case 4
    then show ?thesis using Cons.IH [of r] by auto
  next
    case 5
    then show ?thesis using Cons.IH [of "e # stk"] by auto
  qed
qed simp

lemma Clean_shorter:
  assumes "rooted_path p"
  shows "rooted_path (path_Clean p) \<and> (path_Clean p = p \<or> length (path_Clean p) < length p)"
proof -
  obtain r where p: "p = CHR ''/'' # r" using assms by (auto simp: rooted_path_def prefix_def)
  let ?es = "split_on (CHR ''/'') r"
  let ?xs = "clean_elems True [] ?es"
  have c: "path_Clean p = CHR ''/'' # join ''/'' ?xs" using p by (simp add: path_Clean_def rooted_path_def)
  have w: "weight ?es = length p" using length_join [of ?es "CHR ''/''"] by (simp add: p join_split_on)
  have "?xs = ?es \<or> weight ?xs < weight ?es" using clean_elems_weight [of "[]" ?es] by simp
  then have "path_Clean p = p \<or> length (path_Clean p) < length p"
  proof
    assume "?xs = ?es"
    then have "path_Clean p = p" unfolding c by (simp add: p join_split_on)
    then show ?thesis by simp
  next
    assume l: "weight ?xs < weight ?es"
    show ?thesis
    proof (cases "?xs = []")
      case True
      then show ?thesis unfolding c by (cases r) (simp_all add: p)
    next
      case False
      with length_join [of ?xs "CHR ''/''"] l show ?thesis unfolding c by (simp add: w)
    qed
  qed
  moreover have "rooted_path (path_Clean p)" unfolding c by (simp add: rooted_path_def)
  ultimately show ?thesis by simp
qed

lemma Dir_shorter:
  assumes "rooted_path p"
  shows "rooted_path (path_Dir p) \<and> (path_Dir p = p \<or> length (path_Dir p) < length p)"
proof -
  have d: "prefix (dir_part p) p"
    unfolding dir_part_def using suffix_dropWhile [of _ "rev p"] by (simp add: suffix_to_prefix)
  obtain r where p: "p = CHR ''/'' # r" using assms by (auto simp: rooted_path_def prefix_def)
  have "dir_part p \<noteq> []" unfolding dir_part_def p by (auto simp: dropWhile_eq_Nil_conv)
  with d p have "rooted_path (dir_part p)" by (cases "dir_part p") (auto simp: rooted_path_def)
  from Clean_shorter [OF this] have c: "rooted_path (path_Dir p)" "path_Dir p = dir_part p \<or> length (path_Dir p) < length (dir_part p)"
    by (auto simp: path_Dir_def)
  moreover have "dir_part p = p \<or> length (dir_part p) < length p"
    using d by (metis prefix_length_le prefix_length_prefix le_neq_implies_less not_equal_is_parallel parallelE)
  ultimately show ?thesis by auto
qed

section \<open>Joining a name to a directory\<close>

lemma split_on_sep: "split_on sep (s @ sep # t) = split_on sep s @ split_on sep t"
proof (induction s)
  case (Cons c s)
  then show ?case by (cases "split_on sep s") auto
qed simp

lemma clean_elems_append: "clean_elems r stk (es @ fs) = clean_elems r (rev (clean_elems r stk es)) fs"
  by (induction r stk es rule: clean_elems.induct) (auto split: list.splits)

text \<open>A plain name stays the last element of the joined path.\<close>

lemma join_snoc: "\<exists>t. join sep (es @ [x]) = t @ x"
proof (induction es)
  case (Cons e es)
  then obtain t where "join sep (es @ [x]) = t @ x" by blast
  then have "join sep ((e # es) @ [x]) = (e @ sep @ t) @ x" by (simp add: join_Cons)
  then show ?case by blast
qed simp

lemma Join_last:
  assumes "dir \<noteq> []" "split_on (CHR ''/'') name = es @ [x]" "x \<notin> {[], ''.'', ''..''}"
  shows "\<exists>t. path_Join [dir, name] = t @ x"
proof -
  have n: "name \<noteq> []" using assms(2,3) by (cases es) auto
  have j: "path_Join [dir, name] = path_Clean (dir @ CHR ''/'' # name)" using assms(1) n by (simp add: path_Join_def)
  let ?r = "rooted_path (dir @ CHR ''/'' # name)"
  let ?es = "split_on (CHR ''/'') dir @ es"
  have "clean_elems ?r [] (split_on (CHR ''/'') (dir @ CHR ''/'' # name)) = clean_elems ?r [] ?es @ [x]"
    unfolding split_on_sep assms(2) append_assoc [symmetric] clean_elems_append [of ?r "[]" ?es] using assms(3) by simp
  moreover obtain t where "join ''/'' (clean_elems ?r [] ?es @ [x]) = t @ x" using join_snoc by blast
  ultimately have "path_Clean (dir @ CHR ''/'' # name) = (if ?r then ''/'' else []) @ t @ x"
    using assms(3) by (simp add: path_Clean_def Let_def)
  then have "path_Join [dir, name] = ((if ?r then ''/'' else []) @ t) @ x" by (simp add: j)
  then show ?thesis by blast
qed

end
