(* ===== verification/ConfigDoc.thy ===== *)
theory ConfigDoc
  imports ConfigModel GoDuration GoPath StrOrder
begin

text \<open>
  \<^verbatim>\<open>internal/configdoc/main.go\<close>: the generator of the configuration reference. Modelled are the values that reflection
  finds in the structs of \<^verbatim>\<open>internal/config\<close>, the walk over them, the documented metadata and its check, the two documents,
  the search for the root of the repository, and the program with its two modes.

  The files are a map from paths to contents. The working directory, \<^verbatim>\<open>os.Stat\<close>, the YAML parser and failing writes are
  parameters (\<open>doc_env\<close>). The flag is an argument. Maps are walked in any order by Go; the lists here have the
  order of the source, and for the two documents, where the order is visible in a failing run, it is a parameter.
\<close>

section \<open>Reflection\<close>

text \<open>
  The values the configuration is made of, by their kind: a leaf, or a struct with the names of its fields, their tags
  and their values. The branches of the code for other kinds are out of reach.
\<close>

datatype leaf =
    LDuration int
  | LString string
  | LBool bool
  | LInt int
  | LMap "(string \<times> string) list"
  | LStrings "string list"

datatype rval = Leaf leaf | Struct "(string \<times> string \<times> rval) list"

definition reflect_log :: "log_config \<Rightarrow> rval" where
  "reflect_log c = Struct
     [(''Level'', ''level'', Leaf (LString (log_Level c))),
      (''Format'', ''format'', Leaf (LString (log_Format c)))]"

definition reflect_retry :: "retry_config \<Rightarrow> rval" where
  "reflect_retry c = Struct
     [(''MaxAttempts'', ''max_attempts'', Leaf (LInt (retry_MaxAttempts c))),
      (''MinBackoff'', ''min_backoff'', Leaf (LDuration (retry_MinBackoff c))),
      (''MaxBackoff'', ''max_backoff'', Leaf (LDuration (retry_MaxBackoff c)))]"

definition reflect_stream :: "stream_section \<Rightarrow> rval" where
  "reflect_stream c = Struct
     [(''Enabled'', ''enabled'', Leaf (LBool (stream_Enabled c))),
      (''AckTimeout'', ''ack_timeout'', Leaf (LDuration (stream_AckTimeout c))),
      (''MinBackoff'', ''min_backoff'', Leaf (LDuration (section_MinBackoff c))),
      (''MaxBackoff'', ''max_backoff'', Leaf (LDuration (section_MaxBackoff c)))]"

definition reflect_lens :: "lens_section \<Rightarrow> rval" where
  "reflect_lens c = Struct
     [(''TokenURL'', ''token_url'', Leaf (LString (lens_TokenURL c))),
      (''GraphQLURL'', ''graphql_url'', Leaf (LString (lens_GraphQLURL c))),
      (''WebSocketURL'', ''websocket_url'', Leaf (LString (lens_WebSocketURL c))),
      (''ClientID'', ''client_id'', Leaf (LString (lens_ClientID c))),
      (''ClientSecret'', ''client_secret'', Leaf (LString (lens_ClientSecret c))),
      (''Tenants'', ''tenants'', Leaf (LStrings (lens_Tenants c))),
      (''PageSize'', ''page_size'', Leaf (LInt (lens_PageSize c))),
      (''RequestTimeout'', ''request_timeout'', Leaf (LDuration (lens_RequestTimeout c))),
      (''Retry'', ''retry'', reflect_retry (lens_Retry c)),
      (''Stream'', ''stream'', reflect_stream (lens_Stream c))]"

definition reflect_phone_auth :: "phone_auth_config \<Rightarrow> rval" where
  "reflect_phone_auth c = Struct
     [(''Username'', ''username'', Leaf (LString (auth_Username c))),
      (''Password'', ''password'', Leaf (LString (auth_Password c))),
      (''FromLensPolicy'', ''from_lens_policy'', Leaf (LBool (auth_FromLensPolicy c)))]"

definition reflect_phone_tls :: "phone_tls_config \<Rightarrow> rval" where
  "reflect_phone_tls c = Struct
     [(''VerifyChain'', ''verify_chain'', Leaf (LBool (tls_VerifyChain c))),
      (''CAFile'', ''ca_file'', Leaf (LString (tls_CAFile c)))]"

definition reflect_phone :: "phone_section \<Rightarrow> rval" where
  "reflect_phone c = Struct
     [(''Enabled'', ''enabled'', Leaf (LBool (phone_Enabled c))),
      (''Targets'', ''targets'', Leaf (LMap (phone_Targets c))),
      (''ConfigParams'', ''config_params'', Leaf (LStrings (phone_ConfigParams c))),
      (''RequestTimeout'', ''request_timeout'', Leaf (LDuration (phone_RequestTimeout c))),
      (''Auth'', ''auth'', reflect_phone_auth (phone_Auth c)),
      (''TLS'', ''tls'', reflect_phone_tls (phone_TLS c))]"

definition reflect_collectors :: "collector_config \<Rightarrow> rval" where
  "reflect_collectors c = Struct
     [(''LensDevices'', ''lens_devices'', Leaf (LDuration (iv_LensDevices c))),
      (''LensActiveCalls'', ''lens_active_calls'', Leaf (LDuration (iv_LensActiveCalls c))),
      (''LensFirmware'', ''lens_firmware'', Leaf (LDuration (iv_LensFirmware c))),
      (''LensCDR'', ''lens_cdr'', Leaf (LDuration (iv_LensCDR c))),
      (''PhoneStatus'', ''phone_status'', Leaf (LDuration (iv_PhoneStatus c))),
      (''PhoneLines'', ''phone_lines'', Leaf (LDuration (iv_PhoneLines c))),
      (''PhoneConfig'', ''phone_config'', Leaf (LDuration (iv_PhoneConfig c))),
      (''PhoneCallLogs'', ''phone_call_logs'', Leaf (LDuration (iv_PhoneCallLogs c))),
      (''PhoneNetworkInfo'', ''phone_network_info'', Leaf (LDuration (iv_PhoneNetworkInfo c))),
      (''SelfObs'', ''selfobs_internal'', Leaf (LDuration (iv_SelfObs c)))]"

definition reflect_grafana :: "otlp_config \<Rightarrow> rval" where
  "reflect_grafana c = Struct
     [(''InstanceID'', ''instance_id'', Leaf (LString (otlp_InstanceID c))),
      (''Token'', ''token'', Leaf (LString (otlp_Token c)))]"

definition reflect_otlp :: "otlp_config \<Rightarrow> rval" where
  "reflect_otlp c = Struct
     [(''Endpoint'', ''endpoint'', Leaf (LString (otlp_Endpoint c))),
      (''Protocol'', ''protocol'', Leaf (LString (otlp_Protocol c))),
      (''Insecure'', ''insecure'', Leaf (LBool (otlp_Insecure c))),
      (''ExportInterval'', ''export_interval'', Leaf (LDuration (otlp_ExportInterval c))),
      (''GrafanaCloud'', ''grafana_cloud'', reflect_grafana c)]"

definition reflect_pyroscope :: "pyroscope_config \<Rightarrow> rval" where
  "reflect_pyroscope c = Struct
     [(''Endpoint'', ''endpoint'', Leaf (LString (pyro_Endpoint c))),
      (''Application'', ''application'', Leaf (LString (pyro_Application c))),
      (''BasicAuthUser'', ''basic_auth_user'', Leaf (LString (pyro_BasicAuthUser c))),
      (''BasicAuthPassword'', ''basic_auth_password'', Leaf (LString (pyro_BasicAuthPassword c)))]"

definition reflect_profiling :: "pyroscope_config \<Rightarrow> rval" where
  "reflect_profiling c = Struct
     [(''Pyroscope'', ''pyroscope'', reflect_pyroscope c)]"

definition reflect_state :: "string \<Rightarrow> rval" where
  "reflect_state d = Struct [(''Dir'', ''dir'', Leaf (LString d))]"

definition reflect_cardinality :: "int \<Rightarrow> rval" where
  "reflect_cardinality n = Struct [(''MaxDevices'', ''max_devices'', Leaf (LInt n))]"

definition reflect_config :: "config \<Rightarrow> rval" where
  "reflect_config c = Struct
     [(''Log'', ''log'', reflect_log (cfg_Log c)),
      (''Lens'', ''lens'', reflect_lens (cfg_Lens c)),
      (''Phone'', ''phone'', reflect_phone (cfg_Phone c)),
      (''Collectors'', ''collectors'', reflect_collectors (cfg_Collectors c)),
      (''OTLP'', ''otlp'', reflect_otlp (cfg_OTLP c)),
      (''Profiling'', ''profiling'', reflect_profiling (cfg_Profiling c)),
      (''State'', ''state'', reflect_state (cfg_StateDir c)),
      (''Cardinality'', ''cardinality'', reflect_cardinality (cfg_MaxDevices c))]"

lemmas reflect_defs = reflect_log_def reflect_retry_def reflect_stream_def reflect_lens_def reflect_phone_auth_def reflect_phone_tls_def
  reflect_phone_def reflect_collectors_def reflect_grafana_def reflect_otlp_def reflect_pyroscope_def reflect_profiling_def
  reflect_state_def reflect_cardinality_def reflect_config_def

section \<open>Metadata\<close>

definition nl :: string where
  "nl = [CHR 0x0A]"

definition unlines :: "string list \<Rightarrow> string" where
  "unlines ls = concat (map (\<lambda>l. l @ nl) ls)"

definition doc_comments :: "(string \<times> string) list" where
  "doc_comments =
     [(''log.level'', ''Application log level.''),
      (''log.format'', ''Application log encoding.''),
      (''lens.token_url'', ''OAuth token endpoint for Poly Lens.''),
      (''lens.graphql_url'', ''Poly Lens GraphQL endpoint.''),
      (''lens.websocket_url'', ''Poly Lens GraphQL WebSocket endpoint for deviceStream.''),
      (''lens.client_id'', ''OAuth client identifier; omit with lens.client_secret for static phone-only collection.''),
      (''lens.client_secret'', ''OAuth client secret; supply only through the environment, or omit with lens.client_id for static phone-only collection.''),
      (''lens.tenants'', ''Lens tenant IDs to collect. An empty list discovers tenants through the read-only tenants query.''),
      (''lens.page_size'', ''Lens page size; validation permits 1 through 5000. Keep the value stable across follow-up pages.''),
      (''lens.request_timeout'', ''Timeout for an individual Lens request.''),
      (''lens.retry.max_attempts'', ''Maximum Lens request attempts, including the first attempt.''),
      (''lens.retry.min_backoff'', ''Initial Lens retry backoff.''),
      (''lens.retry.max_backoff'', ''Maximum Lens retry backoff.''),
      (''lens.stream.enabled'', ''Enable the named deviceStream GraphQL subscription as an edge-triggered supplement to polling.''),
      (''lens.stream.ack_timeout'', ''Time allowed for a deviceStream acknowledgement.''),
      (''lens.stream.min_backoff'', ''Initial deviceStream reconnect backoff.''),
      (''lens.stream.max_backoff'', ''Maximum deviceStream reconnect backoff.''),
      (''phone.enabled'', ''Enable phone REST collectors. When enabled, phone.auth.password is required.''),
      (''phone.targets'', ''Static per-device targets. Each <device-id> overrides Lens internalIp; without Lens credentials each key must be the phone certificate's 12-hex-digit MAC. Discovery never scans.''),
      (''phone.config_params'', ''Read-only phone configuration parameters requested by the phone config collector; at most 50 to bound the phone response and resulting metric-series count.''),
      (''phone.request_timeout'', ''Timeout for an individual phone REST request.''),
      (''phone.auth.username'', ''Digest authentication username; Polycom is the default.''),
      (''phone.auth.password'', ''Digest authentication password; supply only through the environment when phone collection is enabled.''),
      (''phone.auth.from_lens_policy'', ''Prefer credentials from the selected Lens policy; defaults to true. Set false to use only the configured password.''),
      (''phone.tls.verify_chain'', ''Verify the phone TLS certificate chain.''),
      (''phone.tls.ca_file'', ''Optional CA certificate file for phone TLS verification. The certificate CN must match the Lens MAC before credentials are sent.''),
      (''collectors.lens_devices'', ''Polling interval for Lens device inventory.''),
      (''collectors.lens_active_calls'', ''Polling interval for Lens active calls.''),
      (''collectors.lens_firmware'', ''Polling interval for Lens firmware inventory.''),
      (''collectors.lens_cdr'', ''Polling interval for Lens CDR logs.''),
      (''collectors.phone_status'', ''Polling interval for phone status.''),
      (''collectors.phone_lines'', ''Polling interval for phone lines.''),
      (''collectors.phone_config'', ''Polling interval for phone configuration.''),
      (''collectors.phone_call_logs'', ''Polling interval for phone call logs.''),
      (''collectors.phone_network_info'', ''Polling interval for phone network information.''),
      (''collectors.selfobs_internal'', ''Emission interval for exporter self-observability.''),
      (''otlp.endpoint'', ''OTLP collector endpoint.''),
      (''otlp.protocol'', ''OTLP transport protocol; validation permits http or grpc.''),
      (''otlp.insecure'', ''Allow an insecure OTLP transport.''),
      (''otlp.export_interval'', ''OTLP metric export interval.''),
      (''otlp.grafana_cloud.instance_id'', ''Grafana Cloud instance ID.''),
      (''otlp.grafana_cloud.token'', ''Grafana Cloud access token; supply only through the environment.''),
      (''profiling.pyroscope.endpoint'', ''Pyroscope endpoint. Empty leaves profiling endpoint unset.''),
      (''profiling.pyroscope.application'', ''Pyroscope application name.''),
      (''profiling.pyroscope.basic_auth_user'', ''Pyroscope basic-auth username.''),
      (''profiling.pyroscope.basic_auth_password'', ''Pyroscope basic-auth password; supply only through the environment.''),
      (''state.dir'', ''Directory for durable collector state; required and must be writable by the exporter.''),
      (''cardinality.max_devices'', ''Maximum devices represented by the exporter; must be positive.'')]"

definition doc_secrets :: "string list" where
  "doc_secrets = [''lens.client_secret'', ''phone.auth.password'', ''otlp.grafana_cloud.token'', ''profiling.pyroscope.basic_auth_password'']"

definition doc_comment :: "string \<Rightarrow> string" where
  "doc_comment key = (case map_of doc_comments key of None \<Rightarrow> [] | Some c \<Rightarrow> c)"

definition required :: "string \<Rightarrow> string" where
  "required key =
     (if key \<in> set [''otlp.endpoint'', ''otlp.grafana_cloud.instance_id'', ''otlp.grafana_cloud.token'', ''state.dir''] then ''Required''
      else if key \<in> set [''lens.client_id'', ''lens.client_secret''] then ''Required together for Lens collection''
      else if key = ''phone.auth.password'' then ''Required when phone.enabled is true''
      else ''Optional'')"

definition typeName :: "leaf \<Rightarrow> string" where
  "typeName l =
     (case l of
        LDuration _ \<Rightarrow> ''duration'' | LMap _ \<Rightarrow> ''map[string]string'' | LStrings _ \<Rightarrow> ''[]'' @ ''string''
      | LString _ \<Rightarrow> ''string'' | LBool _ \<Rightarrow> ''bool'' | LInt _ \<Rightarrow> ''int'')"

definition format_int :: "int \<Rightarrow> string" where
  "format_int n = (if n < 0 then CHR ''-'' # int_digits (- n) else int_digits n)"

definition defaultValue :: "leaf \<Rightarrow> string" where
  "defaultValue l =
     (case l of
        LDuration d \<Rightarrow> duration_String d
      | LString s \<Rightarrow> s
      | LBool b \<Rightarrow> (if b then ''true'' else ''false'')
      | LInt n \<Rightarrow> format_int n
      | LMap _ \<Rightarrow> ''{}''
      | LStrings xs \<Rightarrow> ''['' @ join '', '' xs @ '']'')"

record doc_field =
  df_Key :: string
  df_Type :: string
  df_Default :: string
  df_Secret :: bool
  df_Required :: string
  df_Comment :: string
  df_Value :: leaf
  df_IsMap :: bool

definition addField :: "leaf \<Rightarrow> string \<Rightarrow> doc_field result" where
  "addField l key =
     (if key = [] then Inl (Msg ''empty configuration key'')
      else Inr \<lparr>df_Key = key, df_Type = typeName l, df_Default = defaultValue l, df_Secret = (key \<in> set doc_secrets),
        df_Required = required key, df_Comment = doc_comment key, df_Value = l,
        df_IsMap = (case l of LMap _ \<Rightarrow> True | _ \<Rightarrow> False)\<rparr>)"

definition tag_name :: "string \<Rightarrow> string" where
  "tag_name tag = hd (split_on (CHR '','') tag)"

definition sub_key :: "string \<Rightarrow> string \<Rightarrow> string" where
  "sub_key pre name = (if pre \<noteq> [] then pre @ ''.'' @ name else name)"

fun walk :: "rval \<Rightarrow> string \<Rightarrow> doc_field list result"
  and walk_struct :: "(string \<times> string \<times> rval) list \<Rightarrow> string \<Rightarrow> doc_field list result" where
  "walk (Leaf l) pre = (case addField l pre of Inl e \<Rightarrow> Inl e | Inr f \<Rightarrow> Inr [f])"
| "walk (Struct fs) pre = walk_struct fs pre"
| "walk_struct [] pre = Inr []"
| "walk_struct ((field, tag, v) # fs) pre =
     (let name = tag_name tag in
      if name = [] \<or> name = ''-'' then Inl (Msg (field @ '' has no yaml tag''))
      else (case walk v (sub_key pre name) of
          Inl e \<Rightarrow> Inl e
        | Inr xs \<Rightarrow> (case walk_struct fs pre of Inl e \<Rightarrow> Inl e | Inr ys \<Rightarrow> Inr (xs @ ys))))"

definition fieldsFor :: "config \<Rightarrow> doc_field list result" where
  "fieldsFor cfg = (case walk (reflect_config cfg) [] of Inl e \<Rightarrow> Inl e | Inr fs \<Rightarrow> Inr (key_sort df_Key fs))"

definition field_error :: "doc_field \<Rightarrow> goerr option" where
  "field_error f =
     (if df_Comment f = [] then Some (Msg (''missing documentation metadata for '' @ df_Key f))
      else if df_Secret f \<noteq> (df_Key f \<in> set doc_secrets) then Some (Msg (''secret metadata mismatch for '' @ df_Key f))
      else None)"

definition validateMetadata :: "doc_field list \<Rightarrow> goerr option" where
  "validateMetadata fs =
     (case List.map_filter field_error fs of
        e # es \<Rightarrow> Some e
      | [] \<Rightarrow>
          (let seen = map df_Key fs in
           case find (\<lambda>k. k \<notin> set seen) (map fst doc_comments) of
             Some k \<Rightarrow> Some (Msg (''documentation metadata refers to absent config key '' @ k))
           | None \<Rightarrow>
               (case find (\<lambda>k. k \<notin> set seen) doc_secrets of
                  Some k \<Rightarrow> Some (Msg (''secret metadata refers to absent config key '' @ k))
                | None \<Rightarrow> None)))"

section \<open>The two documents\<close>

definition docs_head :: string where
  "docs_head = unlines
     [''<!-- Code generated by internal/configdoc; DO NOT EDIT. Run `just gen`. -->'',
      [],
      ''# Configuration and environment reference'',
      [],
      ''Configuration precedence is defaults, YAML, then `PL2O_` environment variables. Nested YAML dots become double underscores in environment variables. Secrets are environment-only: placing a secret key in YAML is rejected before the exporter starts.'',
      [],
      ''| Key | Type | Default | Environment | Secret | Required | Description |'',
      ''| --- | --- | --- | --- | --- | --- | --- |'']"

definition docs_tail :: string where
  "docs_tail = unlines
     [[],
      ''## Static phone targets'',
      [],
      ''`phone.targets` is a YAML map of device IDs to DNS names or addresses. With Lens credentials, it is an explicit override for Lens `internalIp`; no LAN discovery or scanning occurs. Without Lens credentials, only these static targets are collected and each key must be the phone certificate's 12-hex-digit MAC, which preserves the mandatory certificate-CN identity check before credentials are sent. Configure zero or one `lens.tenants` entry to select the telemetry tenant; an empty list uses `_discovery`.'',
      [],
      ''```yaml'',
      ''phone:'',
      ''  targets:'',
      ''    '482567000001': phone.example.invalid'',
      ''```'',
      [],
      ''## Secret environment variables'',
      [],
      ''Set required secrets through the process environment, never in YAML: `PL2O_LENS__CLIENT_SECRET` (when Lens collection is enabled), `PL2O_PHONE__AUTH__PASSWORD` (when phones are enabled), `PL2O_OTLP__GRAFANA_CLOUD__TOKEN`, and `PL2O_PROFILING__PYROSCOPE__BASIC_AUTH_PASSWORD` when Pyroscope authentication is used.'']"

definition example_head :: string where
  "example_head = unlines
     [''# Code generated by internal/configdoc; DO NOT EDIT. Run `just gen`.'',
      ''# Defaults < YAML < PL2O_ environment variables. Secrets are intentionally omitted:'',
      ''# use their listed PL2O_ variables, because the loader rejects secrets in YAML.'']"

definition escapeTable :: "string \<Rightarrow> string" where
  "escapeTable s = replace_all ''|'' [CHR 0x5C, CHR ''|''] s"

definition docs_row :: "doc_field \<Rightarrow> string" where
  "docs_row f =
     ''| `'' @ df_Key f @ ''` | `'' @ df_Type f @ ''` | `'' @ escapeTable (df_Default f) @ ''` | `'' @ envName (df_Key f) @ ''` | '' @
     (if df_Secret f then ''Yes (environment only)'' else ''No'') @ '' | '' @ df_Required f @ '' | '' @ df_Comment f @ '' |'' @ nl"

definition renderDocs :: "doc_field list \<Rightarrow> string" where
  "renderDocs fs = docs_head @ concat (map docs_row fs) @ docs_tail"

definition yamlValue :: "leaf \<Rightarrow> string" where
  "yamlValue l =
     (case l of
        LDuration d \<Rightarrow> duration_String d
      | LString s \<Rightarrow> go_quote s
      | LBool b \<Rightarrow> defaultValue l
      | LInt n \<Rightarrow> defaultValue l
      | LStrings xs \<Rightarrow> ''['' @ join '', '' (map go_quote xs) @ '']''
      | LMap kvs \<Rightarrow> ''map['' @ join '' '' (map (\<lambda>(k, v). k @ '':'' @ v) (key_sort fst kvs)) @ '']'')"

definition indent :: "nat \<Rightarrow> string" where
  "indent d = concat (replicate d ''  '')"

text \<open>A key that is in no documented field reads as the zero field.\<close>

definition zero_field :: doc_field where
  "zero_field = \<lparr>df_Key = [], df_Type = [], df_Default = [], df_Secret = False, df_Required = [], df_Comment = [], df_Value = LString [], df_IsMap = False\<rparr>"

definition by_key :: "doc_field list \<Rightarrow> string \<Rightarrow> doc_field" where
  "by_key fs key = (case map_of (rev (map (\<lambda>f. (df_Key f, f)) fs)) key of None \<Rightarrow> zero_field | Some f \<Rightarrow> f)"

definition example_leaf :: "doc_field list \<Rightarrow> string \<Rightarrow> string \<Rightarrow> string \<Rightarrow> leaf \<Rightarrow> string" where
  "example_leaf fs ind name key l =
     (let f = by_key fs key in
      if df_Secret f then ind @ ''# '' @ key @ '' is secret; set '' @ envName key @ '' in the environment.'' @ nl
      else ind @ ''# '' @ df_Comment f @ nl @
        (if df_IsMap f then ind @ name @ '':'' @ nl @ ind @ ''  <device-id>: phone.example.invalid'' @ nl
         else ind @ name @ '': '' @ yamlValue l @ nl))"

fun writeExample :: "doc_field list \<Rightarrow> (string \<times> string \<times> rval) list \<Rightarrow> string \<Rightarrow> nat \<Rightarrow> string"
  and writeField :: "doc_field list \<Rightarrow> string \<Rightarrow> string \<Rightarrow> rval \<Rightarrow> nat \<Rightarrow> string" where
  "writeExample fs [] pre d = []"
| "writeExample fs ((field, tag, v) # vs) pre d =
     writeField fs (tag_name tag) (sub_key pre (tag_name tag)) v d @ writeExample fs vs pre d"
| "writeField fs name key (Struct vs) d = indent d @ name @ '':'' @ nl @ writeExample fs vs key (Suc d)"
| "writeField fs name key (Leaf l) d = example_leaf fs (indent d) name key l"

definition struct_fields :: "rval \<Rightarrow> (string \<times> string \<times> rval) list" where
  "struct_fields v = (case v of Struct fs \<Rightarrow> fs | Leaf _ \<Rightarrow> [])"

definition renderExample :: "doc_field list \<Rightarrow> string" where
  "renderExample fs = example_head @ writeExample fs (struct_fields (reflect_config Default)) [] 0"

section \<open>The program\<close>

record doc_env =
  de_Getwd :: "string result"
  de_Stat :: "string \<Rightarrow> bool"
  de_yaml :: "string \<Rightarrow> goerr option"
  de_MkdirAll :: "string \<Rightarrow> goerr option"
  de_write_err :: "string \<Rightarrow> goerr option"
  de_partial :: "string \<Rightarrow> string option"
  de_docs_first :: bool

type_synonym doc_files = "string \<rightharpoonup> string"

partial_function (option) root_from :: "(string \<Rightarrow> bool) \<Rightarrow> string \<Rightarrow> string result option" where
  "root_from stat dir =
     (if stat (path_Join [dir, ''go.mod'']) then Some (Inr dir)
      else let parent = path_Dir dir in
        if parent = dir then Some (Inl (Msg ''could not find repository root'')) else root_from stat parent)"

definition repoRoot :: "doc_env \<Rightarrow> string result option" where
  "repoRoot env = (case de_Getwd env of Inl e \<Rightarrow> Some (Inl e) | Inr dir \<Rightarrow> root_from (de_Stat env) dir)"

text \<open>One document: compared in the checking mode, written otherwise. A write that fails leaves what it leaves.\<close>

definition sync_output :: "doc_env \<Rightarrow> bool \<Rightarrow> string \<Rightarrow> string \<times> string \<Rightarrow> doc_files \<Rightarrow> goerr option \<times> doc_files" where
  "sync_output env check root nw files =
     (let (name, want) = nw; path = path_Join [root, name] in
      if check then
        (if files path \<noteq> Some want then (Some (Msg (''generated configuration drift: '' @ name @ '' (run just gen)'')), files) else (None, files))
      else (case de_MkdirAll env (path_Dir path) of
          Some e \<Rightarrow> (Some e, files)
        | None \<Rightarrow>
            (case de_write_err env path of
               Some e \<Rightarrow> (Some e, files(path := de_partial env path))
             | None \<Rightarrow> (None, files(path \<mapsto> want)))))"

definition doc_outputs :: "doc_env \<Rightarrow> doc_field list \<Rightarrow> (string \<times> string) list" where
  "doc_outputs env fs =
     (let a = (''docs/env-vars.md'', renderDocs fs); b = (''config.example.yaml'', renderExample fs) in
      if de_docs_first env then [a, b] else [b, a])"

text \<open>The exit code and the files; \<^verbatim>\<open>fatal\<close> exits with 1.\<close>

definition doc_main :: "doc_env \<Rightarrow> bool \<Rightarrow> doc_files \<Rightarrow> (int \<times> doc_files) option" where
  "doc_main env check files =
     (case repoRoot env of
        None \<Rightarrow> None
      | Some (Inl e) \<Rightarrow> Some (1, files)
      | Some (Inr root) \<Rightarrow>
          (case fieldsFor Default of
             Inl e \<Rightarrow> Some (1, files)
           | Inr fs \<Rightarrow>
               if validateMetadata fs \<noteq> None then Some (1, files)
               else if de_yaml env (renderExample fs) \<noteq> None then Some (1, files)
               else (case for_each (sync_output env check root) (doc_outputs env fs) files of
                   (Some e, files') \<Rightarrow> Some (1, files')
                 | (None, files') \<Rightarrow> Some (0, files'))))"

section \<open>The fields of a configuration\<close>

text \<open>The settings of a configuration with their keys, as the walk finds them.\<close>

definition config_leaves :: "config \<Rightarrow> (string \<times> leaf) list" where
  "config_leaves c =
     [(''log.level'', LString (log_Level (cfg_Log c))),
      (''log.format'', LString (log_Format (cfg_Log c))),
      (''lens.token_url'', LString (lens_TokenURL (cfg_Lens c))),
      (''lens.graphql_url'', LString (lens_GraphQLURL (cfg_Lens c))),
      (''lens.websocket_url'', LString (lens_WebSocketURL (cfg_Lens c))),
      (''lens.client_id'', LString (lens_ClientID (cfg_Lens c))),
      (''lens.client_secret'', LString (lens_ClientSecret (cfg_Lens c))),
      (''lens.tenants'', LStrings (lens_Tenants (cfg_Lens c))),
      (''lens.page_size'', LInt (lens_PageSize (cfg_Lens c))),
      (''lens.request_timeout'', LDuration (lens_RequestTimeout (cfg_Lens c))),
      (''lens.retry.max_attempts'', LInt (retry_MaxAttempts (lens_Retry (cfg_Lens c)))),
      (''lens.retry.min_backoff'', LDuration (retry_MinBackoff (lens_Retry (cfg_Lens c)))),
      (''lens.retry.max_backoff'', LDuration (retry_MaxBackoff (lens_Retry (cfg_Lens c)))),
      (''lens.stream.enabled'', LBool (stream_Enabled (lens_Stream (cfg_Lens c)))),
      (''lens.stream.ack_timeout'', LDuration (stream_AckTimeout (lens_Stream (cfg_Lens c)))),
      (''lens.stream.min_backoff'', LDuration (section_MinBackoff (lens_Stream (cfg_Lens c)))),
      (''lens.stream.max_backoff'', LDuration (section_MaxBackoff (lens_Stream (cfg_Lens c)))),
      (''phone.enabled'', LBool (phone_Enabled (cfg_Phone c))),
      (''phone.targets'', LMap (phone_Targets (cfg_Phone c))),
      (''phone.config_params'', LStrings (phone_ConfigParams (cfg_Phone c))),
      (''phone.request_timeout'', LDuration (phone_RequestTimeout (cfg_Phone c))),
      (''phone.auth.username'', LString (auth_Username (phone_Auth (cfg_Phone c)))),
      (''phone.auth.password'', LString (auth_Password (phone_Auth (cfg_Phone c)))),
      (''phone.auth.from_lens_policy'', LBool (auth_FromLensPolicy (phone_Auth (cfg_Phone c)))),
      (''phone.tls.verify_chain'', LBool (tls_VerifyChain (phone_TLS (cfg_Phone c)))),
      (''phone.tls.ca_file'', LString (tls_CAFile (phone_TLS (cfg_Phone c)))),
      (''collectors.lens_devices'', LDuration (iv_LensDevices (cfg_Collectors c))),
      (''collectors.lens_active_calls'', LDuration (iv_LensActiveCalls (cfg_Collectors c))),
      (''collectors.lens_firmware'', LDuration (iv_LensFirmware (cfg_Collectors c))),
      (''collectors.lens_cdr'', LDuration (iv_LensCDR (cfg_Collectors c))),
      (''collectors.phone_status'', LDuration (iv_PhoneStatus (cfg_Collectors c))),
      (''collectors.phone_lines'', LDuration (iv_PhoneLines (cfg_Collectors c))),
      (''collectors.phone_config'', LDuration (iv_PhoneConfig (cfg_Collectors c))),
      (''collectors.phone_call_logs'', LDuration (iv_PhoneCallLogs (cfg_Collectors c))),
      (''collectors.phone_network_info'', LDuration (iv_PhoneNetworkInfo (cfg_Collectors c))),
      (''collectors.selfobs_internal'', LDuration (iv_SelfObs (cfg_Collectors c))),
      (''otlp.endpoint'', LString (otlp_Endpoint (cfg_OTLP c))),
      (''otlp.protocol'', LString (otlp_Protocol (cfg_OTLP c))),
      (''otlp.insecure'', LBool (otlp_Insecure (cfg_OTLP c))),
      (''otlp.export_interval'', LDuration (otlp_ExportInterval (cfg_OTLP c))),
      (''otlp.grafana_cloud.instance_id'', LString (otlp_InstanceID (cfg_OTLP c))),
      (''otlp.grafana_cloud.token'', LString (otlp_Token (cfg_OTLP c))),
      (''profiling.pyroscope.endpoint'', LString (pyro_Endpoint (cfg_Profiling c))),
      (''profiling.pyroscope.application'', LString (pyro_Application (cfg_Profiling c))),
      (''profiling.pyroscope.basic_auth_user'', LString (pyro_BasicAuthUser (cfg_Profiling c))),
      (''profiling.pyroscope.basic_auth_password'', LString (pyro_BasicAuthPassword (cfg_Profiling c))),
      (''state.dir'', LString (cfg_StateDir c)),
      (''cardinality.max_devices'', LInt (cfg_MaxDevices c))]"

definition doc_field_of :: "string \<times> leaf \<Rightarrow> doc_field" where
  "doc_field_of kl =
     \<lparr>df_Key = fst kl, df_Type = typeName (snd kl), df_Default = defaultValue (snd kl), df_Secret = (fst kl \<in> set doc_secrets),
      df_Required = required (fst kl), df_Comment = doc_comment (fst kl), df_Value = snd kl,
      df_IsMap = (case snd kl of LMap _ \<Rightarrow> True | _ \<Rightarrow> False)\<rparr>"

lemma addField_of: "key \<noteq> [] \<Longrightarrow> addField l key = Inr (doc_field_of (key, l))"
  by (simp add: addField_def doc_field_of_def)

lemma walk_config: "walk (reflect_config c) [] = Inr (map doc_field_of (config_leaves c))"
  by (simp add: reflect_defs tag_name_def sub_key_def addField_of config_leaves_def)

lemma config_leaves_keys: "map fst (config_leaves c) = config_keys"
  by (simp add: config_leaves_def config_keys_def)

lemma config_keys_distinct: "distinct config_keys"
  by (simp add: config_keys_def)

lemma doc_comments_keys: "map fst doc_comments = config_keys" "list_all (\<lambda>kv. snd kv \<noteq> []) doc_comments"
  by (simp_all add: doc_comments_def config_keys_def)

lemma doc_comment_set: "key \<in> set config_keys \<Longrightarrow> doc_comment key \<noteq> []"
proof -
  assume "key \<in> set config_keys"
  then have "key \<in> fst ` set doc_comments" unfolding doc_comments_keys(1) [symmetric] by simp
  then obtain v where "map_of doc_comments key = Some v" using map_of_eq_None_iff [of doc_comments key] by fastforce
  with map_of_SomeD [OF this] doc_comments_keys(2) show ?thesis by (auto simp: doc_comment_def list_all_iff)
qed

lemma doc_secrets_keys: "list_all (\<lambda>k. k \<in> set config_keys) doc_secrets" "doc_secrets = yamlSecrets"
  by (simp_all add: doc_secrets_def config_keys_def yamlSecrets_def)

lemma fieldsFor_eq: "fieldsFor c = Inr (key_sort df_Key (map doc_field_of (config_leaves c)))"
  by (simp add: fieldsFor_def walk_config)

lemma fields_keys: "map df_Key (map doc_field_of (config_leaves c)) = config_keys"
  using config_leaves_keys [of c] by (simp add: doc_field_of_def comp_def)

lemma fields_complete:
  assumes "set (map df_Key fs) = set config_keys" "\<And>f. f \<in> set fs \<Longrightarrow> \<exists>kl. f = doc_field_of kl"
  shows "validateMetadata fs = None"
proof -
  have "field_error f = None" if "f \<in> set fs" for f
  proof -
    have "df_Key f \<in> set config_keys" using assms(1) that by auto
    moreover from assms(2) [OF that] obtain kl where "f = doc_field_of kl" ..
    ultimately show ?thesis using doc_comment_set by (simp add: field_error_def doc_field_of_def)
  qed
  then have "List.map_filter field_error fs = []" by (simp add: List.map_filter_def filter_empty_conv)
  moreover have "find (\<lambda>k. k \<notin> set (map df_Key fs)) (map fst doc_comments) = None"
    unfolding assms(1) doc_comments_keys(1) find_None_iff by blast
  moreover have "find (\<lambda>k. k \<notin> set (map df_Key fs)) doc_secrets = None"
    using doc_secrets_keys(1) unfolding assms(1) find_None_iff list_all_iff by blast
  ultimately show ?thesis by (simp only: validateMetadata_def Let_def list.case option.case)
qed

text \<open>
  C30 (the reference covers the configuration). For every configuration the generator finds each of its settings with its value, in
  ascending order of the keys and without repetition; its metadata is complete and names no key that is not there; the keys it marks
  as secret are those the loader refuses in a file; and the setting of each field is a value of the type the reference names.
\<close>

theorem documented_fields:
  "\<exists>fs. fieldsFor c = Inr fs \<and> validateMetadata fs = None \<and>
     set (map (\<lambda>f. (df_Key f, df_Value f)) fs) = set (config_leaves c) \<and> sorted_wrt str_less (map df_Key fs) \<and>
     filter df_Secret fs = filter (\<lambda>f. df_Key f \<in> set yamlSecrets) fs \<and>
     list_all (\<lambda>f. df_Type f = (case df_Value f of
        LDuration _ \<Rightarrow> ''duration'' | LMap _ \<Rightarrow> ''map[string]string'' | LStrings _ \<Rightarrow> ''[]string''
      | LString _ \<Rightarrow> ''string'' | LBool _ \<Rightarrow> ''bool'' | LInt _ \<Rightarrow> ''int'') \<and> df_Comment f \<noteq> []) fs"
proof -
  let ?fs = "key_sort df_Key (map doc_field_of (config_leaves c))"
  have of: "\<exists>kl. f = doc_field_of kl" if "f \<in> set ?fs" for f using that by auto
  have keys: "set (map df_Key ?fs) = set config_keys"
    using fields_keys [of c] by (metis key_sort_set list.set_map)
  have vals: "set (map (\<lambda>f. (df_Key f, df_Value f)) ?fs) = set (config_leaves c)"
    by (simp add: image_image doc_field_of_def)
  have sorted: "sorted_wrt str_less (map df_Key ?fs)"
    unfolding sorted_wrt_map by (rule key_sort_sorted) (simp only: fields_keys config_keys_distinct)
  have secret: "filter df_Secret ?fs = filter (\<lambda>f. df_Key f \<in> set yamlSecrets) ?fs"
    by (rule filter_cong [OF refl]) (use of doc_secrets_keys(2) in \<open>auto simp: doc_field_of_def\<close>)
  have types: "df_Type f = (case df_Value f of
        LDuration _ \<Rightarrow> ''duration'' | LMap _ \<Rightarrow> ''map[string]string'' | LStrings _ \<Rightarrow> ''[]string''
      | LString _ \<Rightarrow> ''string'' | LBool _ \<Rightarrow> ''bool'' | LInt _ \<Rightarrow> ''int'') \<and> df_Comment f \<noteq> []" if "f \<in> set ?fs" for f
  proof -
    from of [OF that] obtain kl where f: "f = doc_field_of kl" ..
    have "df_Key f \<in> set config_keys" using keys that by (metis imageI list.set_map)
    with f doc_comment_set show ?thesis by (auto simp: doc_field_of_def typeName_def split: leaf.splits)
  qed
  have all: "list_all (\<lambda>f. df_Type f = (case df_Value f of
        LDuration _ \<Rightarrow> ''duration'' | LMap _ \<Rightarrow> ''map[string]string'' | LStrings _ \<Rightarrow> ''[]string''
      | LString _ \<Rightarrow> ''string'' | LBool _ \<Rightarrow> ''bool'' | LInt _ \<Rightarrow> ''int'') \<and> df_Comment f \<noteq> []) ?fs"
    unfolding list_all_iff using types by blast
  have meta: "validateMetadata ?fs = None" by (rule fields_complete [OF keys of])
  show ?thesis by (intro exI [of _ ?fs] conjI fieldsFor_eq meta vals sorted secret all)
qed

section \<open>Documented requirements\<close>

lemma leaf_of:
  assumes "(k, l) \<in> set (config_leaves c)"
  shows "k = ''otlp.endpoint'' \<Longrightarrow> l = LString (otlp_Endpoint (cfg_OTLP c))"
    "k = ''otlp.grafana_cloud.instance_id'' \<Longrightarrow> l = LString (otlp_InstanceID (cfg_OTLP c))"
    "k = ''otlp.grafana_cloud.token'' \<Longrightarrow> l = LString (otlp_Token (cfg_OTLP c))"
    "k = ''state.dir'' \<Longrightarrow> l = LString (cfg_StateDir c)"
    "k = ''lens.client_id'' \<Longrightarrow> l = LString (lens_ClientID (cfg_Lens c))"
    "k = ''lens.client_secret'' \<Longrightarrow> l = LString (lens_ClientSecret (cfg_Lens c))"
    "k = ''phone.auth.password'' \<Longrightarrow> l = LString (auth_Password (phone_Auth (cfg_Phone c)))"
  using assms unfolding config_leaves_def by simp_all

lemma required_cases:
  "required k = ''Required'' \<longleftrightarrow> k \<in> {''otlp.endpoint'', ''otlp.grafana_cloud.instance_id'', ''otlp.grafana_cloud.token'', ''state.dir''}"
  "required k = ''Required together for Lens collection'' \<longleftrightarrow> k \<in> {''lens.client_id'', ''lens.client_secret''}"
  "required k = ''Required when phone.enabled is true'' \<longleftrightarrow> k = ''phone.auth.password''"
  by (auto simp: required_def)

lemma invalid_settings:
  "blank (otlp_Endpoint (cfg_OTLP c)) \<or> blank (otlp_InstanceID (cfg_OTLP c)) \<or> blank (otlp_Token (cfg_OTLP c)) \<Longrightarrow> Validate c \<noteq> None"
  "phone_Enabled (cfg_Phone c) \<Longrightarrow> blank (auth_Password (phone_Auth (cfg_Phone c))) \<Longrightarrow> Validate c \<noteq> None"
  "blank (lens_ClientID (cfg_Lens c)) \<noteq> blank (lens_ClientSecret (cfg_Lens c)) \<Longrightarrow> Validate c \<noteq> None"
  "cfg_StateDir c = [] \<Longrightarrow> Validate c \<noteq> None"
  by (auto simp: Validate_def missing_keys_def Let_def split: option.splits)

lemma blank_Nil [simp]: "blank []"
  by (simp add: blank_def)

text \<open>
  C29 (documented requirements). Where the reference calls a setting required, an empty value of it does not pass \<^verbatim>\<open>Validate\<close>;
  where it is required with the phone side enabled, not with that; and of the two that are required together, neither
  passes empty without the other.
\<close>

theorem documented_requirements:
  assumes "fieldsFor c = Inr fs" "f \<in> set fs" "df_Default f = []"
  shows "(df_Required f = ''Required'' \<longrightarrow> Validate c \<noteq> None) \<and>
    (df_Required f = ''Required when phone.enabled is true'' \<and> phone_Enabled (cfg_Phone c) \<longrightarrow> Validate c \<noteq> None) \<and>
    (df_Required f = ''Required together for Lens collection'' \<and>
      (\<exists>g \<in> set fs. df_Required g = df_Required f \<and> \<not> blank (df_Default g)) \<longrightarrow> Validate c \<noteq> None)"
proof -
  have fs: "\<exists>k l. g = doc_field_of (k, l) \<and> (k, l) \<in> set (config_leaves c)" if "g \<in> set fs" for g
    using assms(1) that unfolding fieldsFor_eq by auto blast
  from fs [OF assms(2)] obtain k l where f: "f = doc_field_of (k, l)" and kl: "(k, l) \<in> set (config_leaves c)" by blast
  have r: "df_Required f = required k" and d: "defaultValue l = []" using f assms(3) by (simp_all add: doc_field_of_def)
  note L = leaf_of [OF kl]
  have a: "Validate c \<noteq> None" if "required k = ''Required''"
    using that d L(1-4) invalid_settings(1,4) [of c] unfolding required_cases by (auto simp: defaultValue_def)
  have b: "Validate c \<noteq> None" if "required k = ''Required when phone.enabled is true''" "phone_Enabled (cfg_Phone c)"
    using that d L(7) invalid_settings(2) [of c] unfolding required_cases by (auto simp: defaultValue_def)
  have e: "Validate c \<noteq> None"
    if "required k = ''Required together for Lens collection''" "g \<in> set fs" "df_Required g = required k" "\<not> blank (df_Default g)" for g
  proof -
    from fs [OF that(2)] obtain k' l' where g: "g = doc_field_of (k', l')" and kl': "(k', l') \<in> set (config_leaves c)" by blast
    note L' = leaf_of [OF kl']
    have r': "required k' = ''Required together for Lens collection''" "\<not> blank (defaultValue l')"
      using g that by (simp_all add: doc_field_of_def)
    show ?thesis
      using that(1) r' d L(5,6) L'(5,6) invalid_settings(3) [of c] unfolding required_cases by (auto simp: defaultValue_def)
  qed
  with a b e r show ?thesis by auto
qed

section \<open>The root of the repository\<close>

lemma root_from_found:
  assumes "rooted_path dir"
  shows "\<exists>r. root_from stat dir = Some r \<and>
    (case r of
       Inr d \<Rightarrow> (\<exists>n. d = (path_Dir ^^ n) dir \<and> stat (path_Join [d, ''go.mod'']) \<and>
         list_all (\<lambda>m. \<not> stat (path_Join [(path_Dir ^^ m) dir, ''go.mod''])) [0..<n])
     | Inl e \<Rightarrow> e = Msg ''could not find repository root'' \<and> (\<forall>m. \<not> stat (path_Join [(path_Dir ^^ m) dir, ''go.mod''])))"
  using assms
proof (induction dir rule: measure_induct_rule [where f = length])
  case (less dir)
  show ?case
  proof (cases "stat (path_Join [dir, ''go.mod''])")
    case True
    then show ?thesis by (subst root_from.simps) (auto intro!: exI [of _ 0])
  next
    case no: False
    show ?thesis
    proof (cases "path_Dir dir = dir")
      case True
      then have "(path_Dir ^^ m) dir = dir" for m by (induction m) auto
      with no True show ?thesis by (subst root_from.simps) simp
    next
      case False
      with Dir_shorter [OF less.prems] have d: "rooted_path (path_Dir dir)" "length (path_Dir dir) < length dir" by auto
      have it: "(path_Dir ^^ m) (path_Dir dir) = (path_Dir ^^ Suc m) dir" for m by (simp add: funpow_swap1)
      from less.IH [OF d(2,1)] obtain r where r: "root_from stat (path_Dir dir) = Some r" "case r of
         Inr x \<Rightarrow> (\<exists>n. x = (path_Dir ^^ n) (path_Dir dir) \<and> stat (path_Join [x, ''go.mod'']) \<and>
           list_all (\<lambda>m. \<not> stat (path_Join [(path_Dir ^^ m) (path_Dir dir), ''go.mod''])) [0..<n])
       | Inl e \<Rightarrow> e = Msg ''could not find repository root'' \<and> (\<forall>m. \<not> stat (path_Join [(path_Dir ^^ m) (path_Dir dir), ''go.mod'']))" by blast
      have eq: "root_from stat dir = Some r" using no False r(1) by (subst root_from.simps) (simp add: Let_def)
      show ?thesis
      proof (cases r)
        case (Inl e)
        with r(2) have "e = Msg ''could not find repository root''" "\<not> stat (path_Join [(path_Dir ^^ Suc m) dir, ''go.mod''])" for m
          unfolding it by auto
        moreover have "\<not> stat (path_Join [(path_Dir ^^ m) dir, ''go.mod''])" for m
          using no calculation(2) by (cases m) auto
        ultimately show ?thesis using eq Inl by auto
      next
        case (Inr x)
        with r(2) obtain n where n: "x = (path_Dir ^^ Suc n) dir" "stat (path_Join [x, ''go.mod''])"
          "list_all (\<lambda>m. \<not> stat (path_Join [(path_Dir ^^ Suc m) dir, ''go.mod''])) [0..<n]" unfolding it by auto
        have "[0..<Suc n] = 0 # map Suc [0..<n]" by (simp add: upt_conv_Cons map_Suc_upt del: upt_Suc)
        with no n(3) have "list_all (\<lambda>m. \<not> stat (path_Join [(path_Dir ^^ m) dir, ''go.mod''])) [0..<Suc n]"
          by (simp add: list.pred_map comp_def del: upt_Suc funpow.simps(2))
        with n(1,2) eq Inr show ?thesis by (auto intro!: exI [of _ "Suc n"] simp del: upt_Suc)
      qed
    qed
  qed
qed

text \<open>
  C32 (the search for the root ends). From a working directory, which is an absolute path, the search always returns: with the nearest
  directory above that holds a \<^verbatim>\<open>go.mod\<close>, or with an error when no directory up to the root of the file system has one.
\<close>

theorem repo_root_found:
  assumes "de_Getwd env = Inr dir" "rooted_path dir"
  shows "\<exists>r. repoRoot env = Some r \<and>
    (case r of
       Inr d \<Rightarrow> (\<exists>n. d = (path_Dir ^^ n) dir \<and> de_Stat env (path_Join [d, ''go.mod'']) \<and>
         list_all (\<lambda>m. \<not> de_Stat env (path_Join [(path_Dir ^^ m) dir, ''go.mod''])) [0..<n])
     | Inl e \<Rightarrow> e = Msg ''could not find repository root'' \<and> (\<forall>m. \<not> de_Stat env (path_Join [(path_Dir ^^ m) dir, ''go.mod''])))"
  using root_from_found [OF assms(2), of "de_Stat env"] assms(1) by (simp add: repoRoot_def)

lemma repo_root_rooted:
  assumes "de_Getwd env = Inr dir" "rooted_path dir" "repoRoot env = Some (Inr root)"
  shows "root \<noteq> []"
proof -
  obtain n where "root = (path_Dir ^^ n) dir"
    using root_from_found [OF assms(2), of "de_Stat env"] assms(1,3) by (auto simp: repoRoot_def)
  moreover have "rooted_path ((path_Dir ^^ n) dir)" for n
    by (induction n) (use assms(2) Dir_shorter in auto)
  ultimately have "rooted_path root" by simp
  then show ?thesis by (auto simp: rooted_path_def)
qed

section \<open>Writing and checking\<close>

definition default_fields :: "doc_field list" where
  "default_fields = key_sort df_Key (map doc_field_of (config_leaves Default))"

definition docs_path :: "string \<Rightarrow> string" where
  "docs_path root = path_Join [root, ''docs/env-vars.md'']"

definition example_path :: "string \<Rightarrow> string" where
  "example_path root = path_Join [root, ''config.example.yaml'']"

lemma paths_differ: "root \<noteq> [] \<Longrightarrow> docs_path root \<noteq> example_path root"
proof -
  assume r: "root \<noteq> []"
  obtain t where "docs_path root = t @ ''env-vars.md''"
    using Join_last [OF r, of "''docs/env-vars.md''" "[''docs'']" "''env-vars.md''"] by (auto simp: docs_path_def)
  moreover obtain u where "example_path root = u @ ''config.example.yaml''"
    using Join_last [OF r, of "''config.example.yaml''" "[]" "''config.example.yaml''"] by (auto simp: example_path_def)
  ultimately have "last (docs_path root) = CHR ''d''" "last (example_path root) = CHR ''l''" by simp_all
  then show ?thesis by auto
qed

lemma default_metadata: "validateMetadata default_fields = None"
  unfolding default_fields_def
proof (rule fields_complete)
  show "set (map df_Key (key_sort df_Key (map doc_field_of (config_leaves Default)))) = set config_keys"
    using fields_keys [of Default] by (metis key_sort_set list.set_map)
qed auto

lemma doc_main_root:
  assumes "repoRoot env = Some (Inr root)"
  shows "doc_main env check files =
    (if de_yaml env (renderExample default_fields) \<noteq> None then Some (1, files)
     else (case for_each (sync_output env check root) (doc_outputs env default_fields) files of
         (Some e, files') \<Rightarrow> Some (1, files')
       | (None, files') \<Rightarrow> Some (0, files')))"
  using assms default_metadata by (simp add: doc_main_def fieldsFor_eq default_fields_def [symmetric])

lemma check_mode:
  assumes "repoRoot env = Some (Inr root)"
  shows "doc_main env True files =
    Some (if de_yaml env (renderExample default_fields) = None \<and> files (docs_path root) = Some (renderDocs default_fields) \<and>
        files (example_path root) = Some (renderExample default_fields) then 0 else 1, files)"
  unfolding doc_main_root [OF assms]
  by (auto simp: doc_outputs_def sync_output_def and_then_def docs_path_def example_path_def Let_def)

lemma generate_mode:
  assumes "repoRoot env = Some (Inr root)" "root \<noteq> []" "doc_main env False files = Some (0, files')"
  shows "de_yaml env (renderExample default_fields) = None" "files' (docs_path root) = Some (renderDocs default_fields)"
    "files' (example_path root) = Some (renderExample default_fields)"
proof -
  from assms(3) have y: "de_yaml env (renderExample default_fields) = None"
    and f: "for_each (sync_output env False root) (doc_outputs env default_fields) files = (None, files')"
    unfolding doc_main_root [OF assms(1)] by (auto split: if_splits prod.splits option.splits)
  note w = paths_differ [OF assms(2)]
  have s: "g' = g(path_Join [root, fst nw] \<mapsto> snd nw)" if "sync_output env False root nw g = (None, g')" for nw g g'
    using that by (auto simp: sync_output_def Let_def split: prod.splits option.splits)
  show "de_yaml env (renderExample default_fields) = None" by (rule y)
  have "files' (docs_path root) = Some (renderDocs default_fields) \<and> files' (example_path root) = Some (renderExample default_fields)"
    using f w
    by (auto simp: doc_outputs_def and_then_None docs_path_def example_path_def Let_def dest!: s split: if_splits)
  then show "files' (docs_path root) = Some (renderDocs default_fields)" "files' (example_path root) = Some (renderExample default_fields)"
    by simp_all
qed

text \<open>
  C31 (generating and checking agree). After a run of the generator that succeeded, a check of the same tree succeeds and
  changes nothing, whatever the order of the documents and whatever may fail to be written; and after any change to one of
  the two documents a check exits with 1.
\<close>

theorem generate_then_check:
  assumes "de_Getwd env = Inr dir" "rooted_path dir" "doc_main env False files = Some (0, files')"
    and "de_Getwd env' = de_Getwd env" "de_Stat env' = de_Stat env" "de_yaml env' = de_yaml env"
  shows "\<exists>root. repoRoot env' = Some (Inr root) \<and> doc_main env' True files' = Some (0, files') \<and>
    (\<forall>g. g (docs_path root) \<noteq> files' (docs_path root) \<or> g (example_path root) \<noteq> files' (example_path root) \<longrightarrow>
       doc_main env' True g = Some (1, g))"
proof -
  obtain root where r: "repoRoot env = Some (Inr root)"
    using assms(3) by (auto simp: doc_main_def split: option.splits sum.splits)
  then have r': "repoRoot env' = Some (Inr root)" unfolding repoRoot_def assms(4,5) .
  note g = generate_mode [OF r repo_root_rooted [OF assms(1,2) r] assms(3)]
  show ?thesis
    by (intro exI [of _ root]) (use r' g assms(6) in \<open>auto simp: check_mode [OF r']\<close>)
qed

section \<open>Example values\<close>

definition ex_doc :: doc_env where
  "ex_doc = \<lparr>de_Getwd = Inr ''/r/internal'', de_Stat = (\<lambda>p. p = ''/r/go.mod''), de_yaml = (\<lambda>_. None), de_MkdirAll = (\<lambda>_. None),
     de_write_err = (\<lambda>_. None), de_partial = (\<lambda>_. None), de_docs_first = True\<rparr>"

lemma ex_doc_root: "repoRoot ex_doc = Some (Inr ''/r'')"
proof -
  have p: "path_Join [''/r/internal'', ''go.mod''] = ''/r/internal/go.mod''" "path_Dir ''/r/internal'' = ''/r''"
    "path_Join [''/r'', ''go.mod''] = ''/r/go.mod''"
    by code_simp+
  show ?thesis by (simp add: repoRoot_def ex_doc_def root_from.simps [of _ "''/r/internal''"] root_from.simps [of _ "''/r''"] p)
qed

lemma repo_root_found_witness:
  "\<exists>n. ''/r'' = (path_Dir ^^ n) ''/r/internal'' \<and> de_Stat ex_doc (path_Join [''/r'', ''go.mod''])"
proof -
  have "de_Getwd ex_doc = Inr ''/r/internal''" "rooted_path ''/r/internal''" by (simp_all add: ex_doc_def rooted_path_def)
  from repo_root_found [OF this] ex_doc_root show ?thesis by auto
qed

lemma ex_generates: "\<exists>files'. doc_main ex_doc False Map.empty = Some (0, files')"
  unfolding doc_main_root [OF ex_doc_root]
  by (simp add: ex_doc_def doc_outputs_def sync_output_def and_then_def Let_def)

lemma generate_then_check_witness: "\<exists>files'. doc_main ex_doc False Map.empty = Some (0, files') \<and> doc_main ex_doc True files' = Some (0, files')"
proof -
  obtain files' where g: "doc_main ex_doc False Map.empty = Some (0, files')" using ex_generates by blast
  have "de_Getwd ex_doc = Inr ''/r/internal''" "rooted_path ''/r/internal''" by (simp_all add: ex_doc_def rooted_path_def)
  from generate_then_check [OF this g refl refl refl] g show ?thesis by blast
qed

lemma documented_requirements_witness:
  "\<exists>fs f. fieldsFor Default = Inr fs \<and> f \<in> set fs \<and> df_Required f = ''Required'' \<and> Validate Default \<noteq> None"
proof -
  let ?f = "doc_field_of (''otlp.endpoint'', LString [])"
  have f: "?f \<in> set (key_sort df_Key (map doc_field_of (config_leaves Default)))"
    unfolding key_sort_set set_map by (rule imageI) (simp add: config_leaves_def Default_def)
  have d: "df_Default ?f = []" "df_Required ?f = ''Required''" by (simp_all add: doc_field_of_def defaultValue_def required_def)
  from documented_requirements [OF fieldsFor_eq f d(1)] d(2) fieldsFor_eq [of Default] f show ?thesis by blast
qed

text \<open>The strings of the defaults, which the example prints with \<^verbatim>\<open>%q\<close>, are ASCII.\<close>

lemma default_strings_ascii:
  "list_all (\<lambda>(k, l). case l of LString s \<Rightarrow> list_all is_ascii s | LStrings xs \<Rightarrow> list_all (list_all is_ascii) xs | _ \<Rightarrow> True) (config_leaves Default)"
  by (simp add: config_leaves_def Default_def char_defs)

end
