(* ===== verification/Recorder.thy ===== *)
theory Recorder
  imports Telemetry
begin

text \<open>
  \<^verbatim>\<open>internal/telemetrytest/recorder.go\<close>: the emitter of the tests, which keeps what it is given in memory, and its
  comparison with the emitter of \<^verbatim>\<open>internal/telemetry\<close>. The store is shared by the emitters derived from a recorder, so it
  is passed along; a recorder is its base attributes. The mutex and the contexts are left out.
\<close>

section \<open>The recorder\<close>

record rec_metric =
  rm_Name :: string
  rm_Value :: metric_value
  rm_Attrs :: "string \<rightharpoonup> string"

record rec_log =
  rl_Event :: string
  rl_Body :: string
  rl_Timestamp :: gotime
  rl_Attrs :: "string \<rightharpoonup> string"

record rec_store =
  rs_metrics :: "rec_metric list"
  rs_logs :: "rec_log list"

definition New_recorder :: "attr list \<times> rec_store" where
  "New_recorder = ([], \<lparr>rs_metrics = [], rs_logs = []\<rparr>)"

definition attr_map :: "attr list \<Rightarrow> (string \<rightharpoonup> string)" where
  "attr_map as = foldl (\<lambda>m a. m(attr_key a \<mapsto> attr_value a)) Map.empty as"

definition rec_attrs :: "attr list \<Rightarrow> attr list \<Rightarrow> (string \<rightharpoonup> string)" where
  "rec_attrs base extra = attr_map (base @ extra)"

definition rec_Gauge :: "attr list \<Rightarrow> string \<Rightarrow> metric_value \<Rightarrow> attr list \<Rightarrow> rec_store \<Rightarrow> goerr option \<times> rec_store" where
  "rec_Gauge base n v as s =
     (None, s\<lparr>rs_metrics := rs_metrics s @ [\<lparr>rm_Name = n, rm_Value = v, rm_Attrs = rec_attrs base as\<rparr>]\<rparr>)"

definition rec_Counter :: "attr list \<Rightarrow> string \<Rightarrow> metric_value \<Rightarrow> attr list \<Rightarrow> rec_store \<Rightarrow> goerr option \<times> rec_store" where
  "rec_Counter base n v as s = rec_Gauge base n v as s"

definition rec_LogEvent :: "attr list \<Rightarrow> string \<Rightarrow> string \<Rightarrow> gotime \<Rightarrow> attr list \<Rightarrow> rec_store \<Rightarrow> goerr option \<times> rec_store" where
  "rec_LogEvent base ev b t as s =
     (if is_zero t then (Some MissingTimestamp, s)
      else (None, s\<lparr>rs_logs := rs_logs s @ [\<lparr>rl_Event = ev, rl_Body = b, rl_Timestamp = t, rl_Attrs = rec_attrs base as\<rparr>]\<rparr>))"

definition rec_WithTenant :: "string \<Rightarrow> attr list \<Rightarrow> attr list" where
  "rec_WithTenant tid base = base @ [Attr AttrTenantID tid]"

definition rec_WithDevice :: "device \<Rightarrow> attr list \<Rightarrow> attr list" where
  "rec_WithDevice d base =
     base @ filter (\<lambda>a. attr_value a \<noteq> [])
       [Attr AttrDeviceID (dev_ID d), Attr AttrDeviceName (dev_Name d), Attr AttrDeviceMAC (dev_MAC d),
        Attr AttrDeviceModel (dev_Model d), Attr AttrSiteName (dev_Site d), Attr AttrNetHostIP (dev_IP d)]"

text \<open>\<^verbatim>\<open>StartSpan\<close> and the function it returns do nothing.\<close>

definition rec_StartSpan :: "string \<Rightarrow> attr list \<Rightarrow> rec_store \<Rightarrow> rec_store" where
  "rec_StartSpan n as s = s"

text \<open>
  \<^verbatim>\<open>HasMetric\<close>: a missing attribute reads as the empty string. The equality of the \<^verbatim>\<open>float64\<close> values is a parameter, since
  their rounding is symbolic here.
\<close>

definition rec_matches :: "(metric_value \<Rightarrow> metric_value \<Rightarrow> bool) \<Rightarrow> string \<Rightarrow> (string \<times> string) list \<Rightarrow> metric_value \<Rightarrow> rec_metric \<Rightarrow> bool" where
  "rec_matches eq n want v m \<longleftrightarrow>
     rm_Name m = n \<and> eq (rm_Value m) v \<and> list_all (\<lambda>(k, x). (case rm_Attrs m k of None \<Rightarrow> [] | Some y \<Rightarrow> y) = x) want"

definition HasMetric :: "(metric_value \<Rightarrow> metric_value \<Rightarrow> bool) \<Rightarrow> string \<Rightarrow> (string \<times> string) list \<Rightarrow> metric_value \<Rightarrow> rec_store \<Rightarrow> bool" where
  "HasMetric eq n want v s = list_ex (rec_matches eq n want v) (rs_metrics s)"

section \<open>Emissions\<close>

text \<open>An emission as the collectors make it: emitters derived by tenants and devices, then one call.\<close>

datatype scope_step = ForTenant string | ForDevice device

datatype emission =
    EmitGauge string metric_value "attr list"
  | EmitCounter string metric_value "attr list"
  | EmitLog string string gotime "attr list"
  | EmitSpan string "attr list" "goerr option"

fun otel_scope :: "scope_step \<Rightarrow> attr list \<Rightarrow> attr list" where
  "otel_scope (ForTenant t) base = otel_with_tenant t base"
| "otel_scope (ForDevice d) base = otel_with_device d base"

fun rec_scope :: "scope_step \<Rightarrow> attr list \<Rightarrow> attr list" where
  "rec_scope (ForTenant t) base = rec_WithTenant t base"
| "rec_scope (ForDevice d) base = rec_WithDevice d base"

fun otel_emit :: "meter \<Rightarrow> attr list \<Rightarrow> emission \<Rightarrow> instruments \<Rightarrow> goerr option \<times> instruments" where
  "otel_emit m base (EmitGauge n v as) st = otel_gauge m base n v as st"
| "otel_emit m base (EmitCounter n v as) st = otel_counter m base n v as st"
| "otel_emit m base (EmitLog ev b t as) st = otel_log_event base ev b t as st"
| "otel_emit m base (EmitSpan n as err) st = (None, end_span (Otel base) n as err (start_span (Otel base) n as st))"

fun rec_emit :: "attr list \<Rightarrow> emission \<Rightarrow> rec_store \<Rightarrow> goerr option \<times> rec_store" where
  "rec_emit base (EmitGauge n v as) s = rec_Gauge base n v as s"
| "rec_emit base (EmitCounter n v as) s = rec_Counter base n v as s"
| "rec_emit base (EmitLog ev b t as) s = rec_LogEvent base ev b t as s"
| "rec_emit base (EmitSpan n as err) s = (None, rec_StartSpan n as s)"

fun otel_all :: "meter \<Rightarrow> (scope_step list \<times> emission) list \<Rightarrow> instruments \<Rightarrow> goerr option list \<times> instruments" where
  "otel_all m [] st = ([], st)"
| "otel_all m ((ss, x) # xs) st =
     (let (e, st1) = otel_emit m (fold otel_scope ss []) x st; (es, st2) = otel_all m xs st1 in (e # es, st2))"

fun rec_all :: "(scope_step list \<times> emission) list \<Rightarrow> rec_store \<Rightarrow> goerr option list \<times> rec_store" where
  "rec_all [] s = ([], s)"
| "rec_all ((ss, x) # xs) s =
     (let (e, s1) = rec_emit (fold rec_scope ss []) x s; (es, s2) = rec_all xs s1 in (e # es, s2))"

section \<open>The recorder stands for the emitter\<close>

text \<open>
  What a test sees of a signal. The attributes are compared on the keys both emitters keep: the emitter of the program drops
  attributes without a key from metrics, and only the recorder adds the address of a device.
\<close>

definition seen_attrs :: "(string \<rightharpoonup> string) \<Rightarrow> (string \<rightharpoonup> string)" where
  "seen_attrs m = m(AttrNetHostIP := None, [] := None)"

datatype seen = SeenMetric string metric_value "string \<rightharpoonup> string" | SeenLog string string gotime "string \<rightharpoonup> string"

definition seen_signal :: "signal \<Rightarrow> seen option" where
  "seen_signal s =
     (case s of
        GaugeRecord n v as \<Rightarrow> Some (SeenMetric n v (seen_attrs (attr_map as)))
      | CounterAdd n v as \<Rightarrow> Some (SeenMetric n v (seen_attrs (attr_map as)))
      | LogRecord b t as \<Rightarrow> (case as of [] \<Rightarrow> None | a # as' \<Rightarrow> Some (SeenLog (attr_value a) b t (seen_attrs (attr_map as'))))
      | SpanStart n as \<Rightarrow> None
      | SpanEnd n as e \<Rightarrow> None)"

definition is_metric :: "seen \<Rightarrow> bool" where
  "is_metric x = (case x of SeenMetric _ _ _ \<Rightarrow> True | SeenLog _ _ _ _ \<Rightarrow> False)"

definition seen_store :: "rec_store \<Rightarrow> seen list \<times> seen list" where
  "seen_store s =
     (map (\<lambda>m. SeenMetric (rm_Name m) (rm_Value m) (seen_attrs (rm_Attrs m))) (rs_metrics s),
      map (\<lambda>l. SeenLog (rl_Event l) (rl_Body l) (rl_Timestamp l) (seen_attrs (rl_Attrs l))) (rs_logs s))"

definition seen_trace :: "signal list \<Rightarrow> seen list \<times> seen list" where
  "seen_trace sigs =
     (filter is_metric (List.map_filter seen_signal sigs), filter (\<lambda>x. \<not> is_metric x) (List.map_filter seen_signal sigs))"

text \<open>Two lists of attributes that differ in keys nobody compares only.\<close>

definition agree :: "attr list \<Rightarrow> attr list \<Rightarrow> bool" where
  "agree as bs \<longleftrightarrow>
     filter (\<lambda>a. attr_key a \<notin> {[], AttrNetHostIP}) as = filter (\<lambda>a. attr_key a \<notin> {[], AttrNetHostIP}) bs"

lemma attr_map_snoc [simp]: "attr_map (as @ [a]) = (attr_map as)(attr_key a \<mapsto> attr_value a)"
  by (simp add: attr_map_def)

lemma seen_attrs_upd:
  "seen_attrs (m(k \<mapsto> v)) = (if k \<in> {[], AttrNetHostIP} then seen_attrs m else (seen_attrs m)(k \<mapsto> v))"
  by (rule ext) (simp add: seen_attrs_def)

lemma seen_attrs_filter:
  "seen_attrs (attr_map as) = attr_map (filter (\<lambda>a. attr_key a \<notin> {[], AttrNetHostIP}) as)"
proof (induction as rule: rev_induct)
  case Nil
  show ?case by (rule ext) (simp add: attr_map_def seen_attrs_def)
next
  case (snoc a as)
  then show ?case by (simp add: seen_attrs_upd del: fun_upd_apply)
qed

lemma agree_seen: "agree as bs \<Longrightarrow> seen_attrs (attr_map as) = seen_attrs (attr_map bs)"
  by (simp add: agree_def seen_attrs_filter)

lemma agree_append: "agree as bs \<Longrightarrow> agree cs ds \<Longrightarrow> agree (as @ cs) (bs @ ds)"
  by (simp add: agree_def)

lemma agree_refl [simp]: "agree as as"
  by (simp add: agree_def)

lemma agree_otel_attrs: "agree as bs \<Longrightarrow> agree (otel_attrs as cs) (bs @ cs)"
  by (auto simp: agree_def otel_attrs_def intro: filter_cong)

lemma agree_scope: "agree as bs \<Longrightarrow> agree (otel_scope s as) (rec_scope s bs)"
  by (cases s)
    (auto simp: otel_with_tenant_def rec_WithTenant_def otel_with_device_def rec_WithDevice_def agree_def)

lemma agree_scopes: "agree as bs \<Longrightarrow> agree (fold otel_scope ss as) (fold rec_scope ss bs)"
  by (induction ss arbitrary: as bs) (simp_all add: agree_scope)

lemma seen_trace_snoc:
  "seen_trace (sigs @ [s]) =
     (case seen_signal s of
        None \<Rightarrow> seen_trace sigs
      | Some x \<Rightarrow> (fst (seen_trace sigs) @ (if is_metric x then [x] else []), snd (seen_trace sigs) @ (if is_metric x then [] else [x])))"
  by (simp add: seen_trace_def List.map_filter_def split: option.splits)

definition accepts :: "meter \<Rightarrow> bool" where
  "accepts m \<longleftrightarrow> (\<forall>st n. Float64Gauge m st n = None \<and> Float64Counter m st n = None)"

lemma emit_seen:
  assumes "accepts m" "agree ob rb" "otel_emit m ob x st = (e, st')" "rec_emit rb x s = (e', s')"
    and "seen_store s = seen_trace (out st)"
  shows "e = e' \<and> seen_store s' = seen_trace (out st')"
proof -
  have h: "map (\<lambda>m. SeenMetric (rm_Name m) (rm_Value m) (seen_attrs (rm_Attrs m))) (rs_metrics s) = fst (seen_trace (out st))"
    "map (\<lambda>l. SeenLog (rl_Event l) (rl_Body l) (rl_Timestamp l) (seen_attrs (rl_Attrs l))) (rs_logs s) = snd (seen_trace (out st))"
    using arg_cong [OF assms(5), of fst] arg_cong [OF assms(5), of snd] by (simp_all add: seen_store_def)
  show ?thesis
  proof (cases x)
  case (EmitGauge n v as)
  have "seen_attrs (attr_map (otel_attrs ob as)) = seen_attrs (attr_map (rb @ as))" using assms(2) agree_otel_attrs agree_seen by blast
  with assms(1,3,4) h EmitGauge show ?thesis
    by (auto simp: otel_gauge_def rec_Gauge_def rec_attrs_def accepts_def seen_store_def seen_trace_snoc seen_signal_def is_metric_def
        split: if_splits option.splits)
next
  case (EmitCounter n v as)
  have "seen_attrs (attr_map (otel_attrs ob as)) = seen_attrs (attr_map (rb @ as))" using assms(2) agree_otel_attrs agree_seen by blast
  with assms(1,3,4) h EmitCounter show ?thesis
    by (auto simp: otel_counter_def rec_Counter_def rec_Gauge_def rec_attrs_def accepts_def seen_store_def seen_trace_snoc seen_signal_def is_metric_def
        split: if_splits option.splits)
next
  case (EmitLog ev b t as)
  have "seen_attrs (attr_map (ob @ as)) = seen_attrs (attr_map (rb @ as))" using assms(2) agree_append agree_refl agree_seen by blast
  with assms(1,3,4) h EmitLog show ?thesis
    by (auto simp: otel_log_event_def rec_LogEvent_def rec_attrs_def seen_store_def seen_trace_snoc seen_signal_def is_metric_def
        split: if_splits)
  next
    case (EmitSpan n as err)
    have "seen_trace (out st @ [SpanStart n as', SpanEnd n as' err]) = seen_trace (out st)" for as'
      by (simp add: seen_trace_def List.map_filter_def seen_signal_def)
    with assms(3-5) EmitSpan show ?thesis by (auto simp: start_span_def end_span_def rec_StartSpan_def)
  qed
qed


text \<open>What a test asks for with \<^verbatim>\<open>HasMetric\<close> about other attributes is therefore what the program would export.\<close>

definition seen_match :: "(metric_value \<Rightarrow> metric_value \<Rightarrow> bool) \<Rightarrow> string \<Rightarrow> (string \<times> string) list \<Rightarrow> metric_value \<Rightarrow> seen \<Rightarrow> bool" where
  "seen_match eq n want v x =
     (case x of
        SeenMetric n' v' m \<Rightarrow> n' = n \<and> eq v' v \<and> list_all (\<lambda>(k, y). (case m k of None \<Rightarrow> [] | Some z \<Rightarrow> z) = y) want
      | SeenLog _ _ _ _ \<Rightarrow> False)"

lemma HasMetric_seen:
  assumes "list_all (\<lambda>(k, y). k \<notin> {[], AttrNetHostIP}) want"
  shows "HasMetric eq n want v s \<longleftrightarrow> list_ex (seen_match eq n want v) (fst (seen_store s))"
proof -
  have "seen_attrs m k = m k" if "k \<notin> {[], AttrNetHostIP}" for m k using that by (simp add: seen_attrs_def)
  then have "rec_matches eq n want v r \<longleftrightarrow> seen_match eq n want v (SeenMetric (rm_Name r) (rm_Value r) (seen_attrs (rm_Attrs r)))" for r
    using assms by (fastforce simp: rec_matches_def seen_match_def list_all_iff)
  then show ?thesis by (simp add: HasMetric_def seen_store_def list_ex_iff)
qed

text \<open>The address is the difference: the recorder shows a test an attribute that no exported device metric has.\<close>

lemma recorder_adds_address:
  assumes "dev_IP d \<noteq> []"
  shows "rec_attrs (rec_WithDevice d base) [] AttrNetHostIP = Some (dev_IP d)"
    "AttrNetHostIP \<notin> attr_key ` set base \<Longrightarrow> AttrNetHostIP \<notin> attr_key ` set (otel_attrs (otel_with_device d base) [])"
proof -
  show "rec_attrs (rec_WithDevice d base) [] AttrNetHostIP = Some (dev_IP d)"
    using assms by (simp add: rec_attrs_def rec_WithDevice_def attr_map_def)
  show "AttrNetHostIP \<notin> attr_key ` set (otel_attrs (otel_with_device d base) [])" if "AttrNetHostIP \<notin> attr_key ` set base"
    using that by (auto simp: otel_attrs_def otel_with_device_def)
qed

definition ex_accepting :: meter where
  "ex_accepting = \<lparr>Float64Gauge = (\<lambda>_ _. None), Float64Counter = (\<lambda>_ _. None)\<rparr>"


end
